theory Spec2Isabelle
  imports Complex_Main "HOL-Library.Word"
begin

section \<open>Values shared by the pipeline\<close>

text \<open>
  The package \<open>metrics\<close> (the two-source variant, with statistics and monitoring) is
  embedded function by function. Go's \<open>int\<close> is taken at its 64-bit width; \<open>+=\<close> on it
  wraps around, as \<open>+\<close> on \<open>64 word\<close> does. A Go \<open>string\<close> is a sequence of bytes, a
  \<open>char list\<close> here. The calls of \<open>log.Printf\<close> change no data and are left out.
\<close>

type_synonym int64 = "64 word"

text \<open>
  A Go map is an association list with distinct keys; \<open>range\<close> visits it in list order,
  which stands for the order the runtime happens to pick.
  \<open>metrics\<close> is \<open>map[string]int\<close>, \<open>dataset\<close> is \<open>map[string]map[string]int\<close>.
\<close>

type_synonym metrics = "(string \<times> int64) list"
type_synonym dataset = "(string \<times> metrics) list"

text \<open>What a call can do: return a value, return an error (its message), or panic.\<close>

datatype 'a outcome = Ok 'a | Err string | Panic

section \<open>Library functions the value coercion calls\<close>

subsection \<open>\<open>strings.Fields\<close>\<close>

text \<open>
  \<open>strings.Fields\<close> splits around runs of white space as \<open>unicode.IsSpace\<close> defines it:
  the six ASCII characters and the code points U+0085, U+00A0, U+1680, U+2000 to U+200A,
  U+2028, U+2029, U+202F, U+205F and U+3000, read here in their UTF-8 encoding.
  \<open>spaceWidth s\<close> is the number of bytes of the white-space character at the head of
  \<open>s\<close>, and 0 when there is none.
\<close>

definition spaceWidth :: "string \<Rightarrow> nat" where
  "spaceWidth s =
     (case map of_char (take 3 s) :: nat list of
        [] \<Rightarrow> 0
      | b0 # bs \<Rightarrow>
          if (9 \<le> b0 \<and> b0 \<le> 13) \<or> b0 = 32 then 1
          else if b0 = 0xC2 then
            (case bs of b1 # _ \<Rightarrow> if b1 = 0x85 \<or> b1 = 0xA0 then 2 else 0 | [] \<Rightarrow> 0)
          else if b0 = 0xE1 then
            (case bs of [b1, b2] \<Rightarrow> if b1 = 0x9A \<and> b2 = 0x80 then 3 else 0 | _ \<Rightarrow> 0)
          else if b0 = 0xE2 then
            (case bs of
               [b1, b2] \<Rightarrow>
                 if (b1 = 0x80 \<and> ((0x80 \<le> b2 \<and> b2 \<le> 0x8A) \<or> b2 = 0xA8 \<or> b2 = 0xA9 \<or> b2 = 0xAF))
                    \<or> (b1 = 0x81 \<and> b2 = 0x9F)
                 then 3 else 0
             | _ \<Rightarrow> 0)
          else if b0 = 0xE3 then
            (case bs of [b1, b2] \<Rightarrow> if b1 = 0x80 \<and> b2 = 0x80 then 3 else 0 | _ \<Rightarrow> 0)
          else 0)"

text \<open>
  \<open>fieldsFrom skip cur s\<close>: \<open>skip\<close> bytes of a white-space character are still to be
  passed over, \<open>cur\<close> is the field collected so far.
\<close>

fun fieldsFrom :: "nat \<Rightarrow> string \<Rightarrow> string \<Rightarrow> string list" where
  "fieldsFrom skip cur [] = (if cur = [] then [] else [cur])"
| "fieldsFrom skip cur (c # cs) =
     (if 0 < skip then fieldsFrom (skip - 1) cur cs
      else if spaceWidth (c # cs) = 0 then fieldsFrom 0 (cur @ [c]) cs
      else (if cur = [] then [] else [cur]) @ fieldsFrom (spaceWidth (c # cs) - 1) [] cs)"

definition Fields :: "string \<Rightarrow> string list" where
  "Fields s = fieldsFrom 0 [] s"

subsection \<open>\<open>strconv.ParseFloat\<close> at 64 bits\<close>

text \<open>
  A parsed value is a finite number (held exactly: the parser only returns numbers a
  binary64 can hold), an infinity or a NaN. The sign of a zero plays no part in what
  follows and is not kept.
\<close>

datatype float64 = Finite rat | PosInf | NegInf | NaN

datatype num_error = ErrSyntax | ErrRange

definition lowerASCII :: "char \<Rightarrow> char" where
  "lowerASCII c =
     (let n = of_char c :: nat in if 65 \<le> n \<and> n \<le> 90 then char_of (n + 32) else c)"

definition isDigit :: "char \<Rightarrow> bool" where
  "isDigit c \<longleftrightarrow> (48::nat) \<le> of_char c \<and> of_char c \<le> (57::nat)"

definition digitVal :: "char \<Rightarrow> int" where
  "digitVal c = of_char c - 48"

definition isHexLetter :: "char \<Rightarrow> bool" where
  "isHexLetter c \<longleftrightarrow> (97::nat) \<le> of_char (lowerASCII c) \<and> of_char (lowerASCII c) \<le> (102::nat)"

definition hexVal :: "char \<Rightarrow> int" where
  "hexVal c = of_char (lowerASCII c) - 87"

text \<open>
  The digits of the mantissa, as \<open>readFloat\<close> scans them: \<open>mant\<close> is the number the
  digits spell without the point, \<open>fracDigits\<close> counts the digits after the point.
\<close>

record scan =
  mant :: int
  fracDigits :: nat
  sawdot :: bool
  sawdigits :: bool
  underscores :: bool

definition scan0 :: scan where
  "scan0 = \<lparr>mant = 0, fracDigits = 0, sawdot = False, sawdigits = False, underscores = False\<rparr>"

definition pushDigit :: "int \<Rightarrow> int \<Rightarrow> scan \<Rightarrow> scan" where
  "pushDigit base d st =
     st\<lparr>mant := mant st * base + d,
        fracDigits := (if sawdot st then Suc (fracDigits st) else fracDigits st),
        sawdigits := True\<rparr>"

fun scanMantissa :: "int \<Rightarrow> scan \<Rightarrow> string \<Rightarrow> scan \<times> string" where
  "scanMantissa base st [] = (st, [])"
| "scanMantissa base st (c # cs) =
     (if c = CHR ''_'' then scanMantissa base (st\<lparr>underscores := True\<rparr>) cs
      else if c = CHR ''.'' then
        (if sawdot st then (st, c # cs) else scanMantissa base (st\<lparr>sawdot := True\<rparr>) cs)
      else if isDigit c then scanMantissa base (pushDigit base (digitVal c) st) cs
      else if base = 16 \<and> isHexLetter c then scanMantissa base (pushDigit base (hexVal c) st) cs
      else (st, c # cs))"

text \<open>The digits of the exponent; the count stops growing once it has reached 10000.\<close>

fun scanExpDigits :: "int \<Rightarrow> bool \<Rightarrow> string \<Rightarrow> int \<times> bool \<times> string" where
  "scanExpDigits e us [] = (e, us, [])"
| "scanExpDigits e us (c # cs) =
     (if c = CHR ''_'' then scanExpDigits e True cs
      else if isDigit c then scanExpDigits (if e < 10000 then e * 10 + digitVal c else e) us cs
      else (e, us, c # cs))"

text \<open>
  The exponent part after the mantissa: \<open>None\<close> when it is malformed (or missing from a
  hexadecimal number), else its value, whether an underscore was seen, and the rest.
\<close>

definition readExponent :: "bool \<Rightarrow> bool \<Rightarrow> string \<Rightarrow> (int \<times> bool \<times> string) option" where
  "readExponent hex us s =
     (case s of
        [] \<Rightarrow> if hex then None else Some (0, us, s)
      | c # s1 \<Rightarrow>
          if lowerASCII c = (if hex then CHR ''p'' else CHR ''e'') then
            (case s1 of
               [] \<Rightarrow> None
             | sg # s2 \<Rightarrow>
                 let s3 = (if sg = CHR ''+'' \<or> sg = CHR ''-'' then s2 else s1) in
                 (case s3 of
                    [] \<Rightarrow> None
                  | d # _ \<Rightarrow>
                      if \<not> isDigit d then None
                      else (case scanExpDigits 0 us s3 of
                              (e, us', rest) \<Rightarrow>
                                Some (if sg = CHR ''-'' then - e else e, us', rest))))
          else if hex then None
          else Some (0, us, s))"

text \<open>\<open>underscoreOK\<close>: an underscore stands only between digits, or after a base prefix.\<close>

datatype saw = SawStart | SawDigit | SawUnderscore | SawOther

fun underscoreLoop :: "bool \<Rightarrow> saw \<Rightarrow> string \<Rightarrow> bool" where
  "underscoreLoop hex sw [] = (sw \<noteq> SawUnderscore)"
| "underscoreLoop hex sw (c # cs) =
     (if isDigit c \<or> (hex \<and> isHexLetter c) then underscoreLoop hex SawDigit cs
      else if c = CHR ''_'' then
        (if sw \<noteq> SawDigit then False else underscoreLoop hex SawUnderscore cs)
      else if sw = SawUnderscore then False
      else underscoreLoop hex SawOther cs)"

definition underscoreOK :: "string \<Rightarrow> bool" where
  "underscoreOK s =
     (let s1 = (case s of [] \<Rightarrow> s | c # r \<Rightarrow> if c = CHR ''-'' \<or> c = CHR ''+'' then r else s) in
      case s1 of
        c0 # c1 # r \<Rightarrow>
          if c0 = CHR ''0'' \<and> lowerASCII c1 \<in> set [CHR ''b'', CHR ''o'', CHR ''x'']
          then underscoreLoop (lowerASCII c1 = CHR ''x'') SawDigit r
          else underscoreLoop False SawStart s1
      | _ \<Rightarrow> underscoreLoop False SawStart s1)"

text \<open>
  \<open>readFloat\<close> on a whole token (\<open>ParseFloat\<close> rejects a token it does not consume to
  the end): the sign, whether the number is hexadecimal, the mantissa digits, the count of
  digits after the point, and the exponent.
\<close>

definition readFloat :: "string \<Rightarrow> (bool \<times> bool \<times> int \<times> nat \<times> int) option" where
  "readFloat s =
     (case s of
        [] \<Rightarrow> None
      | c # cs \<Rightarrow>
          let neg = (c = CHR ''-'');
              s1 = (if c = CHR ''+'' \<or> c = CHR ''-'' then cs else s);
              hex = (case s1 of c0 # c1 # _ # _ \<Rightarrow> c0 = CHR ''0'' \<and> lowerASCII c1 = CHR ''x''
                     | _ \<Rightarrow> False)
          in (case scanMantissa (if hex then 16 else 10) scan0 (if hex then drop 2 s1 else s1) of
                (st, s2) \<Rightarrow>
                  if \<not> sawdigits st then None
                  else (case readExponent hex (underscores st) s2 of
                          None \<Rightarrow> None
                        | Some (e, us, rest) \<Rightarrow>
                            if rest \<noteq> [] then None
                            else if us \<and> \<not> underscoreOK s then None
                            else Some (neg, hex, mant st, fracDigits st, e))))"

text \<open>Rounding a positive number to the nearest binary64, ties to even.\<close>

function bitLength :: "int \<Rightarrow> nat" where
  "bitLength n = (if n \<le> 0 then 0 else Suc (bitLength (n div 2)))"
  by pat_completeness auto
termination
  by (relation "measure nat") auto

declare bitLength.simps [simp del]

definition pow2 :: "int \<Rightarrow> rat" where
  "pow2 k = (if 0 \<le> k then 2 ^ nat k else 1 / 2 ^ nat (- k))"

definition floorLog2 :: "rat \<Rightarrow> int" where
  "floorLog2 q =
     (case quotient_of q of
        (a, b) \<Rightarrow>
          let d = int (bitLength a) - int (bitLength b)
          in if pow2 d \<le> q then d else d - 1)"

definition roundHalfEven :: "rat \<Rightarrow> int" where
  "roundHalfEven x =
     (let f = \<lfloor>x\<rfloor>; r = x - of_int f
      in if r < 1 / 2 then f else if 1 / 2 < r then f + 1 else if even f then f else f + 1)"

definition roundBinary64 :: "rat \<Rightarrow> rat option" where
  "roundBinary64 q =
     (let s = max (floorLog2 q - 52) (- 1074);
          v = of_int (roundHalfEven (q / pow2 s)) * pow2 s
      in if 2 ^ 1024 \<le> v then None else Some v)"

definition lowerString :: "string \<Rightarrow> string" where
  "lowerString s = map lowerASCII s"

text \<open>
  \<open>ParseFloat s 64\<close>: the special names first, then a decimal or hexadecimal number,
  rounded to the nearest binary64; a number too large for a binary64 is a range error.
\<close>

definition ParseFloat :: "string \<Rightarrow> num_error + float64" where
  "ParseFloat s =
     (if lowerString s \<in> set [''inf'', ''+inf'', ''infinity'', ''+infinity''] then Inr PosInf
      else if lowerString s \<in> set [''-inf'', ''-infinity''] then Inr NegInf
      else if lowerString s = ''nan'' then Inr NaN
      else (case readFloat s of
              None \<Rightarrow> Inl ErrSyntax
            | Some (neg, hex, m, fd, e) \<Rightarrow>
                if m = 0 then Inr (Finite 0)
                else
                  let q = (if hex then of_int m * pow2 (e - 4 * int fd)
                           else if 0 \<le> e - int fd then of_int m * 10 ^ nat (e - int fd)
                           else of_int m / 10 ^ nat (int fd - e))
                  in (case roundBinary64 q of
                        None \<Rightarrow> Inl ErrRange
                      | Some v \<Rightarrow> Inr (Finite (if neg then - v else v)))))"

subsection \<open>The conversion \<open>int(floatValue)\<close>\<close>

text \<open>
  Go discards the fraction (truncation towards zero). Where the result does not fit an
  \<open>int\<close>, or the value is an infinity or a NaN, the language leaves the result to the
  implementation: \<open>oor\<close> stands for what the platform yields there.
\<close>

definition intOfFloat :: "(float64 \<Rightarrow> int64) \<Rightarrow> float64 \<Rightarrow> int64" where
  "intOfFloat oor f =
     (case f of
        Finite q \<Rightarrow>
          let t = (if 0 \<le> q then \<lfloor>q\<rfloor> else \<lceil>q\<rceil>)
          in if - (2 ^ 63) \<le> t \<and> t < 2 ^ 63 then word_of_int t else oor f
      | _ \<Rightarrow> oor f)"

section \<open>What the handler does not control\<close>

text \<open>
  One scrape sees the upstream through \<open>http.Get\<close> and \<open>ioutil.ReadAll\<close>, and reads
  the bodies with \<open>json.Unmarshal\<close> at the two target types. These are taken as given:
  \<^item> \<open>httpGet url\<close> is what the request yields: a transport error, or a status code with
    the body (or the error of reading it); every request is taken to return;
  \<^item> \<open>unmarshalStatistics\<close> and \<open>unmarshalMonitoring\<close> decode a body into
    \<open>map[string]map[string]int\<close> and \<open>map[string]string\<close>, or fail with a message; a
    decoded map is listed in the order \<open>range\<close> visits it;
  \<^item> \<open>outOfRange\<close> is the platform's result of \<open>int(f)\<close> where the language leaves it
    open;
  \<^item> \<open>validName\<close> says which gauge names the metrics library accepts.
\<close>

datatype http_result = GetFailed string | Response nat "string + string"

record env =
  httpGet :: "string \<Rightarrow> http_result"
  unmarshalStatistics :: "string \<Rightarrow> string + dataset"
  unmarshalMonitoring :: "string \<Rightarrow> string + (string \<times> string) list"
  outOfRange :: "float64 \<Rightarrow> int64"
  validName :: "string \<Rightarrow> bool"

text \<open>The verb \<open>%d\<close> of \<open>fmt.Sprintf\<close> on an unsigned number.\<close>

definition digitChar :: "nat \<Rightarrow> char" where
  "digitChar d = ''0123456789'' ! d"

fun showNat :: "nat \<Rightarrow> string" where
  "showNat n =
     (if n < 10 then [digitChar n] else showNat (n div 10) @ [digitChar (n mod 10)])"

declare showNat.simps [simp del]

section \<open>\<open>fetchJSONData\<close>\<close>

text \<open>The value behind the \<open>interface{}\<close> that \<open>fetchJSONData\<close> returns.\<close>

datatype payload = StatsPayload dataset | MonitorPayload "(string \<times> string) list"

definition fetchJSONData :: "env \<Rightarrow> string \<Rightarrow> string \<Rightarrow> string + payload" where
  "fetchJSONData env apiURL dataType =
     (case httpGet env apiURL of
        GetFailed err \<Rightarrow> Inl (''failed to fetch JSON data: '' @ err)
      | Response statusCode body \<Rightarrow>
          if statusCode \<noteq> 200 then Inl (''unexpected status code: '' @ showNat statusCode)
          else
            (case body of
               Inl err \<Rightarrow> Inl (''failed to read response body: '' @ err)
             | Inr data \<Rightarrow>
                 if dataType = ''statistics'' then
                   (case unmarshalStatistics env data of
                      Inl err \<Rightarrow> Inl (''failed to parse statistics JSON: '' @ err)
                    | Inr stats \<Rightarrow> Inr (StatsPayload stats))
                 else if dataType = ''monitoring'' then
                   (case unmarshalMonitoring env data of
                      Inl err \<Rightarrow> Inl (''failed to parse monitoring JSON: '' @ err)
                    | Inr monitor \<Rightarrow> Inr (MonitorPayload monitor))
                 else Inl (''unknown data type: '' @ dataType)))"

section \<open>\<open>fetchAndCombineJSONData\<close>\<close>

text \<open>\<open>m[metricName] += value\<close>: a missing name reads as 0.\<close>

fun addMetric :: "string \<Rightarrow> int64 \<Rightarrow> metrics \<Rightarrow> metrics" where
  "addMetric metricName v [] = [(metricName, 0 + v)]"
| "addMetric metricName v ((n, x) # ms) =
     (if n = metricName then (n, x + v) # ms else (n, x) # addMetric metricName v ms)"

text \<open>\<open>if _, exists := combinedData[k]; !exists { combinedData[k] = make(map[string]int) }\<close>\<close>

fun ensureCategory :: "string \<Rightarrow> dataset \<Rightarrow> dataset" where
  "ensureCategory k [] = [(k, [])]"
| "ensureCategory k ((c, ms) # d) =
     (if c = k then (c, ms) # d else (c, ms) # ensureCategory k d)"

text \<open>
  The inner map \<open>combinedData[k]\<close> is shared by reference, so a loop that updates it
  through \<open>combinedData[k][name]\<close> changes the entry under \<open>k\<close> and nothing else:
  \<open>updateCategory k f\<close> puts \<open>f\<close> of the inner map in its place. The source reaches it
  only after \<open>ensureCategory k\<close>, when the key is there.
\<close>

fun updateCategory :: "string \<Rightarrow> (metrics \<Rightarrow> metrics) \<Rightarrow> dataset \<Rightarrow> dataset" where
  "updateCategory k f [] = []"
| "updateCategory k f ((c, ms) # d) =
     (if c = k then (c, f ms) # d else (c, ms) # updateCategory k f d)"

text \<open>The statistics branch: the loop over one category's metrics, then over the payload.\<close>

fun addMetrics :: "metrics \<Rightarrow> metrics \<Rightarrow> metrics" where
  "addMetrics [] ms = ms"
| "addMetrics ((metricName, v) # rest) ms = addMetrics rest (addMetric metricName v ms)"

fun addStatistics :: "string \<Rightarrow> dataset \<Rightarrow> dataset \<Rightarrow> dataset" where
  "addStatistics MetricsCategory [] combinedData = combinedData"
| "addStatistics MetricsCategory ((category, ms) # rest) combinedData =
     (let prefixedCategory = MetricsCategory @ ''_'' @ category
      in addStatistics MetricsCategory rest
           (updateCategory prefixedCategory (addMetrics ms)
              (ensureCategory prefixedCategory combinedData)))"

text \<open>
  The monitoring branch: the loop over one payload. \<open>strings.Fields(value)[0]\<close> indexes
  a slice that is empty when the value holds no field; the index then panics (\<open>None\<close>).
  A value whose first field does not parse is passed over.
\<close>

fun addMonitoring :: "(float64 \<Rightarrow> int64) \<Rightarrow> (string \<times> string) list \<Rightarrow> metrics \<Rightarrow> metrics option" where
  "addMonitoring oor [] ms = Some ms"
| "addMonitoring oor ((metricName, v) # rest) ms =
     (case Fields v of
        [] \<Rightarrow> None
      | cleanedValue # _ \<Rightarrow>
          (case ParseFloat cleanedValue of
             Inl err \<Rightarrow> addMonitoring oor rest ms
           | Inr floatValue \<Rightarrow>
               addMonitoring oor rest (addMetric metricName (intOfFloat oor floatValue) ms)))"

definition lookupCategory :: "string \<Rightarrow> dataset \<Rightarrow> metrics" where
  "lookupCategory k d = (case map_of d k of None \<Rightarrow> [] | Some ms \<Rightarrow> ms)"

definition fullURL :: "string \<Rightarrow> string \<Rightarrow> string \<Rightarrow> string" where
  "fullURL baseURL MetricsCategory queryParams =
     baseURL @ ''/'' @ MetricsCategory @ ''?operatorIdentifier='' @ queryParams"

text \<open>The loop over the categories.\<close>

fun combineLoop :: "env \<Rightarrow> string \<Rightarrow> string \<Rightarrow> string \<Rightarrow> dataset \<Rightarrow> string list \<Rightarrow> dataset outcome" where
  "combineLoop env dataType baseURL queryParams combinedData [] = Ok combinedData"
| "combineLoop env dataType baseURL queryParams combinedData (MetricsCategory # rest) =
     (case fetchJSONData env (fullURL baseURL MetricsCategory queryParams) dataType of
        Inl err \<Rightarrow> combineLoop env dataType baseURL queryParams combinedData rest
      | Inr data \<Rightarrow>
          if dataType = ''statistics'' then
            (case data of
               StatsPayload statsData \<Rightarrow>
                 combineLoop env dataType baseURL queryParams
                   (addStatistics MetricsCategory statsData combinedData) rest
             | MonitorPayload _ \<Rightarrow> Err ''unexpected data type for statistics'')
          else if dataType = ''monitoring'' then
            (case data of
               MonitorPayload monitorData \<Rightarrow>
                 (let prefixedCategory = MetricsCategory;
                      cd = ensureCategory prefixedCategory combinedData
                  in case addMonitoring (outOfRange env) monitorData (lookupCategory prefixedCategory cd) of
                       None \<Rightarrow> Panic
                     | Some ms \<Rightarrow>
                         combineLoop env dataType baseURL queryParams
                           (updateCategory prefixedCategory (\<lambda>_. ms) cd) rest)
             | StatsPayload _ \<Rightarrow> Err ''unexpected data type for monitoring'')
          else Err (''invalid data type: '' @ dataType))"

text \<open>The two base URLs, and the function itself.\<close>

definition statisticsBaseURL :: "string \<Rightarrow> nat \<Rightarrow> string" where
  "statisticsBaseURL serverAddr serverPort =
     ''http://'' @ serverAddr @ '':'' @ showNat serverPort @ ''/nnfcm-statistics/v2/stats''"

definition monitoringBaseURL :: "string \<Rightarrow> nat \<Rightarrow> string" where
  "monitoringBaseURL serverAddr serverPort =
     ''http://'' @ serverAddr @ '':'' @ showNat serverPort @ ''/nnfcm-monitoring/v2''"

definition fetchAndCombineJSONData ::
  "env \<Rightarrow> string list \<Rightarrow> string \<Rightarrow> string \<Rightarrow> nat \<Rightarrow> string \<Rightarrow> dataset outcome" where
  "fetchAndCombineJSONData env MetricsCategories queryParams serverAddr serverPort dataType =
     (if dataType = ''statistics'' then
        combineLoop env dataType (statisticsBaseURL serverAddr serverPort)
          queryParams [] MetricsCategories
      else if dataType = ''monitoring'' then
        combineLoop env dataType (monitoringBaseURL serverAddr serverPort)
          queryParams [] MetricsCategories
      else Err (''invalid data type: '' @ dataType))"

section \<open>\<open>registerMetricsFromJSON\<close>\<close>

text \<open>
  A gauge holds its name, its help string and the value it was last set to (the source
  sets \<open>float64(value)\<close>; the integer it comes from is kept). The registry lists the
  gauges in the order they were registered. \<open>Register\<close> refuses a gauge whose name is
  not valid; on a name it already holds it reports \<open>AlreadyRegisteredError\<close> when the
  help string is the same too, and another error when it differs.
\<close>

record gauge =
  gaugeName :: string
  gaugeHelp :: string
  gaugeValue :: int64

type_synonym registry = "gauge list"

datatype register_error = AlreadyRegisteredError | OtherError

definition Register :: "(string \<Rightarrow> bool) \<Rightarrow> registry \<Rightarrow> gauge \<Rightarrow> register_error + registry" where
  "Register valid reg g =
     (if \<not> valid (gaugeName g) then Inl OtherError
      else (case find (\<lambda>h. gaugeName h = gaugeName g) reg of
              None \<Rightarrow> Inr (reg @ [g])
            | Some h \<Rightarrow> if gaugeHelp h = gaugeHelp g then Inl AlreadyRegisteredError else Inl OtherError))"

definition setExisting :: "string \<Rightarrow> int64 \<Rightarrow> registry \<Rightarrow> registry" where
  "setExisting name v reg = map (\<lambda>h. if gaugeName h = name then h\<lparr>gaugeValue := v\<rparr> else h) reg"

definition registerOne :: "(string \<Rightarrow> bool) \<Rightarrow> string \<Rightarrow> registry \<Rightarrow> string \<times> int64 \<Rightarrow> registry" where
  "registerOne valid category reg entry =
     (case entry of
        (metricName, v) \<Rightarrow>
          let metric = \<lparr>gaugeName = category @ ''_'' @ metricName,
                        gaugeHelp = ''Metric '' @ metricName @ '' from category '' @ category,
                        gaugeValue = v\<rparr>
          in (case Register valid reg metric of
                Inr reg' \<Rightarrow> reg'
              | Inl AlreadyRegisteredError \<Rightarrow> setExisting (gaugeName metric) v reg
              | Inl OtherError \<Rightarrow> reg))"

definition registerCategory :: "(string \<Rightarrow> bool) \<Rightarrow> registry \<Rightarrow> string \<times> metrics \<Rightarrow> registry" where
  "registerCategory valid reg entry =
     (case entry of (category, ms) \<Rightarrow> foldl (registerOne valid category) reg ms)"

definition registerMetricsFromJSON :: "(string \<Rightarrow> bool) \<Rightarrow> dataset \<Rightarrow> registry \<Rightarrow> registry" where
  "registerMetricsFromJSON valid data reg = foldl (registerCategory valid) reg data"

section \<open>\<open>MetricsHandler\<close>\<close>

record config =
  MetricsStatisticsCategories :: "string list"
  MetricsMonitoringCategories :: "string list"
  queryParams :: string
  StatisticServerAddr :: string
  StatisticServerPort :: nat
  MonitoringServerAddr :: string
  MonitoringServerPort :: nat

text \<open>
  The body of a response is the text of \<open>http.Error\<close> (the message and a newline), or
  the exposition that \<open>promhttp\<close> renders from a registry. A panic in a goroutine that
  the handler started ends the process: there is no response then.
\<close>

datatype body = Text string | Exposition registry

datatype handled = Responded nat body registry | Crashed

definition httpError :: "string \<Rightarrow> nat \<Rightarrow> registry \<Rightarrow> handled" where
  "httpError msg code reg = Responded code (Text (msg @ [CHR 0x0A])) reg"

text \<open>\<open>combinedData[category] = metrics\<close>, and the loop that copies a fragment.\<close>

fun setCategory :: "string \<Rightarrow> metrics \<Rightarrow> dataset \<Rightarrow> dataset" where
  "setCategory k ms [] = [(k, ms)]"
| "setCategory k ms ((c, old) # d) =
     (if c = k then (c, ms) # d else (c, old) # setCategory k ms d)"

fun mergeInto :: "dataset \<Rightarrow> dataset \<Rightarrow> dataset" where
  "mergeInto combinedData [] = combinedData"
| "mergeInto combinedData ((category, ms) # rest) =
     mergeInto (setCategory category ms combinedData) rest"

text \<open>
  From the test of \<open>len(combinedData)\<close> to the response. \<open>registerMetricsFromJSON\<close>
  always returns \<open>nil\<close>, so the error branch after it is never taken.
\<close>

definition respond :: "env \<Rightarrow> dataset \<Rightarrow> registry \<Rightarrow> handled" where
  "respond env combinedData metricsRegistry =
     (if combinedData = [] then
        httpError ''No valid configuration provided for statistics or monitoring'' 400 metricsRegistry
      else
        let reg = registerMetricsFromJSON (validName env) combinedData []
        in Responded 200 (Exposition reg) reg)"

text \<open>
  Each \<open>select\<close> waits for what the goroutine started just before it sends: the data,
  or the error. \<open>onMonitoring\<close> and \<open>onStatistics\<close> are the two \<open>select\<close> statements,
  as functions of what the aggregations come to; \<open>MetricsHandler\<close> passes them the
  results of the two calls of \<open>fetchAndCombineJSONData\<close>.
\<close>

definition onMonitoring :: "env \<Rightarrow> dataset \<Rightarrow> registry \<Rightarrow> dataset outcome \<Rightarrow> handled" where
  "onMonitoring env combinedData metricsRegistry monitorResult =
     (case monitorResult of
        Ok monitorData \<Rightarrow> respond env (mergeInto combinedData monitorData) metricsRegistry
      | Err err \<Rightarrow> httpError (''failed to fetch monitoring data: '' @ err) 500 metricsRegistry
      | Panic \<Rightarrow> Crashed)"

definition monitoringConfigured :: "config \<Rightarrow> bool" where
  "monitoringConfigured cfg \<longleftrightarrow>
     MetricsMonitoringCategories cfg \<noteq> [] \<and> MonitoringServerAddr cfg \<noteq> ''''
     \<and> MonitoringServerPort cfg \<noteq> 0"

definition statisticsConfigured :: "config \<Rightarrow> bool" where
  "statisticsConfigured cfg \<longleftrightarrow>
     MetricsStatisticsCategories cfg \<noteq> [] \<and> StatisticServerAddr cfg \<noteq> ''''
     \<and> StatisticServerPort cfg \<noteq> 0"

definition monitoringStage ::
  "env \<Rightarrow> config \<Rightarrow> dataset \<Rightarrow> registry \<Rightarrow> dataset outcome \<Rightarrow> handled" where
  "monitoringStage env cfg combinedData metricsRegistry monitorResult =
     (if monitoringConfigured cfg
      then onMonitoring env combinedData metricsRegistry monitorResult
      else respond env combinedData metricsRegistry)"

definition onStatistics ::
  "env \<Rightarrow> config \<Rightarrow> registry \<Rightarrow> dataset outcome \<Rightarrow> dataset outcome \<Rightarrow> handled" where
  "onStatistics env cfg metricsRegistry statsResult monitorResult =
     (case statsResult of
        Ok statsData \<Rightarrow>
          monitoringStage env cfg (mergeInto [] statsData) metricsRegistry monitorResult
      | Err err \<Rightarrow> httpError (''failed to fetch statistics data: '' @ err) 500 metricsRegistry
      | Panic \<Rightarrow> Crashed)"

definition statisticsStage ::
  "env \<Rightarrow> config \<Rightarrow> registry \<Rightarrow> dataset outcome \<Rightarrow> dataset outcome \<Rightarrow> handled" where
  "statisticsStage env cfg metricsRegistry statsResult monitorResult =
     (if statisticsConfigured cfg
      then onStatistics env cfg metricsRegistry statsResult monitorResult
      else monitoringStage env cfg [] metricsRegistry monitorResult)"

definition statisticsResult :: "env \<Rightarrow> config \<Rightarrow> dataset outcome" where
  "statisticsResult env cfg =
     fetchAndCombineJSONData env (MetricsStatisticsCategories cfg) (queryParams cfg)
       (StatisticServerAddr cfg) (StatisticServerPort cfg) ''statistics''"

definition monitoringResult :: "env \<Rightarrow> config \<Rightarrow> dataset outcome" where
  "monitoringResult env cfg =
     fetchAndCombineJSONData env (MetricsMonitoringCategories cfg) (queryParams cfg)
       (MonitoringServerAddr cfg) (MonitoringServerPort cfg) ''monitoring''"

definition MetricsHandler :: "env \<Rightarrow> config \<Rightarrow> registry \<Rightarrow> handled" where
  "MetricsHandler env cfg metricsRegistry =
     statisticsStage env cfg metricsRegistry (statisticsResult env cfg) (monitoringResult env cfg)"

section \<open>The goroutines of one request\<close>

text \<open>
  The handler starts one goroutine for each configured source and then blocks in a
  \<open>select\<close>. The steps below are those of the three goroutines, one at a time, in any
  order the scheduler allows. A worker is not yet started, runs its aggregation, is
  blocked in the send on its own unbuffered channel, or has ended. \<open>errorChan\<close> has room
  for two messages; a send on it blocks only when it is full. A panic in a worker ends
  the process.
\<close>

datatype worker = Unstarted | Running | Sending dataset | Exited

datatype handler_at =
  AtStatistics | SelectStatistics | AtMonitoring | SelectMonitoring | AtCheck | Finished handled

record request =
  handlerAt :: handler_at
  statsWorker :: worker
  monitorWorker :: worker
  errorChan :: "string list"
  combined :: dataset
  crashed :: bool

definition request0 :: request where
  "request0 =
     \<lparr>handlerAt = AtStatistics, statsWorker = Unstarted, monitorWorker = Unstarted,
      errorChan = [], combined = [], crashed = False\<rparr>"

definition receiveError :: "registry \<Rightarrow> request \<Rightarrow> request list" where
  "receiveError reg st =
     (case errorChan st of
        [] \<Rightarrow> []
      | err # q \<Rightarrow> [st\<lparr>errorChan := q, handlerAt := Finished (httpError err 500 reg)\<rparr>])"

definition handlerSteps :: "env \<Rightarrow> config \<Rightarrow> registry \<Rightarrow> request \<Rightarrow> request list" where
  "handlerSteps env cfg reg st =
     (case handlerAt st of
        AtStatistics \<Rightarrow>
          if statisticsConfigured cfg
          then [st\<lparr>statsWorker := Running, handlerAt := SelectStatistics\<rparr>]
          else [st\<lparr>handlerAt := AtMonitoring\<rparr>]
      | SelectStatistics \<Rightarrow>
          (case statsWorker st of
             Sending statsData \<Rightarrow>
               [st\<lparr>statsWorker := Exited, combined := mergeInto (combined st) statsData,
                   handlerAt := AtMonitoring\<rparr>]
           | _ \<Rightarrow> [])
          @ receiveError reg st
      | AtMonitoring \<Rightarrow>
          if monitoringConfigured cfg
          then [st\<lparr>monitorWorker := Running, handlerAt := SelectMonitoring\<rparr>]
          else [st\<lparr>handlerAt := AtCheck\<rparr>]
      | SelectMonitoring \<Rightarrow>
          (case monitorWorker st of
             Sending monitorData \<Rightarrow>
               [st\<lparr>monitorWorker := Exited, combined := mergeInto (combined st) monitorData,
                   handlerAt := AtCheck\<rparr>]
           | _ \<Rightarrow> [])
          @ receiveError reg st
      | AtCheck \<Rightarrow> [st\<lparr>handlerAt := Finished (respond env (combined st) reg)\<rparr>]
      | Finished _ \<Rightarrow> [])"

text \<open>
  A running worker ends its aggregation: it offers the data on its channel, or puts the
  wrapped error into \<open>errorChan\<close> and returns, or panics.
\<close>

definition workerSteps ::
  "string \<Rightarrow> dataset outcome \<Rightarrow> worker \<Rightarrow> string list \<Rightarrow> (worker \<times> string list \<times> bool) list" where
  "workerSteps source result w chan =
     (case w of
        Running \<Rightarrow>
          (case result of
             Ok data \<Rightarrow> [(Sending data, chan, False)]
           | Err err \<Rightarrow>
               if length chan < 2
               then [(Exited, chan @ [''failed to fetch '' @ source @ '' data: '' @ err], False)]
               else []
           | Panic \<Rightarrow> [(Running, chan, True)])
      | _ \<Rightarrow> [])"

definition requestSteps ::
  "env \<Rightarrow> config \<Rightarrow> registry \<Rightarrow> dataset outcome \<Rightarrow> dataset outcome \<Rightarrow> request \<Rightarrow> request list" where
  "requestSteps env cfg reg statsResult monitorResult st =
     (if crashed st then []
      else handlerSteps env cfg reg st
        @ map (\<lambda>(w, chan, c). st\<lparr>statsWorker := w, errorChan := chan, crashed := c\<rparr>)
            (workerSteps ''statistics'' statsResult (statsWorker st) (errorChan st))
        @ map (\<lambda>(w, chan, c). st\<lparr>monitorWorker := w, errorChan := chan, crashed := c\<rparr>)
            (workerSteps ''monitoring'' monitorResult (monitorWorker st) (errorChan st)))"

inductive reachable ::
  "env \<Rightarrow> config \<Rightarrow> registry \<Rightarrow> dataset outcome \<Rightarrow> dataset outcome \<Rightarrow> request \<Rightarrow> bool"
  for env cfg reg statsResult monitorResult where
  start: "reachable env cfg reg statsResult monitorResult request0"
| step: "reachable env cfg reg statsResult monitorResult st \<Longrightarrow>
         st' \<in> set (requestSteps env cfg reg statsResult monitorResult st) \<Longrightarrow>
         reachable env cfg reg statsResult monitorResult st'"

text \<open>
  The states one request passes through, in order, for given results of the two
  aggregations: first the handler alone, then the statistics worker and the \<open>select\<close>
  that waits for it, then the same for monitoring, then the test and the response.
\<close>

definition checkStates :: "env \<Rightarrow> registry \<Rightarrow> worker \<Rightarrow> worker \<Rightarrow> dataset \<Rightarrow> request list" where
  "checkStates env reg sw mw cd =
     [\<lparr>handlerAt = AtCheck, statsWorker = sw, monitorWorker = mw, errorChan = [],
       combined = cd, crashed = False\<rparr>,
      \<lparr>handlerAt = Finished (respond env cd reg), statsWorker = sw, monitorWorker = mw,
       errorChan = [], combined = cd, crashed = False\<rparr>]"

definition monitoringStates ::
  "env \<Rightarrow> config \<Rightarrow> registry \<Rightarrow> dataset outcome \<Rightarrow> worker \<Rightarrow> dataset \<Rightarrow> request list" where
  "monitoringStates env cfg reg monitorResult sw cd =
     \<lparr>handlerAt = AtMonitoring, statsWorker = sw, monitorWorker = Unstarted, errorChan = [],
      combined = cd, crashed = False\<rparr>
     # (if monitoringConfigured cfg then
          \<lparr>handlerAt = SelectMonitoring, statsWorker = sw, monitorWorker = Running,
           errorChan = [], combined = cd, crashed = False\<rparr>
          # (case monitorResult of
               Ok md \<Rightarrow>
                 \<lparr>handlerAt = SelectMonitoring, statsWorker = sw, monitorWorker = Sending md,
                  errorChan = [], combined = cd, crashed = False\<rparr>
                 # checkStates env reg sw Exited (mergeInto cd md)
             | Err err \<Rightarrow>
                 [\<lparr>handlerAt = SelectMonitoring, statsWorker = sw, monitorWorker = Exited,
                   errorChan = [''failed to fetch monitoring data: '' @ err], combined = cd,
                   crashed = False\<rparr>,
                  \<lparr>handlerAt = Finished
                     (httpError (''failed to fetch monitoring data: '' @ err) 500 reg),
                   statsWorker = sw, monitorWorker = Exited, errorChan = [], combined = cd,
                   crashed = False\<rparr>]
             | Panic \<Rightarrow>
                 [\<lparr>handlerAt = SelectMonitoring, statsWorker = sw, monitorWorker = Running,
                   errorChan = [], combined = cd, crashed = True\<rparr>])
        else checkStates env reg sw Unstarted cd)"

definition schedule ::
  "env \<Rightarrow> config \<Rightarrow> registry \<Rightarrow> dataset outcome \<Rightarrow> dataset outcome \<Rightarrow> request list" where
  "schedule env cfg reg statsResult monitorResult =
     request0
     # (if statisticsConfigured cfg then
          \<lparr>handlerAt = SelectStatistics, statsWorker = Running, monitorWorker = Unstarted,
           errorChan = [], combined = [], crashed = False\<rparr>
          # (case statsResult of
               Ok sd \<Rightarrow>
                 \<lparr>handlerAt = SelectStatistics, statsWorker = Sending sd,
                  monitorWorker = Unstarted, errorChan = [], combined = [], crashed = False\<rparr>
                 # monitoringStates env cfg reg monitorResult Exited (mergeInto [] sd)
             | Err err \<Rightarrow>
                 [\<lparr>handlerAt = SelectStatistics, statsWorker = Exited, monitorWorker = Unstarted,
                   errorChan = [''failed to fetch statistics data: '' @ err], combined = [],
                   crashed = False\<rparr>,
                  \<lparr>handlerAt = Finished
                     (httpError (''failed to fetch statistics data: '' @ err) 500 reg),
                   statsWorker = Exited, monitorWorker = Unstarted, errorChan = [],
                   combined = [], crashed = False\<rparr>]
             | Panic \<Rightarrow>
                 [\<lparr>handlerAt = SelectStatistics, statsWorker = Running, monitorWorker = Unstarted,
                   errorChan = [], combined = [], crashed = True\<rparr>])
        else monitoringStates env cfg reg monitorResult Unstarted [])"

text \<open>\<open>follows f xs\<close>: each state of \<open>xs\<close> after the first is a step of the one before it.\<close>

fun follows :: "(request \<Rightarrow> request list) \<Rightarrow> request list \<Rightarrow> bool" where
  "follows f [] = True"
| "follows f [x] = True"
| "follows f (x # y # ys) = (y \<in> set (f x) \<and> follows f (y # ys))"

text \<open>
  The combined dataset of a scrape that reaches the test of \<open>len(combinedData)\<close>, and
  the gauge names \<open>registerMetricsFromJSON\<close> forms from a dataset.
\<close>

definition scrapeDataset :: "config \<Rightarrow> dataset outcome \<Rightarrow> dataset outcome \<Rightarrow> dataset" where
  "scrapeDataset cfg statsResult monitorResult =
     mergeInto
       (if statisticsConfigured cfg
        then (case statsResult of Ok sd \<Rightarrow> mergeInto [] sd | _ \<Rightarrow> []) else [])
       (if monitoringConfigured cfg
        then (case monitorResult of Ok md \<Rightarrow> md | _ \<Rightarrow> []) else [])"

definition gaugeNamesOf :: "dataset \<Rightarrow> string set" where
  "gaugeNamesOf d = set (concat (map (\<lambda>(c, ms). map (\<lambda>(m, v). c @ ''_'' @ m) ms) d))"

text \<open>
  \<open>exactly f xs\<close>: each state of \<open>xs\<close> has the next one as its only step, and the last
  one has no step.
\<close>

fun exactly :: "(request \<Rightarrow> request list) \<Rightarrow> request list \<Rightarrow> bool" where
  "exactly f [] = True"
| "exactly f [x] = (f x = [])"
| "exactly f (x # y # ys) = (f x = [y] \<and> exactly f (y # ys))"

text \<open>
  A monitoring payload is readable when each of its values holds a field; a category is
  readable when its fetch fails or yields a readable payload; the monitoring source is
  readable when it is not configured or all its categories are.
\<close>

definition readable :: "(string \<times> string) list \<Rightarrow> bool" where
  "readable p = list_all (\<lambda>(n, v). Fields v \<noteq> []) p"

definition readableCategory :: "env \<Rightarrow> string \<Rightarrow> string \<Rightarrow> string \<Rightarrow> bool" where
  "readableCategory env baseURL qp c =
     (case fetchJSONData env (fullURL baseURL c qp) ''monitoring'' of
        Inr (MonitorPayload p) \<Rightarrow> readable p
      | _ \<Rightarrow> True)"

definition monitoringReadable :: "env \<Rightarrow> config \<Rightarrow> bool" where
  "monitoringReadable env cfg \<longleftrightarrow>
     \<not> monitoringConfigured cfg
     \<or> list_all
          (readableCategory env
             (monitoringBaseURL (MonitoringServerAddr cfg) (MonitoringServerPort cfg))
             (queryParams cfg))
          (MetricsMonitoringCategories cfg)"

section \<open>Reading a dataset\<close>

text \<open>\<open>ms[m]\<close> and \<open>d[k][m]\<close> as Go reads them: a missing key gives the zero value.\<close>

definition valueOf :: "metrics \<Rightarrow> string \<Rightarrow> int64" where
  "valueOf ms m = (case map_of ms m of None \<Rightarrow> 0 | Some v \<Rightarrow> v)"

definition metricValue :: "dataset \<Rightarrow> string \<Rightarrow> string \<Rightarrow> int64" where
  "metricValue d k m = valueOf (lookupCategory k d) m"

text \<open>
  What the fetches of one source type contribute to the metric \<open>m\<close> under the qualified
  key \<open>k\<close>, in the order they are met. For statistics: every value of \<open>m\<close> in a nested
  category whose prefixed name is \<open>k\<close>. For monitoring: every value of \<open>m\<close>, converted, in
  the payload of a category named \<open>k\<close>.
\<close>

definition payloadContributions :: "string \<Rightarrow> dataset \<Rightarrow> string \<Rightarrow> string \<Rightarrow> int64 list" where
  "payloadContributions MetricsCategory p k m =
     concat (map (\<lambda>(category, ms).
        if MetricsCategory @ ''_'' @ category = k
        then map snd (filter (\<lambda>(n, v). n = m) ms) else []) p)"

definition statisticsContributions ::
  "env \<Rightarrow> string \<Rightarrow> string \<Rightarrow> string list \<Rightarrow> string \<Rightarrow> string \<Rightarrow> int64 list" where
  "statisticsContributions env baseURL qp cats k m =
     concat (map (\<lambda>c.
        case fetchJSONData env (fullURL baseURL c qp) ''statistics'' of
          Inr (StatsPayload p) \<Rightarrow> payloadContributions c p k m
        | _ \<Rightarrow> []) cats)"

fun readings :: "(float64 \<Rightarrow> int64) \<Rightarrow> string \<Rightarrow> (string \<times> string) list \<Rightarrow> int64 list" where
  "readings oor m [] = []"
| "readings oor m ((n, v) # rest) =
     (if n = m then
        (case Fields v of
           [] \<Rightarrow> []
         | tok # _ \<Rightarrow> (case ParseFloat tok of Inl _ \<Rightarrow> [] | Inr f \<Rightarrow> [intOfFloat oor f]))
      else [])
     @ readings oor m rest"

definition monitoringContributions ::
  "env \<Rightarrow> string \<Rightarrow> string \<Rightarrow> string list \<Rightarrow> string \<Rightarrow> string \<Rightarrow> int64 list" where
  "monitoringContributions env baseURL qp cats k m =
     concat (map (\<lambda>c.
        if c = k then
          (case fetchJSONData env (fullURL baseURL c qp) ''monitoring'' of
             Inr (MonitorPayload p) \<Rightarrow> readings (outOfRange env) m p
           | _ \<Rightarrow> [])
        else []) cats)"

definition baseURLFor :: "string \<Rightarrow> string \<Rightarrow> nat \<Rightarrow> string" where
  "baseURLFor dataType serverAddr serverPort =
     (if dataType = ''statistics'' then statisticsBaseURL serverAddr serverPort
      else monitoringBaseURL serverAddr serverPort)"

text \<open>Whether the fetch of a category succeeds.\<close>

definition fetched :: "env \<Rightarrow> string \<Rightarrow> string \<Rightarrow> string \<Rightarrow> string \<Rightarrow> bool" where
  "fetched env dataType baseURL qp c =
     (case fetchJSONData env (fullURL baseURL c qp) dataType of Inl _ \<Rightarrow> False | Inr _ \<Rightarrow> True)"

section \<open>Example upstreams\<close>

text \<open>
  An upstream that serves the listed URLs with status 200 and the listed body and
  refuses every other connection, with decoders that know the listed bodies.
\<close>

definition served :: "(string \<times> string) list \<Rightarrow> string \<Rightarrow> http_result" where
  "served pages url =
     (case map_of pages url of
        None \<Rightarrow> GetFailed ''connection refused''
      | Some b \<Rightarrow> Response 200 (Inr b))"

definition decoded :: "(string \<times> 'a) list \<Rightarrow> string \<Rightarrow> string + 'a" where
  "decoded table b =
     (case map_of table b of None \<Rightarrow> Inl ''invalid character'' | Some v \<Rightarrow> Inr v)"

definition exampleEnv ::
  "(string \<times> string) list \<Rightarrow> (string \<times> dataset) list \<Rightarrow> (string \<times> (string \<times> string) list) list \<Rightarrow> env" where
  "exampleEnv pages stats monitors =
     \<lparr>httpGet = served pages, unmarshalStatistics = decoded stats,
      unmarshalMonitoring = decoded monitors,
      outOfRange = (\<lambda>_. 0x8000000000000000), validName = (\<lambda>_. True)\<rparr>"

definition statsOnly :: "string list \<Rightarrow> config" where
  "statsOnly cats =
     \<lparr>MetricsStatisticsCategories = cats, MetricsMonitoringCategories = [],
      queryParams = ''op'', StatisticServerAddr = ''stats'', StatisticServerPort = 8080,
      MonitoringServerAddr = '''', MonitoringServerPort = 0\<rparr>"

definition monitoringOnly :: "string list \<Rightarrow> config" where
  "monitoringOnly cats =
     \<lparr>MetricsStatisticsCategories = [], MetricsMonitoringCategories = cats,
      queryParams = ''op'', StatisticServerAddr = '''', StatisticServerPort = 0,
      MonitoringServerAddr = ''mon'', MonitoringServerPort = 9090\<rparr>"

definition bothSources :: "string list \<Rightarrow> string list \<Rightarrow> config" where
  "bothSources scats mcats =
     \<lparr>MetricsStatisticsCategories = scats, MetricsMonitoringCategories = mcats,
      queryParams = ''op'', StatisticServerAddr = ''stats'', StatisticServerPort = 8080,
      MonitoringServerAddr = ''mon'', MonitoringServerPort = 9090\<rparr>"

definition statsPage :: "string \<Rightarrow> string" where
  "statsPage c = ''http://stats:8080/nnfcm-statistics/v2/stats/'' @ c @ ''?operatorIdentifier=op''"

definition monitorPage :: "string \<Rightarrow> string" where
  "monitorPage c = ''http://mon:9090/nnfcm-monitoring/v2/'' @ c @ ''?operatorIdentifier=op''"

text \<open>Bodies as the upstream sends them, and what they decode to.\<close>

definition quoted :: "string \<Rightarrow> string" where
  "quoted s = CHR 0x22 # s @ [CHR 0x22]"

definition statsBody :: "string \<Rightarrow> string \<Rightarrow> string \<Rightarrow> string" where
  "statsBody category metricName v = ''{'' @ quoted category @ '':{'' @ quoted metricName @ '':'' @ v @ ''}}''"

definition monitorBody2 :: "string \<Rightarrow> string \<Rightarrow> string \<Rightarrow> string \<Rightarrow> string" where
  "monitorBody2 n1 v1 n2 v2 =
     ''{'' @ quoted n1 @ '':'' @ quoted v1 @ '','' @ quoted n2 @ '':'' @ quoted v2 @ ''}''"

definition monitorBody1 :: "string \<Rightarrow> string \<Rightarrow> string" where
  "monitorBody1 n1 v1 = ''{'' @ quoted n1 @ '':'' @ quoted v1 @ ''}''"

text \<open>The characters of a plain token: ASCII, and not white space.\<close>

definition asciiNonSpace :: "char \<Rightarrow> bool" where
  "asciiNonSpace c \<longleftrightarrow>
     (of_char c :: nat) < 128
     \<and> \<not> ((9::nat) \<le> of_char c \<and> of_char c \<le> (13::nat)) \<and> of_char c \<noteq> (32::nat)"

section \<open>Evaluating the examples\<close>

lemmas example_defs =
  exampleEnv_def served_def decoded_def statsOnly_def monitoringOnly_def bothSources_def
  statsPage_def monitorPage_def quoted_def statsBody_def monitorBody1_def monitorBody2_def

lemmas handler_defs =
  MetricsHandler_def statisticsStage_def monitoringStage_def onStatistics_def onMonitoring_def
  statisticsConfigured_def monitoringConfigured_def statisticsResult_def monitoringResult_def
  respond_def httpError_def

lemmas aggregate_defs =
  fetchAndCombineJSONData_def statisticsBaseURL_def monitoringBaseURL_def fetchJSONData_def
  fullURL_def showNat.simps digitChar_def lookupCategory_def

lemmas register_defs =
  registerMetricsFromJSON_def registerCategory_def registerOne_def Register_def setExisting_def

section \<open>Value coercion\<close>

lemma spaceWidth_plain: "asciiNonSpace c \<Longrightarrow> spaceWidth (c # cs) = 0"
  by (simp add: spaceWidth_def asciiNonSpace_def)

lemma spaceWidth_blank: "spaceWidth (CHR '' '' # cs) = 1"
  by (simp add: spaceWidth_def)

lemma fieldsFrom_plain:
  "\<forall>c \<in> set tok. asciiNonSpace c \<Longrightarrow> cur @ tok \<noteq> [] \<Longrightarrow>
   fieldsFrom 0 cur (tok @ CHR '' '' # rest) = (cur @ tok) # fieldsFrom 0 [] rest"
proof (induction tok arbitrary: cur)
  case Nil
  then show ?case by (simp add: spaceWidth_blank)
next
  case (Cons c tok)
  have "fieldsFrom 0 (cur @ [c]) (tok @ CHR '' '' # rest) = ((cur @ [c]) @ tok) # fieldsFrom 0 [] rest"
    using Cons.prems by (intro Cons.IH) auto
  then show ?case using Cons.prems by (simp add: spaceWidth_plain)
qed

lemma Fields_plain:
  "tok \<noteq> [] \<Longrightarrow> \<forall>c \<in> set tok. asciiNonSpace c \<Longrightarrow>
   Fields (tok @ CHR '' '' # rest) = tok # Fields rest"
  using fieldsFrom_plain [of tok "[]" rest] by (simp add: Fields_def)

lemma Fields_empty: "Fields [] = []"
  by (simp add: Fields_def)

lemma Fields_120: "Fields ''120 bps'' = [''120'', ''bps'']"
  by code_simp

lemma Fields_3_9: "Fields ''3.9 Mbps'' = [''3.9'', ''Mbps'']"
  by code_simp

lemma ParseFloat_120: "ParseFloat ''120'' = Inr (Finite 120)"
  by code_simp

lemma ParseFloat_3_9: "ParseFloat ''3.9'' = Inr (Finite (8782019273372467 / 2251799813685248))"
  by code_simp

lemma ParseFloat_abc: "ParseFloat ''abc'' = Inl ErrSyntax"
  by code_simp

lemma intOfFloat_120: "intOfFloat oor (Finite 120) = 120"
  by (simp add: intOfFloat_def)

lemma intOfFloat_3_9: "intOfFloat oor (Finite (8782019273372467 / 2251799813685248)) = 3"
  by code_simp

lemma intOfFloat_Finite:
  "- (2 ^ 63) < q \<Longrightarrow> q < 2 ^ 63 \<Longrightarrow>
   intOfFloat oor (Finite q) = word_of_int (if 0 \<le> q then \<lfloor>q\<rfloor> else \<lceil>q\<rceil>)"
proof -
  assume lo: "- (2 ^ 63) < q" and hi: "q < 2 ^ 63"
  have "\<lfloor>q\<rfloor> < 2 ^ 63" using hi by (simp add: floor_less_iff)
  moreover have "- (2 ^ 63) \<le> \<lceil>q\<rceil>" using lo by (simp add: le_ceiling_iff)
  moreover have "0 \<le> q \<Longrightarrow> - (2 ^ 63) \<le> \<lfloor>q\<rfloor>"
  proof -
    assume "0 \<le> q"
    then have "0 \<le> \<lfloor>q\<rfloor>" by simp
    moreover have "- (2 ^ 63) \<le> (0::int)" by simp
    ultimately show ?thesis by (rule order_trans [rotated])
  qed
  moreover have "\<not> 0 \<le> q \<Longrightarrow> \<lceil>q\<rceil> < 2 ^ 63"
  proof -
    assume "\<not> 0 \<le> q"
    then have "\<lceil>q\<rceil> \<le> 0" by (simp add: ceiling_le_iff)
    moreover have "(0::int) < 2 ^ 63" by simp
    ultimately show ?thesis by (rule le_less_trans)
  qed
  ultimately show ?thesis by (simp add: intOfFloat_def Let_def)
qed

text \<open>
  C4. The value is split at white space and its first field is parsed as a 64-bit
  floating-point number, whose fraction is then cut off: \<open>120 bps\<close> gives 120 and
  \<open>3.9 Mbps\<close> gives 3. In general, for a value that starts with a plain token followed
  by a blank, the token is what is parsed, and a finite result within the range of
  \<open>int\<close> is truncated towards zero.
\<close>

theorem coercion_first_field_truncated:
  "addMonitoring oor [(m, ''120 bps'')] [] = Some [(m, 120)]
   \<and> addMonitoring oor [(m, ''3.9 Mbps'')] [] = Some [(m, 3)]
   \<and> (\<forall>tok rest q ms.
        tok \<noteq> [] \<and> (\<forall>c \<in> set tok. asciiNonSpace c) \<and> ParseFloat tok = Inr (Finite q)
        \<and> - (2 ^ 63) < q \<and> q < 2 ^ 63 \<longrightarrow>
        addMonitoring oor [(m, tok @ CHR '' '' # rest)] ms
          = Some (addMetric m (word_of_int (if 0 \<le> q then \<lfloor>q\<rfloor> else \<lceil>q\<rceil>)) ms))"
proof (intro conjI allI impI)
  show "addMonitoring oor [(m, ''120 bps'')] [] = Some [(m, 120)]"
    by (simp add: Fields_120 ParseFloat_120 intOfFloat_120)
  show "addMonitoring oor [(m, ''3.9 Mbps'')] [] = Some [(m, 3)]"
    by (simp add: Fields_3_9 ParseFloat_3_9 intOfFloat_3_9)
next
  fix tok rest :: string and q :: rat and ms :: metrics
  assume h: "tok \<noteq> [] \<and> (\<forall>c \<in> set tok. asciiNonSpace c) \<and> ParseFloat tok = Inr (Finite q)
        \<and> - (2 ^ 63) < q \<and> q < 2 ^ 63"
  then have "Fields (tok @ CHR '' '' # rest) = tok # Fields rest"
    by (simp add: Fields_plain)
  with h show "addMonitoring oor [(m, tok @ CHR '' '' # rest)] ms
          = Some (addMetric m (word_of_int (if 0 \<le> q then \<lfloor>q\<rfloor> else \<lceil>q\<rceil>)) ms)"
    by (simp add: intOfFloat_Finite del: word_of_int_eq_iff)
qed

lemma plain_3_9: "\<forall>c \<in> set ''-3.9''. asciiNonSpace c"
  by (simp add: asciiNonSpace_def)

lemma ParseFloat_minus_3_9:
  "ParseFloat ''-3.9'' = Inr (Finite (- (8782019273372467 / 2251799813685248)))"
  by code_simp

theorem coercion_first_field_truncated_witness:
  "addMonitoring (\<lambda>_. 0) [(''rate'', ''-3.9 dBm'')] [(''rate'', 10)] = Some [(''rate'', 7)]"
proof -
  have r: "- (2 ^ 63) < (- (8782019273372467 / 2251799813685248) :: rat)
           \<and> (- (8782019273372467 / 2251799813685248) :: rat) < 2 ^ 63"
    by simp
  have c: "\<lceil>- (8782019273372467 / 2251799813685248) :: rat\<rceil> = - 3"
    by (simp add: ceiling_unique)
  have "addMonitoring (\<lambda>_. 0) [(''rate'', ''-3.9'' @ CHR '' '' # ''dBm'')] [(''rate'', 10)]
          = Some (addMetric ''rate'' (word_of_int (if 0 \<le> (- (8782019273372467 / 2251799813685248) :: rat)
               then \<lfloor>- (8782019273372467 / 2251799813685248) :: rat\<rfloor>
               else \<lceil>- (8782019273372467 / 2251799813685248) :: rat\<rceil>)) [(''rate'', 10)])"
    using coercion_first_field_truncated [of "\<lambda>_. 0" "''rate''"] plain_3_9 ParseFloat_minus_3_9 r
    by blast
  then show ?thesis
    using c by simp
qed

section \<open>The aggregator's results\<close>

lemma fetchJSONData_statistics:
  "fetchJSONData env url ''statistics'' = Inr p \<Longrightarrow> \<exists>d. p = StatsPayload d"
  by (auto simp: fetchJSONData_def split: http_result.splits if_splits sum.splits)

lemma fetchJSONData_monitoring:
  "fetchJSONData env url ''monitoring'' = Inr p \<Longrightarrow> \<exists>d. p = MonitorPayload d"
  by (auto simp: fetchJSONData_def split: http_result.splits if_splits sum.splits)

lemma combineLoop_statistics_Ok:
  "\<exists>d. combineLoop env ''statistics'' b q acc cats = Ok d"
proof (induction cats arbitrary: acc)
  case Nil
  show ?case by simp
next
  case (Cons c cats)
  show ?case
  proof (cases "fetchJSONData env (fullURL b c q) ''statistics''")
    case (Inl e)
    then show ?thesis using Cons.IH by simp
  next
    case (Inr p)
    then obtain d where "p = StatsPayload d"
      using fetchJSONData_statistics by blast
    then show ?thesis using Inr Cons.IH by simp
  qed
qed

lemma combineLoop_monitoring_no_Err:
  "combineLoop env ''monitoring'' b q acc cats \<noteq> Err e"
proof (induction cats arbitrary: acc)
  case Nil
  show ?case by simp
next
  case (Cons c cats)
  show ?case
  proof (cases "fetchJSONData env (fullURL b c q) ''monitoring''")
    case (Inl e')
    then show ?thesis using Cons.IH by simp
  next
    case (Inr p)
    then obtain d where "p = MonitorPayload d"
      using fetchJSONData_monitoring by blast
    then show ?thesis using Inr Cons.IH by (simp add: Let_def split: option.splits)
  qed
qed

lemma statistics_never_Err:
  "fetchAndCombineJSONData env cats qp addr port ''statistics'' \<noteq> Err e"
  using combineLoop_statistics_Ok [of env "statisticsBaseURL addr port" qp "[]" cats]
  by (auto simp: fetchAndCombineJSONData_def)

lemma monitoring_never_Err:
  "fetchAndCombineJSONData env cats qp addr port ''monitoring'' \<noteq> Err e"
  by (simp add: fetchAndCombineJSONData_def combineLoop_monitoring_no_Err)

text \<open>
  C9. \<open>fetchAndCombineJSONData\<close> returns an error exactly when its source type is
  neither \<open>statistics\<close> nor \<open>monitoring\<close>. With a recognised type, no failure of a
  fetch, of the decoding or of the conversion of a value makes it return one. (On a
  monitoring value without a field it does not return at all: see the blank reading
  below.)
\<close>

theorem error_iff_unrecognised_type:
  "(\<exists>e. fetchAndCombineJSONData env cats qp addr port dataType = Err e)
   \<longleftrightarrow> (dataType \<noteq> ''statistics'' \<and> dataType \<noteq> ''monitoring'')"
proof
  assume "\<exists>e. fetchAndCombineJSONData env cats qp addr port dataType = Err e"
  then show "dataType \<noteq> ''statistics'' \<and> dataType \<noteq> ''monitoring''"
    using statistics_never_Err monitoring_never_Err by blast
next
  assume "dataType \<noteq> ''statistics'' \<and> dataType \<noteq> ''monitoring''"
  then show "\<exists>e. fetchAndCombineJSONData env cats qp addr port dataType = Err e"
    by (simp add: fetchAndCombineJSONData_def)
qed

theorem error_iff_unrecognised_type_witness:
  "fetchAndCombineJSONData (exampleEnv [] [] []) [''Q''] ''op'' ''stats'' 8080 ''metrics''
     = Err ''invalid data type: metrics''
   \<and> fetchAndCombineJSONData (exampleEnv [] [] []) [''Q''] ''op'' ''stats'' 8080 ''statistics''
     = Ok []"
proof -
  have "\<exists>e. fetchAndCombineJSONData (exampleEnv [] [] []) [''Q''] ''op'' ''stats'' 8080 ''metrics'' = Err e"
    using error_iff_unrecognised_type
      [of "exampleEnv [] [] []" "[''Q'']" "''op''" "''stats''" 8080 "''metrics''"]
    by simp
  then show ?thesis
    by (simp add: example_defs aggregate_defs)
qed

section \<open>A monitoring value without a field\<close>

lemma addMonitoring_blank:
  "(n, v) \<in> set p \<Longrightarrow> Fields v = [] \<Longrightarrow> addMonitoring oor p ms = None"
proof (induction p arbitrary: ms)
  case Nil
  then show ?case by simp
next
  case (Cons e p)
  obtain n' v' where e: "e = (n', v')" by (cases e)
  show ?case
  proof (cases "Fields v'")
    case Nil
    then show ?thesis by (simp add: e)
  next
    case (Cons tok toks)
    then have "(n, v) \<in> set p" using Cons.prems e by auto
    then have "\<And>ms. addMonitoring oor p ms = None" using Cons.IH Cons.prems by blast
    then show ?thesis by (simp add: e Cons split: sum.splits)
  qed
qed

text \<open>
  A reading that has a first field which does not parse is passed over, and the readings
  beside it are processed as if it were not there.
\<close>

lemma unparsable_reading_is_dropped:
  "Fields v = tok # toks \<Longrightarrow> ParseFloat tok = Inl e \<Longrightarrow>
   addMonitoring oor (p1 @ (n, v) # p2) ms = addMonitoring oor (p1 @ p2) ms"
  by (induction p1 arbitrary: ms) (auto split: list.splits sum.splits)

text \<open>
  C2, at the failing input. The monitoring payload of the category \<open>link\<close> holds the
  reading \<open>rate = 120 bps\<close> and the empty reading \<open>load\<close>. \<open>strings.Fields\<close> of the empty
  string is an empty slice, the index \<open>[0]\<close> panics in the goroutine of the monitoring
  branch, and the process ends without a response: the malformed reading is not
  dropped, and the scrape is not answered.
\<close>

theorem blank_reading_ends_the_scrape:
  "MetricsHandler
     (exampleEnv [(monitorPage ''link'', monitorBody2 ''rate'' ''120 bps'' ''load'' '''')] []
        [(monitorBody2 ''rate'' ''120 bps'' ''load'' '''', [(''rate'', ''120 bps''), (''load'', '''')])])
     (monitoringOnly [''link'']) reg
   = Crashed"
proof -
  have blank: "addMonitoring oor [(''rate'', ''120 bps''), (''load'', '''')] ms = None" for oor ms
    by (rule addMonitoring_blank [of "''load''" "''''"]) (simp_all add: Fields_empty)
  show ?thesis
    by (simp add: example_defs handler_defs aggregate_defs blank del: addMonitoring.simps)
qed

section \<open>The response\<close>

lemma respond_empty:
  "respond env [] reg
   = Responded 400 (Text (''No valid configuration provided for statistics or monitoring'' @ [CHR 0x0A])) reg"
  by (simp add: respond_def httpError_def)

text \<open>
  C6. When each source is either not configured (an empty category list, an empty
  address or a zero port) or yields an empty fragment, the scrape is answered with 400
  and the text \<open>No valid configuration provided for statistics or monitoring\<close>; it is not
  answered with 200.
\<close>

theorem no_data_is_bad_request:
  "(statisticsConfigured cfg \<longrightarrow> statisticsResult env cfg = Ok [])
   \<Longrightarrow> (monitoringConfigured cfg \<longrightarrow> monitoringResult env cfg = Ok [])
   \<Longrightarrow> MetricsHandler env cfg reg
       = Responded 400
           (Text (''No valid configuration provided for statistics or monitoring'' @ [CHR 0x0A])) reg"
  by (simp add: MetricsHandler_def statisticsStage_def monitoringStage_def onStatistics_def
      onMonitoring_def respond_empty)

theorem no_data_is_bad_request_witness:
  "MetricsHandler (exampleEnv [] [] []) (bothSources [] []) []
     = Responded 400
         (Text (''No valid configuration provided for statistics or monitoring'' @ [CHR 0x0A])) []
   \<and> MetricsHandler (exampleEnv [] [] []) (statsOnly [''Q'']) []
     = Responded 400
         (Text (''No valid configuration provided for statistics or monitoring'' @ [CHR 0x0A])) []"
proof -
  have a: "\<not> statisticsConfigured (bothSources [] [])" "\<not> monitoringConfigured (bothSources [] [])"
    by (simp_all add: statisticsConfigured_def monitoringConfigured_def bothSources_def)
  have b: "statisticsResult (exampleEnv [] [] []) (statsOnly [''Q'']) = Ok []"
    "\<not> monitoringConfigured (statsOnly [''Q''])"
    by (simp_all add: statisticsResult_def monitoringConfigured_def example_defs aggregate_defs)
  show ?thesis
    using no_data_is_bad_request [of "bothSources [] []" "exampleEnv [] [] []" "[]"]
      no_data_is_bad_request [of "statsOnly [''Q'']" "exampleEnv [] [] []" "[]"] a b
    by simp
qed

lemma respond_cases:
  "respond env d reg = Responded code b reg' \<Longrightarrow>
   (code = 400 \<and> reg' = reg \<and> d = [])
   \<or> (code = 200 \<and> d \<noteq> [] \<and> reg' = registerMetricsFromJSON (validName env) d []
       \<and> b = Exposition reg')"
  by (auto simp: respond_def httpError_def Let_def split: if_splits)

lemma monitoringStage_cases:
  "monitoringStage env cfg d reg mres = Responded code b reg' \<Longrightarrow>
   ((code = 400 \<or> code = 500) \<and> reg' = reg)
   \<or> (code = 200 \<and> b = Exposition reg'
       \<and> (\<exists>d'. d' \<noteq> [] \<and> reg' = registerMetricsFromJSON (validName env) d' []))"
  by (auto simp: monitoringStage_def onMonitoring_def httpError_def
      split: if_splits outcome.splits dest!: respond_cases)

lemma statisticsStage_cases:
  "statisticsStage env cfg reg sres mres = Responded code b reg' \<Longrightarrow>
   ((code = 400 \<or> code = 500) \<and> reg' = reg)
   \<or> (code = 200 \<and> b = Exposition reg'
       \<and> (\<exists>d'. d' \<noteq> [] \<and> reg' = registerMetricsFromJSON (validName env) d' []))"
  by (auto simp: statisticsStage_def onStatistics_def httpError_def
      split: if_splits outcome.splits dest!: monitoringStage_cases)

text \<open>
  C10. A response with a status other than 200 (it is then 400 or 500) leaves the
  registry as it was. The registry is replaced only on the way to a 200 response, by one
  built from an empty registry and a combined dataset that is not empty. This holds
  whatever the two aggregations come to, an error included.
\<close>

theorem error_response_keeps_registry:
  "statisticsStage env cfg reg statsResult monitorResult = Responded code b reg' \<Longrightarrow>
   (code \<noteq> 200 \<longrightarrow> reg' = reg \<and> (code = 400 \<or> code = 500))
   \<and> (reg' \<noteq> reg \<longrightarrow>
        code = 200 \<and> (\<exists>d. d \<noteq> [] \<and> reg' = registerMetricsFromJSON (validName env) d []))"
  using statisticsStage_cases [of env cfg reg statsResult monitorResult code b reg']
  by auto

theorem error_response_keeps_registry_witness:
  "statisticsStage (exampleEnv [] [] []) (statsOnly [''Q''])
     [\<lparr>gaugeName = ''Q_A_x'', gaugeHelp = ''Metric x from category Q_A'', gaugeValue = 4\<rparr>]
     (Err ''invalid data type: metrics'') (Ok [])
   = Responded 500 (Text (''failed to fetch statistics data: invalid data type: metrics'' @ [CHR 0x0A]))
       [\<lparr>gaugeName = ''Q_A_x'', gaugeHelp = ''Metric x from category Q_A'', gaugeValue = 4\<rparr>]"
proof -
  let ?reg = "[\<lparr>gaugeName = ''Q_A_x'', gaugeHelp = ''Metric x from category Q_A'', gaugeValue = 4\<rparr>]"
  have "\<exists>reg'. statisticsStage (exampleEnv [] [] []) (statsOnly [''Q'']) ?reg
          (Err ''invalid data type: metrics'') (Ok [])
        = Responded 500 (Text (''failed to fetch statistics data: invalid data type: metrics'' @ [CHR 0x0A])) reg'"
    by (simp add: statisticsStage_def onStatistics_def statisticsConfigured_def statsOnly_def httpError_def)
  then obtain reg' where r: "statisticsStage (exampleEnv [] [] []) (statsOnly [''Q'']) ?reg
          (Err ''invalid data type: metrics'') (Ok [])
        = Responded 500 (Text (''failed to fetch statistics data: invalid data type: metrics'' @ [CHR 0x0A])) reg'"
    by blast
  have "reg' = ?reg"
    using error_response_keeps_registry [OF r] by simp
  then show ?thesis using r by simp
qed

lemma registerOne_names:
  "gaugeName ` set (registerOne valid c reg (m, v)) \<subseteq> gaugeName ` set reg \<union> {c @ ''_'' @ m}"
  by (auto simp: registerOne_def Register_def setExisting_def Let_def
      split: sum.splits register_error.splits option.splits if_splits)

lemma registerCategory_names:
  "gaugeName ` set (foldl (registerOne valid c) reg ms)
   \<subseteq> gaugeName ` set reg \<union> set (map (\<lambda>(m, v). c @ ''_'' @ m) ms)"
proof (induction ms arbitrary: reg)
  case Nil
  show ?case by simp
next
  case (Cons e ms)
  obtain m v where e: "e = (m, v)" by (cases e)
  have "gaugeName ` set (foldl (registerOne valid c) (registerOne valid c reg (m, v)) ms)
        \<subseteq> gaugeName ` set (registerOne valid c reg (m, v)) \<union> set (map (\<lambda>(m, v). c @ ''_'' @ m) ms)"
    by (rule Cons.IH)
  then show ?case
    using registerOne_names [of valid c reg m v] by (auto simp: e)
qed

lemma registerMetricsFromJSON_names:
  "gaugeName ` set (registerMetricsFromJSON valid d reg) \<subseteq> gaugeName ` set reg \<union> gaugeNamesOf d"
proof (induction d arbitrary: reg)
  case Nil
  show ?case by (simp add: registerMetricsFromJSON_def)
next
  case (Cons e d)
  obtain c ms where e: "e = (c, ms)" by (cases e)
  let ?reg = "foldl (registerOne valid c) reg ms"
  have 1: "gaugeName ` set (registerMetricsFromJSON valid d ?reg)
             \<subseteq> gaugeName ` set ?reg \<union> gaugeNamesOf d"
    by (rule Cons.IH)
  have 2: "gaugeName ` set ?reg \<subseteq> gaugeName ` set reg \<union> set (map (\<lambda>(m, v). c @ ''_'' @ m) ms)"
    by (rule registerCategory_names)
  have 3: "registerMetricsFromJSON valid (e # d) reg = registerMetricsFromJSON valid d ?reg"
    by (simp add: registerMetricsFromJSON_def registerCategory_def e)
  have 4: "gaugeNamesOf (e # d) = set (map (\<lambda>(m, v). c @ ''_'' @ m) ms) \<union> gaugeNamesOf d"
    by (simp add: gaugeNamesOf_def e)
  from 1 2 have "gaugeName ` set (registerMetricsFromJSON valid d ?reg)
      \<subseteq> gaugeName ` set reg \<union> (set (map (\<lambda>(m, v). c @ ''_'' @ m) ms) \<union> gaugeNamesOf d)"
    by blast
  then show ?case unfolding 3 4 .
qed

lemma statisticsStage_200:
  "statisticsStage env cfg reg sres mres = Responded 200 b after \<Longrightarrow>
   after = registerMetricsFromJSON (validName env) (scrapeDataset cfg sres mres) []
   \<and> b = Exposition after \<and> scrapeDataset cfg sres mres \<noteq> []"
  by (auto simp: statisticsStage_def onStatistics_def monitoringStage_def onMonitoring_def
      respond_def httpError_def scrapeDataset_def Let_def
      split: if_splits outcome.splits)

text \<open>
  C7. An exposition is rendered from a registry that the same request has built from
  an empty one and from its own combined dataset: the 200 response of a scrape, and the
  registry it leaves, are the same whatever registry the scrapes before it have left, and
  every gauge in it is named after a category and a metric of that dataset. So of two
  scrapes in a row, where the first exposes \<open>Q_A_x = 4\<close> and the upstream then reports
  only \<open>B\<close> with \<open>y = 1\<close>, the second exposes \<open>Q_B_y = 1\<close> and nothing else.
\<close>

theorem exposition_built_from_empty_registry:
  "MetricsHandler env cfg before = Responded 200 b after \<Longrightarrow>
   b = Exposition after
   \<and> MetricsHandler env cfg [] = Responded 200 b after
   \<and> after = registerMetricsFromJSON (validName env)
               (scrapeDataset cfg (statisticsResult env cfg) (monitoringResult env cfg)) []
   \<and> gaugeName ` set after
       \<subseteq> gaugeNamesOf (scrapeDataset cfg (statisticsResult env cfg) (monitoringResult env cfg))"
proof -
  assume h: "MetricsHandler env cfg before = Responded 200 b after"
  let ?d = "scrapeDataset cfg (statisticsResult env cfg) (monitoringResult env cfg)"
  have a: "after = registerMetricsFromJSON (validName env) ?d []" and b: "b = Exposition after"
    using statisticsStage_200 [of env cfg before "statisticsResult env cfg" "monitoringResult env cfg" b after] h
    by (simp_all add: MetricsHandler_def)
  have "MetricsHandler env cfg [] = Responded 200 b after"
    using h by (auto simp: handler_defs Let_def split: if_splits outcome.splits)
  moreover have "gaugeName ` set after \<subseteq> gaugeNamesOf ?d"
    using registerMetricsFromJSON_names [of "validName env" ?d "[]"] a by simp
  ultimately show ?thesis using a b by simp
qed

theorem exposition_built_from_empty_registry_witness:
  "MetricsHandler
     (exampleEnv [(statsPage ''Q'', statsBody ''A'' ''x'' ''4'')]
        [(statsBody ''A'' ''x'' ''4'', [(''A'', [(''x'', 4)])])] [])
     (statsOnly [''Q'']) []
   = Responded 200
       (Exposition [\<lparr>gaugeName = ''Q_A_x'', gaugeHelp = ''Metric x from category Q_A'', gaugeValue = 4\<rparr>])
       [\<lparr>gaugeName = ''Q_A_x'', gaugeHelp = ''Metric x from category Q_A'', gaugeValue = 4\<rparr>]
   \<and> MetricsHandler
     (exampleEnv [(statsPage ''Q'', statsBody ''B'' ''y'' ''1'')]
        [(statsBody ''B'' ''y'' ''1'', [(''B'', [(''y'', 1)])])] [])
     (statsOnly [''Q''])
     [\<lparr>gaugeName = ''Q_A_x'', gaugeHelp = ''Metric x from category Q_A'', gaugeValue = 4\<rparr>]
   = Responded 200
       (Exposition [\<lparr>gaugeName = ''Q_B_y'', gaugeHelp = ''Metric y from category Q_B'', gaugeValue = 1\<rparr>])
       [\<lparr>gaugeName = ''Q_B_y'', gaugeHelp = ''Metric y from category Q_B'', gaugeValue = 1\<rparr>]
   \<and> MetricsHandler
     (exampleEnv [(statsPage ''Q'', statsBody ''B'' ''y'' ''1'')]
        [(statsBody ''B'' ''y'' ''1'', [(''B'', [(''y'', 1)])])] [])
     (statsOnly [''Q'']) []
   = Responded 200
       (Exposition [\<lparr>gaugeName = ''Q_B_y'', gaugeHelp = ''Metric y from category Q_B'', gaugeValue = 1\<rparr>])
       [\<lparr>gaugeName = ''Q_B_y'', gaugeHelp = ''Metric y from category Q_B'', gaugeValue = 1\<rparr>]"
proof -
  let ?first = "exampleEnv [(statsPage ''Q'', statsBody ''A'' ''x'' ''4'')]
        [(statsBody ''A'' ''x'' ''4'', [(''A'', [(''x'', 4)])])] []"
  let ?second = "exampleEnv [(statsPage ''Q'', statsBody ''B'' ''y'' ''1'')]
        [(statsBody ''B'' ''y'' ''1'', [(''B'', [(''y'', 1)])])] []"
  let ?gA = "\<lparr>gaugeName = ''Q_A_x'', gaugeHelp = ''Metric x from category Q_A'', gaugeValue = 4\<rparr>"
  let ?gB = "\<lparr>gaugeName = ''Q_B_y'', gaugeHelp = ''Metric y from category Q_B'', gaugeValue = 1\<rparr>"
  have one: "MetricsHandler ?first (statsOnly [''Q'']) [] = Responded 200 (Exposition [?gA]) [?gA]"
    by (simp add: example_defs handler_defs aggregate_defs register_defs Let_def)
  have two: "MetricsHandler ?second (statsOnly [''Q'']) [?gA] = Responded 200 (Exposition [?gB]) [?gB]"
    by (simp add: example_defs handler_defs aggregate_defs register_defs Let_def)
  have "MetricsHandler ?second (statsOnly [''Q'']) [] = Responded 200 (Exposition [?gB]) [?gB]"
    using exposition_built_from_empty_registry [OF two] by simp
  with one two show ?thesis by simp
qed

section \<open>Reading what the loops have built\<close>

lemma valueOf_addMetric:
  "valueOf (addMetric n v ms) m = valueOf ms m + (if m = n then v else 0)"
  by (induction ms) (auto simp: valueOf_def)

lemma valueOf_addMetrics:
  "valueOf (addMetrics es ms) m = valueOf ms m + sum_list (map snd (filter (\<lambda>(n, v). n = m) es))"
  by (induction es arbitrary: ms) (auto simp: valueOf_addMetric add.assoc)

lemma lookupCategory_ensure:
  "lookupCategory k' (ensureCategory k d) = lookupCategory k' d"
  by (induction d) (auto simp: lookupCategory_def)

lemma map_of_ensure_present: "map_of (ensureCategory k d) k \<noteq> None"
  by (induction d) auto

lemma lookupCategory_update:
  "map_of d k \<noteq> None \<Longrightarrow>
   lookupCategory k' (updateCategory k f d) = (if k' = k then f (lookupCategory k d) else lookupCategory k' d)"
  by (induction d) (auto simp: lookupCategory_def)

lemma lookupCategory_update_ensure:
  "lookupCategory k' (updateCategory k f (ensureCategory k d))
   = (if k' = k then f (lookupCategory k d) else lookupCategory k' d)"
  by (simp add: lookupCategory_update map_of_ensure_present lookupCategory_ensure)

lemma metricValue_addStatistics:
  "metricValue (addStatistics c p d) k m = metricValue d k m + sum_list (payloadContributions c p k m)"
proof (induction p arbitrary: d)
  case Nil
  show ?case by (simp add: payloadContributions_def)
next
  case (Cons e p)
  obtain category ms where e: "e = (category, ms)" by (cases e)
  have step: "metricValue (updateCategory (c @ ''_'' @ category) (addMetrics ms)
                 (ensureCategory (c @ ''_'' @ category) d)) k m
        = metricValue d k m
          + (if c @ ''_'' @ category = k then sum_list (map snd (filter (\<lambda>(n, v). n = m) ms)) else 0)"
    by (simp add: metricValue_def lookupCategory_update_ensure valueOf_addMetrics)
  have split: "payloadContributions c (e # p) k m
        = (if c @ ''_'' @ category = k then map snd (filter (\<lambda>(n, v). n = m) ms) else [])
          @ payloadContributions c p k m"
    by (simp add: payloadContributions_def e)
  show ?case
    unfolding split using Cons.IH step by (simp add: e Let_def add.assoc)
qed

lemma combineLoop_statistics_value:
  "combineLoop env ''statistics'' b q acc cats = Ok d \<Longrightarrow>
   metricValue d k m = metricValue acc k m + sum_list (statisticsContributions env b q cats k m)"
proof (induction cats arbitrary: acc)
  case Nil
  then show ?case by (simp add: statisticsContributions_def)
next
  case (Cons c cats)
  show ?case
  proof (cases "fetchJSONData env (fullURL b c q) ''statistics''")
    case (Inl e)
    then show ?thesis using Cons by (simp add: statisticsContributions_def)
  next
    case (Inr p)
    then obtain sd where p: "p = StatsPayload sd"
      using fetchJSONData_statistics by blast
    have "combineLoop env ''statistics'' b q (addStatistics c sd acc) cats = Ok d"
      using Cons.prems Inr p by simp
    then have "metricValue d k m = metricValue (addStatistics c sd acc) k m
                 + sum_list (statisticsContributions env b q cats k m)"
      by (rule Cons.IH)
    then show ?thesis
      using Inr p by (simp add: metricValue_addStatistics statisticsContributions_def add.assoc)
  qed
qed

lemma valueOf_addMonitoring:
  "addMonitoring oor p ms = Some ms' \<Longrightarrow>
   valueOf ms' m = valueOf ms m + sum_list (readings oor m p)"
proof (induction p arbitrary: ms)
  case Nil
  then show ?case by simp
next
  case (Cons e p)
  obtain n v where e: "e = (n, v)" by (cases e)
  show ?case
  proof (cases "Fields v")
    case Nil
    then show ?thesis using Cons.prems e by simp
  next
    case (Cons tok toks)
    note fields = this
    show ?thesis
    proof (cases "ParseFloat tok")
      case (Inl err)
      then show ?thesis using Cons.prems Cons.IH e fields by simp
    next
      case (Inr f)
      then have "addMonitoring oor p (addMetric n (intOfFloat oor f) ms) = Some ms'"
        using Cons.prems e fields by simp
      then have "valueOf ms' m = valueOf (addMetric n (intOfFloat oor f) ms) m
                   + sum_list (readings oor m p)"
        by (rule Cons.IH)
      then show ?thesis using Inr e fields by (simp add: valueOf_addMetric add.assoc)
    qed
  qed
qed

lemma combineLoop_monitoring_value:
  "combineLoop env ''monitoring'' b q acc cats = Ok d \<Longrightarrow>
   metricValue d k m = metricValue acc k m + sum_list (monitoringContributions env b q cats k m)"
proof (induction cats arbitrary: acc)
  case Nil
  then show ?case by (simp add: monitoringContributions_def)
next
  case (Cons c cats)
  show ?case
  proof (cases "fetchJSONData env (fullURL b c q) ''monitoring''")
    case (Inl e)
    then show ?thesis using Cons by (auto simp: monitoringContributions_def)
  next
    case (Inr p)
    then obtain md where p: "p = MonitorPayload md"
      using fetchJSONData_monitoring by blast
    let ?cd = "ensureCategory c acc"
    obtain ms where ms: "addMonitoring (outOfRange env) md (lookupCategory c ?cd) = Some ms"
      and rest: "combineLoop env ''monitoring'' b q (updateCategory c (\<lambda>_. ms) ?cd) cats = Ok d"
      using Cons.prems Inr p by (auto simp: Let_def split: option.splits)
    have "metricValue d k m = metricValue (updateCategory c (\<lambda>_. ms) ?cd) k m
                 + sum_list (monitoringContributions env b q cats k m)"
      using rest by (rule Cons.IH)
    moreover have "metricValue (updateCategory c (\<lambda>_. ms) ?cd) k m
        = metricValue acc k m + (if c = k then sum_list (readings (outOfRange env) m md) else 0)"
      using valueOf_addMonitoring [OF ms, of m]
      by (auto simp: metricValue_def lookupCategory_update_ensure lookupCategory_ensure)
    ultimately show ?thesis
      using Inr p by (auto simp: monitoringContributions_def add.assoc)
  qed
qed

lemma metricValue_empty: "metricValue [] k m = 0"
  by (simp add: metricValue_def lookupCategory_def valueOf_def)

subsection \<open>The keys of a dataset stay distinct\<close>

lemma keys_ensureCategory:
  "map fst (ensureCategory k d) = (if k \<in> set (map fst d) then map fst d else map fst d @ [k])"
  by (induction d) (fastforce split: if_splits)+

lemma keys_updateCategory: "map fst (updateCategory k f d) = map fst d"
  by (induction d) auto

lemma keys_setCategory:
  "map fst (setCategory k ms d) = (if k \<in> set (map fst d) then map fst d else map fst d @ [k])"
  by (induction d) (fastforce split: if_splits)+

lemma distinct_addStatistics:
  "distinct (map fst d) \<Longrightarrow> distinct (map fst (addStatistics c p d))"
  by (induction p arbitrary: d) (auto simp: Let_def keys_updateCategory keys_ensureCategory)

lemma ensureCategory_nonempty: "ensureCategory k d \<noteq> []"
  by (induction d) (auto split: if_splits)

lemma updateCategory_nonempty: "d \<noteq> [] \<Longrightarrow> updateCategory k f d \<noteq> []"
  by (induction d) (auto split: if_splits)

lemma setCategory_nonempty: "setCategory k ms d \<noteq> []"
  by (induction d) (auto split: if_splits)

lemma addStatistics_keeps_nonempty: "d \<noteq> [] \<Longrightarrow> addStatistics c p d \<noteq> []"
proof (induction p arbitrary: d)
  case Nil
  then show ?case by simp
next
  case (Cons e p)
  obtain category ms where e: "e = (category, ms)" by (cases e)
  have "updateCategory (c @ ''_'' @ category) (addMetrics ms)
          (ensureCategory (c @ ''_'' @ category) d) \<noteq> []"
    by (rule updateCategory_nonempty) (rule ensureCategory_nonempty)
  then have "addStatistics c p (updateCategory (c @ ''_'' @ category) (addMetrics ms)
          (ensureCategory (c @ ''_'' @ category) d)) \<noteq> []"
    by (rule Cons.IH)
  then show ?case by (simp add: e Let_def)
qed

lemma addStatistics_nonempty: "p \<noteq> [] \<Longrightarrow> addStatistics c p d \<noteq> []"
proof (cases p)
  case Nil
  then show ?thesis if "p \<noteq> []" using that by simp
next
  case (Cons e p')
  obtain category ms where e: "e = (category, ms)" by (cases e)
  have "updateCategory (c @ ''_'' @ category) (addMetrics ms)
          (ensureCategory (c @ ''_'' @ category) d) \<noteq> []"
    by (rule updateCategory_nonempty) (rule ensureCategory_nonempty)
  then have "addStatistics c p' (updateCategory (c @ ''_'' @ category) (addMetrics ms)
          (ensureCategory (c @ ''_'' @ category) d)) \<noteq> []"
    by (rule addStatistics_keeps_nonempty)
  then show ?thesis by (simp add: Cons e Let_def)
qed

lemma combineLoop_step:
  "combineLoop env dataType b q acc (c # cats) = Ok d \<Longrightarrow>
   \<exists>acc'. combineLoop env dataType b q acc' cats = Ok d
     \<and> (acc \<noteq> [] \<longrightarrow> acc' \<noteq> [])
     \<and> (distinct (map fst acc) \<longrightarrow> distinct (map fst acc'))"
proof (cases "fetchJSONData env (fullURL b c q) dataType")
  case (Inl e)
  then show ?thesis if "combineLoop env dataType b q acc (c # cats) = Ok d"
    using that by auto
next
  case (Inr p)
  assume run: "combineLoop env dataType b q acc (c # cats) = Ok d"
  show ?thesis
  proof (cases p)
    case (StatsPayload sd)
    then have "combineLoop env dataType b q (addStatistics c sd acc) cats = Ok d"
      using run Inr by (simp split: if_splits)
    then show ?thesis
      using addStatistics_keeps_nonempty distinct_addStatistics by blast
  next
    case (MonitorPayload md)
    then obtain ms where
      "combineLoop env dataType b q (updateCategory c (\<lambda>_. ms) (ensureCategory c acc)) cats = Ok d"
      using run Inr by (auto simp: Let_def split: if_splits option.splits)
    moreover have "updateCategory c (\<lambda>_. ms) (ensureCategory c acc) \<noteq> []"
      by (simp add: updateCategory_nonempty ensureCategory_nonempty)
    moreover have "distinct (map fst acc) \<longrightarrow>
        distinct (map fst (updateCategory c (\<lambda>_. ms) (ensureCategory c acc)))"
      by (simp add: keys_updateCategory keys_ensureCategory)
    ultimately show ?thesis by blast
  qed
qed

lemma distinct_combineLoop:
  "combineLoop env dataType b q acc cats = Ok d \<Longrightarrow> distinct (map fst acc) \<Longrightarrow>
   distinct (map fst d)"
proof (induction cats arbitrary: acc)
  case Nil
  then show ?case by simp
next
  case (Cons c cats)
  then show ?case using combineLoop_step [OF Cons.prems(1)] by blast
qed

lemma combineLoop_keeps_nonempty:
  "combineLoop env dataType b q acc cats = Ok d \<Longrightarrow> acc \<noteq> [] \<Longrightarrow> d \<noteq> []"
proof (induction cats arbitrary: acc)
  case Nil
  then show ?case by simp
next
  case (Cons c cats)
  then show ?case using combineLoop_step [OF Cons.prems(1)] by blast
qed

lemma distinct_fetchAndCombine:
  "fetchAndCombineJSONData env cats qp addr port dataType = Ok d \<Longrightarrow> distinct (map fst d)"
  by (auto simp: fetchAndCombineJSONData_def split: if_splits dest: distinct_combineLoop)

lemma map_of_setCategory: "map_of (setCategory k ms d) = (map_of d)(k \<mapsto> ms)"
  by (induction d) auto

lemma map_of_mergeInto:
  "distinct (map fst d2) \<Longrightarrow>
   map_of (mergeInto d1 d2) k = (case map_of d2 k of None \<Rightarrow> map_of d1 k | Some ms \<Rightarrow> Some ms)"
proof (induction d2 arbitrary: d1)
  case Nil
  show ?case by simp
next
  case (Cons e d2)
  obtain c ms where e: "e = (c, ms)" by (cases e)
  have notin: "map_of d2 c = None"
    using Cons.prems e by (simp add: map_of_eq_None_iff)
  have "map_of (mergeInto (setCategory c ms d1) d2) k
          = (case map_of d2 k of None \<Rightarrow> map_of (setCategory c ms d1) k | Some ms \<Rightarrow> Some ms)"
    using Cons.prems by (intro Cons.IH) simp
  then show ?case
    using notin by (auto simp: e map_of_setCategory split: option.splits)
qed

lemma metricValue_mergeInto:
  "metricValue (mergeInto d1 d2) k m
   = (if k \<in> fst ` set d2 then metricValue d2 k m else metricValue d1 k m)"
  if "distinct (map fst d2)"
proof (cases "map_of d2 k")
  case None
  then have "k \<notin> fst ` set d2" by (simp add: map_of_eq_None_iff)
  then show ?thesis
    using None that by (simp add: metricValue_def lookupCategory_def map_of_mergeInto)
next
  case (Some ms)
  then have "k \<in> fst ` set d2" by (metis map_of_eq_None_iff option.distinct(1))
  then show ?thesis
    using Some that by (simp add: metricValue_def lookupCategory_def map_of_mergeInto)
qed

subsection \<open>A category whose fetch fails\<close>

lemma combineLoop_skips_failed:
  "combineLoop env dataType b q acc cats
   = combineLoop env dataType b q acc (filter (fetched env dataType b q) cats)"
proof (induction cats arbitrary: acc)
  case Nil
  show ?case by simp
next
  case (Cons c cats)
  show ?case
  proof (cases "fetchJSONData env (fullURL b c q) dataType")
    case (Inl e)
    then show ?thesis using Cons.IH [symmetric] by (simp add: fetched_def)
  next
    case (Inr p)
    then have "fetched env dataType b q c" by (simp add: fetched_def)
    then show ?thesis
      using Inr Cons.IH [symmetric] by (auto simp: Let_def split: payload.splits option.splits)
  qed
qed

lemma mergeInto_keeps_nonempty: "d1 \<noteq> [] \<Longrightarrow> mergeInto d1 d2 \<noteq> []"
proof (induction d2 arbitrary: d1)
  case Nil
  then show ?case by simp
next
  case (Cons e d2)
  obtain c ms where e: "e = (c, ms)" by (cases e)
  have "mergeInto (setCategory c ms d1) d2 \<noteq> []"
    by (rule Cons.IH) (rule setCategory_nonempty)
  then show ?case by (simp add: e)
qed

lemma mergeInto_nonempty: "d2 \<noteq> [] \<Longrightarrow> mergeInto d1 d2 \<noteq> []"
proof (cases d2)
  case Nil
  then show ?thesis if "d2 \<noteq> []" using that by simp
next
  case (Cons e d2')
  obtain c ms where e: "e = (c, ms)" by (cases e)
  have "mergeInto (setCategory c ms d1) d2' \<noteq> []"
    by (rule mergeInto_keeps_nonempty) (rule setCategory_nonempty)
  then show ?thesis by (simp add: Cons e)
qed

lemma combineLoop_statistics_nonempty:
  "combineLoop env ''statistics'' b q acc cats = Ok d \<Longrightarrow> c \<in> set cats \<Longrightarrow>
   fetchJSONData env (fullURL b c q) ''statistics'' = Inr (StatsPayload p) \<Longrightarrow> p \<noteq> [] \<Longrightarrow>
   d \<noteq> []"
proof (induction cats arbitrary: acc)
  case Nil
  then show ?case by simp
next
  case (Cons c' cats)
  show ?case
  proof (cases "c' = c")
    case True
    then have "combineLoop env ''statistics'' b q (addStatistics c p acc) cats = Ok d"
      using Cons.prems by simp
    then show ?thesis
      using Cons.prems(4) by (rule combineLoop_keeps_nonempty [OF _ addStatistics_nonempty])
  next
    case False
    then have mem: "c \<in> set cats" using Cons.prems by simp
    show ?thesis
    proof (cases "fetchJSONData env (fullURL b c' q) ''statistics''")
      case (Inl e)
      then show ?thesis using Cons.prems mem Cons.IH by simp
    next
      case (Inr p')
      then obtain sd where "p' = StatsPayload sd"
        using fetchJSONData_statistics by blast
      then show ?thesis using Inr Cons.prems mem Cons.IH by simp
    qed
  qed
qed

lemma combineLoop_monitoring_nonempty:
  "combineLoop env ''monitoring'' b q acc cats = Ok d \<Longrightarrow> c \<in> set cats \<Longrightarrow>
   fetched env ''monitoring'' b q c \<Longrightarrow> d \<noteq> []"
proof (induction cats arbitrary: acc)
  case Nil
  then show ?case by simp
next
  case (Cons c' cats)
  show ?case
  proof (cases "fetchJSONData env (fullURL b c' q) ''monitoring''")
    case (Inl e)
    then have "c' \<noteq> c" using Cons.prems(3) by (auto simp: fetched_def)
    then show ?thesis using Inl Cons.prems Cons.IH by simp
  next
    case (Inr p')
    then obtain md where p': "p' = MonitorPayload md"
      using fetchJSONData_monitoring by blast
    obtain ms where "combineLoop env ''monitoring'' b q
        (updateCategory c' (\<lambda>_. ms) (ensureCategory c' acc)) cats = Ok d"
      using Cons.prems(1) Inr p' by (auto simp: Let_def split: option.splits)
    then show ?thesis
      by (rule combineLoop_keeps_nonempty)
        (simp add: updateCategory_nonempty ensureCategory_nonempty)
  qed
qed

section \<open>Keys that meet\<close>

lemma metricValue_absent: "k \<notin> fst ` set d \<Longrightarrow> metricValue d k m = 0"
  by (simp add: metricValue_def lookupCategory_def valueOf_def map_of_eq_None_iff [THEN iffD2])

lemma Fields_5: "Fields ''5 bps'' = [''5'', ''bps'']"
  by code_simp

lemma ParseFloat_5: "ParseFloat ''5'' = Inr (Finite 5)"
  by code_simp

lemma intOfFloat_5: "intOfFloat oor (Finite 5) = 5"
  by (simp add: intOfFloat_def)

text \<open>
  C1, as stated, at a concrete input. The statistics category \<open>Q\<close> reports the nested
  category \<open>A\<close> with \<open>x = 2\<close>, and a monitoring category is named \<open>Q_A\<close> and reports
  \<open>x = 5 bps\<close>. Both fragments hold the key \<open>Q_A\<close>. The handler copies the monitoring
  entry over the statistics entry: the combined dataset, and the gauge \<open>Q_A_x\<close>, hold 5
  and not the sum 7.
\<close>

theorem monitoring_entry_replaces_statistics_entry:
  "statisticsResult
     (exampleEnv [(statsPage ''Q'', statsBody ''A'' ''x'' ''2''),
                  (monitorPage ''Q_A'', monitorBody1 ''x'' ''5 bps'')]
        [(statsBody ''A'' ''x'' ''2'', [(''A'', [(''x'', 2)])])]
        [(monitorBody1 ''x'' ''5 bps'', [(''x'', ''5 bps'')])])
     (bothSources [''Q''] [''Q_A''])
   = Ok [(''Q_A'', [(''x'', 2)])]
   \<and> monitoringResult
     (exampleEnv [(statsPage ''Q'', statsBody ''A'' ''x'' ''2''),
                  (monitorPage ''Q_A'', monitorBody1 ''x'' ''5 bps'')]
        [(statsBody ''A'' ''x'' ''2'', [(''A'', [(''x'', 2)])])]
        [(monitorBody1 ''x'' ''5 bps'', [(''x'', ''5 bps'')])])
     (bothSources [''Q''] [''Q_A''])
   = Ok [(''Q_A'', [(''x'', 5)])]
   \<and> metricValue (mergeInto (mergeInto [] [(''Q_A'', [(''x'', 2)])]) [(''Q_A'', [(''x'', 5)])])
       ''Q_A'' ''x'' = 5
   \<and> MetricsHandler
     (exampleEnv [(statsPage ''Q'', statsBody ''A'' ''x'' ''2''),
                  (monitorPage ''Q_A'', monitorBody1 ''x'' ''5 bps'')]
        [(statsBody ''A'' ''x'' ''2'', [(''A'', [(''x'', 2)])])]
        [(monitorBody1 ''x'' ''5 bps'', [(''x'', ''5 bps'')])])
     (bothSources [''Q''] [''Q_A'']) []
   = Responded 200
       (Exposition [\<lparr>gaugeName = ''Q_A_x'', gaugeHelp = ''Metric x from category Q_A'', gaugeValue = 5\<rparr>])
       [\<lparr>gaugeName = ''Q_A_x'', gaugeHelp = ''Metric x from category Q_A'', gaugeValue = 5\<rparr>]"
proof -
  let ?env = "exampleEnv [(statsPage ''Q'', statsBody ''A'' ''x'' ''2''),
                  (monitorPage ''Q_A'', monitorBody1 ''x'' ''5 bps'')]
        [(statsBody ''A'' ''x'' ''2'', [(''A'', [(''x'', 2)])])]
        [(monitorBody1 ''x'' ''5 bps'', [(''x'', ''5 bps'')])]"
  have s: "statisticsResult ?env (bothSources [''Q''] [''Q_A'']) = Ok [(''Q_A'', [(''x'', 2)])]"
    by (simp add: statisticsResult_def example_defs aggregate_defs)
  have m: "monitoringResult ?env (bothSources [''Q''] [''Q_A'']) = Ok [(''Q_A'', [(''x'', 5)])]"
    by (simp add: monitoringResult_def example_defs aggregate_defs Fields_5 ParseFloat_5 intOfFloat_5)
  have v: "metricValue (mergeInto (mergeInto [] [(''Q_A'', [(''x'', 2)])]) [(''Q_A'', [(''x'', 5)])])
       ''Q_A'' ''x'' = 5"
    by (simp add: metricValue_def lookupCategory_def valueOf_def)
  have h: "MetricsHandler ?env (bothSources [''Q''] [''Q_A'']) []
   = Responded 200
       (Exposition [\<lparr>gaugeName = ''Q_A_x'', gaugeHelp = ''Metric x from category Q_A'', gaugeValue = 5\<rparr>])
       [\<lparr>gaugeName = ''Q_A_x'', gaugeHelp = ''Metric x from category Q_A'', gaugeValue = 5\<rparr>]"
    unfolding MetricsHandler_def s m
    by (simp add: statisticsStage_def onStatistics_def monitoringStage_def onMonitoring_def
        statisticsConfigured_def monitoringConfigured_def bothSources_def respond_def
        register_defs exampleEnv_def Let_def)
  from s m v h show ?thesis by simp
qed

text \<open>
  C1, amended. Within the aggregation of one source type every value met under a
  qualified key and metric name is added to what the key already holds, so that the
  fragment holds, for every key and name, the sum (in 64-bit arithmetic) of all the
  values the successful fetches contribute to them: for statistics always, for monitoring
  whenever the aggregation returns. When the handler merges the two fragments, a key
  that both hold keeps the monitoring entry and loses the statistics entry.
\<close>

theorem summed_within_a_source_type:
  "(\<exists>d. fetchAndCombineJSONData env cats qp addr port ''statistics'' = Ok d
        \<and> (\<forall>k m. metricValue d k m
              = sum_list (statisticsContributions env (statisticsBaseURL addr port) qp cats k m)))
   \<and> (\<forall>d. fetchAndCombineJSONData env mcats qp maddr mport ''monitoring'' = Ok d \<longrightarrow>
         (\<forall>k m. metricValue d k m
              = sum_list (monitoringContributions env (monitoringBaseURL maddr mport) qp mcats k m)))
   \<and> (\<forall>sd md k m. statisticsResult env cfg = Ok sd \<and> monitoringResult env cfg = Ok md \<longrightarrow>
         metricValue (mergeInto (mergeInto [] sd) md) k m
           = (if k \<in> fst ` set md then metricValue md k m else metricValue sd k m))"
proof (intro conjI allI impI)
  obtain d where d: "combineLoop env ''statistics'' (statisticsBaseURL addr port) qp [] cats = Ok d"
    using combineLoop_statistics_Ok by blast
  have "metricValue d k m
          = sum_list (statisticsContributions env (statisticsBaseURL addr port) qp cats k m)" for k m
    using combineLoop_statistics_value [OF d, of k m] by (simp add: metricValue_empty)
  then show "\<exists>d. fetchAndCombineJSONData env cats qp addr port ''statistics'' = Ok d
        \<and> (\<forall>k m. metricValue d k m
              = sum_list (statisticsContributions env (statisticsBaseURL addr port) qp cats k m))"
    using d by (simp add: fetchAndCombineJSONData_def)
next
  fix d k m
  assume "fetchAndCombineJSONData env mcats qp maddr mport ''monitoring'' = Ok d"
  then have "combineLoop env ''monitoring'' (monitoringBaseURL maddr mport) qp [] mcats = Ok d"
    by (simp add: fetchAndCombineJSONData_def)
  then show "metricValue d k m
      = sum_list (monitoringContributions env (monitoringBaseURL maddr mport) qp mcats k m)"
    using combineLoop_monitoring_value [of env "monitoringBaseURL maddr mport" qp "[]" mcats d k m]
    by (simp add: metricValue_empty)
next
  fix sd md k m
  assume a: "statisticsResult env cfg = Ok sd \<and> monitoringResult env cfg = Ok md"
  then have dm: "distinct (map fst md)" and ds: "distinct (map fst sd)"
    using distinct_fetchAndCombine by (auto simp: statisticsResult_def monitoringResult_def)
  have "metricValue (mergeInto [] sd) k m = metricValue sd k m"
    using metricValue_mergeInto [OF ds, of "[]" k m]
    by (simp add: metricValue_empty metricValue_absent)
  then show "metricValue (mergeInto (mergeInto [] sd) md) k m
           = (if k \<in> fst ` set md then metricValue md k m else metricValue sd k m)"
    using metricValue_mergeInto [OF dm, of "mergeInto [] sd" k m] by simp
qed

theorem summed_within_a_source_type_witness:
  "sum_list (statisticsContributions
       (exampleEnv [(statsPage ''Q'', statsBody ''A'' ''x'' ''2''),
                    (monitorPage ''Q_A'', monitorBody1 ''x'' ''5 bps'')]
          [(statsBody ''A'' ''x'' ''2'', [(''A'', [(''x'', 2)])])]
          [(monitorBody1 ''x'' ''5 bps'', [(''x'', ''5 bps'')])])
       (statisticsBaseURL ''stats'' 8080) ''op'' [''Q'', ''Q''] ''Q_A'' ''x'') = 4
   \<and> sum_list (monitoringContributions
       (exampleEnv [(statsPage ''Q'', statsBody ''A'' ''x'' ''2''),
                    (monitorPage ''Q_A'', monitorBody1 ''x'' ''5 bps'')]
          [(statsBody ''A'' ''x'' ''2'', [(''A'', [(''x'', 2)])])]
          [(monitorBody1 ''x'' ''5 bps'', [(''x'', ''5 bps'')])])
       (monitoringBaseURL ''mon'' 9090) ''op'' [''Q_A'', ''Q_A''] ''Q_A'' ''x'') = 10
   \<and> metricValue (mergeInto (mergeInto [] [(''Q_A'', [(''x'', 4)])]) [(''Q_A'', [(''x'', 10)])])
       ''Q_A'' ''x'' = 10"
proof -
  let ?env = "exampleEnv [(statsPage ''Q'', statsBody ''A'' ''x'' ''2''),
                    (monitorPage ''Q_A'', monitorBody1 ''x'' ''5 bps'')]
          [(statsBody ''A'' ''x'' ''2'', [(''A'', [(''x'', 2)])])]
          [(monitorBody1 ''x'' ''5 bps'', [(''x'', ''5 bps'')])]"
  let ?cfg = "bothSources [''Q'', ''Q''] [''Q_A'', ''Q_A'']"
  note inst = summed_within_a_source_type
    [of "?env" "[''Q'', ''Q'']" "''op''" "''stats''" 8080 "[''Q_A'', ''Q_A'']" "''mon''" 9090 "?cfg"]
  have s: "fetchAndCombineJSONData ?env [''Q'', ''Q''] ''op'' ''stats'' 8080 ''statistics''
             = Ok [(''Q_A'', [(''x'', 4)])]"
    by (simp add: example_defs aggregate_defs)
  have m: "fetchAndCombineJSONData ?env [''Q_A'', ''Q_A''] ''op'' ''mon'' 9090 ''monitoring''
             = Ok [(''Q_A'', [(''x'', 10)])]"
    by (simp add: example_defs aggregate_defs Fields_5 ParseFloat_5 intOfFloat_5)
  have s': "statisticsResult ?env ?cfg = Ok [(''Q_A'', [(''x'', 4)])]"
    using s by (simp add: statisticsResult_def bothSources_def)
  have m': "monitoringResult ?env ?cfg = Ok [(''Q_A'', [(''x'', 10)])]"
    using m by (simp add: monitoringResult_def bothSources_def)
  have v: "metricValue [(''Q_A'', [(''x'', 4)])] ''Q_A'' ''x'' = 4"
    "metricValue [(''Q_A'', [(''x'', 10)])] ''Q_A'' ''x'' = 10"
    by (simp_all add: metricValue_def lookupCategory_def valueOf_def)
  from inst s have "sum_list (statisticsContributions ?env (statisticsBaseURL ''stats'' 8080) ''op''
       [''Q'', ''Q''] ''Q_A'' ''x'') = metricValue [(''Q_A'', [(''x'', 4)])] ''Q_A'' ''x''"
    by auto
  moreover from inst m have "sum_list (monitoringContributions ?env (monitoringBaseURL ''mon'' 9090) ''op''
       [''Q_A'', ''Q_A''] ''Q_A'' ''x'') = metricValue [(''Q_A'', [(''x'', 10)])] ''Q_A'' ''x''"
    by auto
  moreover from inst s' m' have
    "metricValue (mergeInto (mergeInto [] [(''Q_A'', [(''x'', 4)])]) [(''Q_A'', [(''x'', 10)])])
       ''Q_A'' ''x'' = metricValue [(''Q_A'', [(''x'', 10)])] ''Q_A'' ''x''"
    by auto
  ultimately show ?thesis using v by simp
qed

section \<open>Repeated keys within one source type\<close>

text \<open>
  C8. Within the statistics aggregation every value met under a qualified key is added
  to what the key holds: after the loop the value under any key and metric is what the
  accumulator held before plus the sum of all the contributions of the categories
  fetched. In particular two fetches that yield \<open>x = v\<close> and \<open>x = w\<close> in nested categories
  with the same prefixed name (the same category twice, or two categories whose names
  run together to the same key) leave \<open>x = v + w\<close> under that key: 2 and 2 give 4. The
  monitoring aggregation, when it returns, adds in the same way the readings of every
  category fetched to what the category's key holds.
\<close>

theorem repeated_key_is_added:
  "(\<exists>d. combineLoop env ''statistics'' b qp acc cats = Ok d
        \<and> (\<forall>k m. metricValue d k m
              = metricValue acc k m + sum_list (statisticsContributions env b qp cats k m)))
   \<and> (fetchJSONData env (fullURL b c1 qp) ''statistics'' = Inr (StatsPayload p1)
        \<and> fetchJSONData env (fullURL b c2 qp) ''statistics'' = Inr (StatsPayload p2)
        \<longrightarrow> (\<exists>d. combineLoop env ''statistics'' b qp acc [c1, c2] = Ok d
               \<and> (\<forall>k m. metricValue d k m
                     = metricValue acc k m
                       + (sum_list (payloadContributions c1 p1 k m)
                          + sum_list (payloadContributions c2 p2 k m)))))
   \<and> (fetchJSONData env (fullURL b c1 qp) ''statistics'' = Inr (StatsPayload [(j1, [(x, v)])])
        \<and> fetchJSONData env (fullURL b c2 qp) ''statistics'' = Inr (StatsPayload [(j2, [(x, w)])])
        \<and> c1 @ ''_'' @ j1 = c2 @ ''_'' @ j2
        \<longrightarrow> combineLoop env ''statistics'' b qp [] [c1, c2] = Ok [(c1 @ ''_'' @ j1, [(x, v + w)])])
   \<and> (\<forall>d. combineLoop env ''monitoring'' mb qp macc mcats = Ok d \<longrightarrow>
         (\<forall>k m. metricValue d k m
               = metricValue macc k m + sum_list (monitoringContributions env mb qp mcats k m)))"
proof (intro conjI impI allI)
  obtain d where d: "combineLoop env ''statistics'' b qp acc cats = Ok d"
    using combineLoop_statistics_Ok by blast
  then show "\<exists>d. combineLoop env ''statistics'' b qp acc cats = Ok d
        \<and> (\<forall>k m. metricValue d k m
              = metricValue acc k m + sum_list (statisticsContributions env b qp cats k m))"
    using combineLoop_statistics_value [OF d] by blast
next
  assume f: "fetchJSONData env (fullURL b c1 qp) ''statistics'' = Inr (StatsPayload p1)
        \<and> fetchJSONData env (fullURL b c2 qp) ''statistics'' = Inr (StatsPayload p2)"
  obtain d where d: "combineLoop env ''statistics'' b qp acc [c1, c2] = Ok d"
    using combineLoop_statistics_Ok by blast
  have "statisticsContributions env b qp [c1, c2] k m
          = payloadContributions c1 p1 k m @ payloadContributions c2 p2 k m" for k m
    using f by (simp add: statisticsContributions_def)
  then have "metricValue d k m
        = metricValue acc k m
          + (sum_list (payloadContributions c1 p1 k m) + sum_list (payloadContributions c2 p2 k m))"
    for k m
    using combineLoop_statistics_value [OF d, of k m] by simp
  then show "\<exists>d. combineLoop env ''statistics'' b qp acc [c1, c2] = Ok d
               \<and> (\<forall>k m. metricValue d k m
                     = metricValue acc k m
                       + (sum_list (payloadContributions c1 p1 k m)
                          + sum_list (payloadContributions c2 p2 k m)))"
    using d by blast
next
  assume "fetchJSONData env (fullURL b c1 qp) ''statistics'' = Inr (StatsPayload [(j1, [(x, v)])])
        \<and> fetchJSONData env (fullURL b c2 qp) ''statistics'' = Inr (StatsPayload [(j2, [(x, w)])])
        \<and> c1 @ ''_'' @ j1 = c2 @ ''_'' @ j2"
  then show "combineLoop env ''statistics'' b qp [] [c1, c2] = Ok [(c1 @ ''_'' @ j1, [(x, v + w)])]"
    by simp
next
  fix d k m
  assume "combineLoop env ''monitoring'' mb qp macc mcats = Ok d"
  then show "metricValue d k m
      = metricValue macc k m + sum_list (monitoringContributions env mb qp mcats k m)"
    by (rule combineLoop_monitoring_value)
qed

theorem repeated_key_is_added_witness:
  "fetchAndCombineJSONData
     (exampleEnv [(statsPage ''Q'', statsBody ''A'' ''x'' ''2'')]
        [(statsBody ''A'' ''x'' ''2'', [(''A'', [(''x'', 2)])])] [])
     [''Q'', ''Q''] ''op'' ''stats'' 8080 ''statistics''
   = Ok [(''Q_A'', [(''x'', 4)])]
   \<and> fetchAndCombineJSONData
     (exampleEnv [(statsPage ''Q'', statsBody ''A_B'' ''x'' ''2''),
                  (statsPage ''Q_A'', statsBody ''B'' ''x'' ''3'')]
        [(statsBody ''A_B'' ''x'' ''2'', [(''A_B'', [(''x'', 2)])]),
         (statsBody ''B'' ''x'' ''3'', [(''B'', [(''x'', 3)])])] [])
     [''Q'', ''Q_A''] ''op'' ''stats'' 8080 ''statistics''
   = Ok [(''Q_A_B'', [(''x'', 5)])]
   \<and> fetchAndCombineJSONData
     (exampleEnv [(monitorPage ''Q_A'', monitorBody1 ''x'' ''5 bps'')] []
        [(monitorBody1 ''x'' ''5 bps'', [(''x'', ''5 bps'')])])
     [''Q_A'', ''Q_A''] ''op'' ''mon'' 9090 ''monitoring''
   = Ok [(''Q_A'', [(''x'', 10)])]
   \<and> sum_list (monitoringContributions
       (exampleEnv [(monitorPage ''Q_A'', monitorBody1 ''x'' ''5 bps'')] []
          [(monitorBody1 ''x'' ''5 bps'', [(''x'', ''5 bps'')])])
       (monitoringBaseURL ''mon'' 9090) ''op'' [''Q_A'', ''Q_A''] ''Q_A'' ''x'') = 10"
proof -
  let ?M = "exampleEnv [(monitorPage ''Q_A'', monitorBody1 ''x'' ''5 bps'')] []
        [(monitorBody1 ''x'' ''5 bps'', [(''x'', ''5 bps'')])]"
  let ?mb = "monitoringBaseURL ''mon'' 9090"
  let ?env = "exampleEnv [(statsPage ''Q'', statsBody ''A'' ''x'' ''2'')]
        [(statsBody ''A'' ''x'' ''2'', [(''A'', [(''x'', 2)])])] []"
  let ?env2 = "exampleEnv [(statsPage ''Q'', statsBody ''A_B'' ''x'' ''2''),
                  (statsPage ''Q_A'', statsBody ''B'' ''x'' ''3'')]
        [(statsBody ''A_B'' ''x'' ''2'', [(''A_B'', [(''x'', 2)])]),
         (statsBody ''B'' ''x'' ''3'', [(''B'', [(''x'', 3)])])] []"
  let ?b = "statisticsBaseURL ''stats'' 8080"
  have f: "fetchJSONData ?env (fullURL ?b ''Q'' ''op'') ''statistics''
             = Inr (StatsPayload [(''A'', [(''x'', 2)])])"
    by (simp add: example_defs aggregate_defs)
  have g: "fetchJSONData ?env2 (fullURL ?b ''Q'' ''op'') ''statistics''
             = Inr (StatsPayload [(''A_B'', [(''x'', 2)])])"
    "fetchJSONData ?env2 (fullURL ?b ''Q_A'' ''op'') ''statistics''
             = Inr (StatsPayload [(''B'', [(''x'', 3)])])"
    by (simp_all add: example_defs aggregate_defs)
  have "combineLoop ?env ''statistics'' ?b ''op'' [] [''Q'', ''Q'']
          = Ok [(''Q'' @ ''_'' @ ''A'', [(''x'', 2 + 2)])]"
    using repeated_key_is_added
      [of "?env" "?b" "''op''" "[]" "[]" "''Q''" "[]" "''Q''" "[]" "''A''" "''x''" 2 "''A''" 2] f
    by blast
  moreover have "combineLoop ?env2 ''statistics'' ?b ''op'' [] [''Q'', ''Q_A'']
          = Ok [(''Q'' @ ''_'' @ ''A_B'', [(''x'', 2 + 3)])]"
    using repeated_key_is_added
      [of "?env2" "?b" "''op''" "[]" "[]" "''Q''" "[]" "''Q_A''" "[]" "''A_B''" "''x''" 2 "''B''" 3] g
    by simp
  moreover have m: "combineLoop ?M ''monitoring'' ?mb ''op'' [] [''Q_A'', ''Q_A'']
          = Ok [(''Q_A'', [(''x'', 10)])]"
    by (simp add: example_defs aggregate_defs Fields_5 ParseFloat_5 intOfFloat_5)
  moreover have "sum_list (monitoringContributions ?M ?mb ''op'' [''Q_A'', ''Q_A''] ''Q_A'' ''x'') = 10"
    using repeated_key_is_added
      [where env = "?M" and mb = "?mb" and qp = "''op''" and macc = "[]"
         and mcats = "[''Q_A'', ''Q_A'']" and b = "?b" and acc = "[]" and cats = "[]"
         and ?c1.0 = "[]" and ?c2.0 = "[]" and ?p1.0 = "[]" and ?p2.0 = "[]"
         and ?j1.0 = "[]" and ?j2.0 = "[]" and x = "[]" and v = 0 and w = 0,
       THEN conjunct2, THEN conjunct2, THEN conjunct2, rule_format, OF m, of "''Q_A''" "''x''"]
    by (simp add: metricValue_def valueOf_def lookupCategory_def)
  ultimately show ?thesis
    by (simp add: fetchAndCombineJSONData_def)
qed

section \<open>A category that fails beside one that succeeds\<close>

subsection \<open>What a fragment holds\<close>

lemma contributions_of_fetched:
  "statisticsContributions env b qp (filter (fetched env ''statistics'' b qp) cats) k m
   = statisticsContributions env b qp cats k m"
  by (induction cats) (auto simp: statisticsContributions_def fetched_def split: sum.splits)

lemma monitoring_contributions_of_fetched:
  "monitoringContributions env b qp (filter (fetched env ''monitoring'' b qp) cats) k m
   = monitoringContributions env b qp cats k m"
  by (induction cats) (auto simp: monitoringContributions_def fetched_def split: sum.splits)

lemma keys_addMetric:
  "map fst (addMetric n v ms) = (if n \<in> set (map fst ms) then map fst ms else map fst ms @ [n])"
  by (induction ms) (fastforce split: if_splits)+

lemma names_addMetric: "fst ` set (addMetric n v ms) = insert n (fst ` set ms)"
proof -
  have "set (map fst (addMetric n v ms)) = insert n (set (map fst ms))"
    unfolding keys_addMetric by auto
  then show ?thesis by simp
qed

lemma names_addMetrics: "fst ` set (addMetrics es ms) = fst ` set es \<union> fst ` set ms"
proof (induction es arbitrary: ms)
  case Nil
  show ?case by simp
next
  case (Cons e es)
  obtain n v where e: "e = (n, v)" by (cases e)
  have "fst ` set (addMetrics es (addMetric n v ms)) = fst ` set es \<union> fst ` set (addMetric n v ms)"
    by (rule Cons.IH)
  then show ?case by (simp add: e names_addMetric)
qed

lemma names_addStatistics_mono:
  "fst ` set (lookupCategory k d) \<subseteq> fst ` set (lookupCategory k (addStatistics c p d))"
proof (induction p arbitrary: d)
  case Nil
  show ?case by simp
next
  case (Cons e p)
  obtain j ms where e: "e = (j, ms)" by (cases e)
  let ?d = "updateCategory (c @ ''_'' @ j) (addMetrics ms) (ensureCategory (c @ ''_'' @ j) d)"
  have "fst ` set (lookupCategory k d) \<subseteq> fst ` set (lookupCategory k ?d)"
    by (auto simp: lookupCategory_update_ensure names_addMetrics)
  moreover have "fst ` set (lookupCategory k ?d) \<subseteq> fst ` set (lookupCategory k (addStatistics c p ?d))"
    by (rule Cons.IH)
  ultimately show ?case by (simp add: e Let_def)
qed

lemma names_addStatistics:
  "(j, ms) \<in> set p \<Longrightarrow> (m, v) \<in> set ms \<Longrightarrow>
   m \<in> fst ` set (lookupCategory (c @ ''_'' @ j) (addStatistics c p d))"
proof (induction p arbitrary: d)
  case Nil
  then show ?case by simp
next
  case (Cons e p)
  obtain j' ms' where e: "e = (j', ms')" by (cases e)
  let ?d = "updateCategory (c @ ''_'' @ j') (addMetrics ms') (ensureCategory (c @ ''_'' @ j') d)"
  show ?case
  proof (cases "(j, ms) = (j', ms')")
    case True
    have "m \<in> fst ` set ms" using Cons.prems(2) by force
    then have "m \<in> fst ` set (lookupCategory (c @ ''_'' @ j) ?d)"
      using True by (simp add: lookupCategory_update_ensure names_addMetrics)
    then have "m \<in> fst ` set (lookupCategory (c @ ''_'' @ j) (addStatistics c p ?d))"
      using names_addStatistics_mono by blast
    then show ?thesis by (simp add: e Let_def)
  next
    case False
    then have "(j, ms) \<in> set p" using Cons.prems(1) e by auto
    then have "m \<in> fst ` set (lookupCategory (c @ ''_'' @ j) (addStatistics c p ?d))"
      using Cons.prems(2) by (rule Cons.IH)
    then show ?thesis by (simp add: e Let_def)
  qed
qed

lemma keys_addStatistics_mono: "set (map fst d) \<subseteq> set (map fst (addStatistics c p d))"
proof (induction p arbitrary: d)
  case Nil
  show ?case by simp
next
  case (Cons e p)
  obtain j ms where e: "e = (j, ms)" by (cases e)
  let ?d = "updateCategory (c @ ''_'' @ j) (addMetrics ms) (ensureCategory (c @ ''_'' @ j) d)"
  have "set (map fst d) \<subseteq> set (map fst ?d)"
    by (auto simp: keys_updateCategory keys_ensureCategory)
  moreover have "set (map fst ?d) \<subseteq> set (map fst (addStatistics c p ?d))"
    by (rule Cons.IH)
  ultimately show ?case by (simp add: e Let_def)
qed

lemma names_addMonitoring_mono:
  "addMonitoring oor p ms = Some ms' \<Longrightarrow> fst ` set ms \<subseteq> fst ` set ms'"
proof (induction p arbitrary: ms)
  case Nil
  then show ?case by simp
next
  case (Cons e p)
  obtain n v where e: "e = (n, v)" by (cases e)
  show ?case
  proof (cases "Fields v")
    case Nil
    then show ?thesis using Cons.prems e by simp
  next
    case (Cons tok toks)
    note fields = this
    show ?thesis
    proof (cases "ParseFloat tok")
      case (Inl err)
      then show ?thesis using Cons.prems Cons.IH e fields by simp
    next
      case (Inr f)
      then have "addMonitoring oor p (addMetric n (intOfFloat oor f) ms) = Some ms'"
        using Cons.prems e fields by simp
      then have "fst ` set (addMetric n (intOfFloat oor f) ms) \<subseteq> fst ` set ms'"
        by (rule Cons.IH)
      then show ?thesis by (auto simp: names_addMetric)
    qed
  qed
qed

lemma combineLoop_step_grows:
  "combineLoop env dataType b q acc (c # cats) = Ok d \<Longrightarrow>
   \<exists>acc'. combineLoop env dataType b q acc' cats = Ok d
     \<and> set (map fst acc) \<subseteq> set (map fst acc')
     \<and> (\<forall>k. fst ` set (lookupCategory k acc) \<subseteq> fst ` set (lookupCategory k acc'))
     \<and> (\<forall>md. fetchJSONData env (fullURL b c q) dataType = Inr md \<and> dataType = ''monitoring''
            \<longrightarrow> c \<in> set (map fst acc'))
     \<and> (\<forall>p j ms m v. fetchJSONData env (fullURL b c q) dataType = Inr (StatsPayload p)
            \<and> dataType = ''statistics'' \<and> (j, ms) \<in> set p \<and> (m, v) \<in> set ms
            \<longrightarrow> m \<in> fst ` set (lookupCategory (c @ ''_'' @ j) acc'))"
proof (cases "fetchJSONData env (fullURL b c q) dataType")
  case (Inl e)
  assume "combineLoop env dataType b q acc (c # cats) = Ok d"
  then have "combineLoop env dataType b q acc cats = Ok d" using Inl by simp
  then show ?thesis using Inl by auto
next
  case (Inr pl)
  assume run: "combineLoop env dataType b q acc (c # cats) = Ok d"
  show ?thesis
  proof (cases pl)
    case (StatsPayload sd)
    then have dt: "dataType = ''statistics''"
      using run Inr by (auto split: if_splits)
    have "combineLoop env dataType b q (addStatistics c sd acc) cats = Ok d"
      using run Inr StatsPayload dt by simp
    moreover have "set (map fst acc) \<subseteq> set (map fst (addStatistics c sd acc))"
      by (rule keys_addStatistics_mono)
    moreover have "\<forall>k. fst ` set (lookupCategory k acc)
        \<subseteq> fst ` set (lookupCategory k (addStatistics c sd acc))"
      using names_addStatistics_mono by blast
    moreover have "\<forall>p j ms m v. fetchJSONData env (fullURL b c q) dataType = Inr (StatsPayload p)
            \<and> dataType = ''statistics'' \<and> (j, ms) \<in> set p \<and> (m, v) \<in> set ms
            \<longrightarrow> m \<in> fst ` set (lookupCategory (c @ ''_'' @ j) (addStatistics c sd acc))"
      using Inr StatsPayload names_addStatistics by auto
    moreover have "\<forall>md. fetchJSONData env (fullURL b c q) dataType = Inr md
        \<and> dataType = ''monitoring'' \<longrightarrow> c \<in> set (map fst (addStatistics c sd acc))"
      using dt by simp
    ultimately show ?thesis by blast
  next
    case (MonitorPayload md)
    then have dt: "dataType = ''monitoring''"
      using run Inr by (auto split: if_splits)
    let ?cd = "ensureCategory c acc"
    obtain ms where ms: "addMonitoring (outOfRange env) md (lookupCategory c ?cd) = Some ms"
      and rest: "combineLoop env dataType b q (updateCategory c (\<lambda>_. ms) ?cd) cats = Ok d"
      using run Inr MonitorPayload dt by (auto simp: Let_def split: option.splits)
    let ?acc = "updateCategory c (\<lambda>_. ms) ?cd"
    have keys: "set (map fst acc) \<subseteq> set (map fst ?acc)" "c \<in> set (map fst ?acc)"
      by (auto simp: keys_updateCategory keys_ensureCategory)
    have "fst ` set (lookupCategory c acc) \<subseteq> fst ` set ms"
      using names_addMonitoring_mono [OF ms] by (simp add: lookupCategory_ensure)
    then have names: "\<forall>k. fst ` set (lookupCategory k acc) \<subseteq> fst ` set (lookupCategory k ?acc)"
      by (simp add: lookupCategory_update_ensure)
    have "\<forall>p j ms m v. fetchJSONData env (fullURL b c q) dataType = Inr (StatsPayload p)
            \<and> dataType = ''statistics'' \<and> (j, ms) \<in> set p \<and> (m, v) \<in> set ms
            \<longrightarrow> m \<in> fst ` set (lookupCategory (c @ ''_'' @ j) ?acc)"
      using dt by simp
    then show ?thesis using rest keys names by blast
  qed
qed

lemma combineLoop_grows:
  "combineLoop env dataType b q acc cats = Ok d \<Longrightarrow>
   set (map fst acc) \<subseteq> set (map fst d)
   \<and> (\<forall>k. fst ` set (lookupCategory k acc) \<subseteq> fst ` set (lookupCategory k d))"
proof (induction cats arbitrary: acc)
  case Nil
  then show ?case by simp
next
  case (Cons c cats)
  from combineLoop_step_grows [OF Cons.prems]
  obtain acc' where all: "combineLoop env dataType b q acc' cats = Ok d
     \<and> set (map fst acc) \<subseteq> set (map fst acc')
     \<and> (\<forall>k. fst ` set (lookupCategory k acc) \<subseteq> fst ` set (lookupCategory k acc'))
     \<and> (\<forall>md. fetchJSONData env (fullURL b c q) dataType = Inr md \<and> dataType = ''monitoring''
            \<longrightarrow> c \<in> set (map fst acc'))
     \<and> (\<forall>p j ms m v. fetchJSONData env (fullURL b c q) dataType = Inr (StatsPayload p)
            \<and> dataType = ''statistics'' \<and> (j, ms) \<in> set p \<and> (m, v) \<in> set ms
            \<longrightarrow> m \<in> fst ` set (lookupCategory (c @ ''_'' @ j) acc'))" ..
  have a: "combineLoop env dataType b q acc' cats = Ok d"
    and k: "set (map fst acc) \<subseteq> set (map fst acc')"
    and n: "\<And>k. fst ` set (lookupCategory k acc) \<subseteq> fst ` set (lookupCategory k acc')"
    using all by simp_all
  have ih: "set (map fst acc') \<subseteq> set (map fst d)
   \<and> (\<forall>k. fst ` set (lookupCategory k acc') \<subseteq> fst ` set (lookupCategory k d))"
    using a by (rule Cons.IH)
  have "set (map fst acc) \<subseteq> set (map fst d)"
    using k ih by (meson order_trans)
  moreover have "fst ` set (lookupCategory k acc) \<subseteq> fst ` set (lookupCategory k d)" for k
    using n [of k] ih by (meson order_trans)
  ultimately show ?case by simp
qed

lemma statistics_metric_present:
  "combineLoop env ''statistics'' b q acc cats = Ok d \<Longrightarrow> c \<in> set cats \<Longrightarrow>
   fetchJSONData env (fullURL b c q) ''statistics'' = Inr (StatsPayload p) \<Longrightarrow>
   (j, ms) \<in> set p \<Longrightarrow> (m, v) \<in> set ms \<Longrightarrow>
   m \<in> fst ` set (lookupCategory (c @ ''_'' @ j) d)"
proof (induction cats arbitrary: acc)
  case Nil
  then show ?case by simp
next
  case (Cons c' cats)
  from combineLoop_step_grows [OF Cons.prems(1)]
  obtain acc' where all: "combineLoop env ''statistics'' b q acc' cats = Ok d
     \<and> set (map fst acc) \<subseteq> set (map fst acc')
     \<and> (\<forall>k. fst ` set (lookupCategory k acc) \<subseteq> fst ` set (lookupCategory k acc'))
     \<and> (\<forall>md. fetchJSONData env (fullURL b c' q) ''statistics'' = Inr md
            \<and> ''statistics'' = ''monitoring'' \<longrightarrow> c' \<in> set (map fst acc'))
     \<and> (\<forall>p j ms m v. fetchJSONData env (fullURL b c' q) ''statistics'' = Inr (StatsPayload p)
            \<and> ''statistics'' = ''statistics'' \<and> (j, ms) \<in> set p \<and> (m, v) \<in> set ms
            \<longrightarrow> m \<in> fst ` set (lookupCategory (c' @ ''_'' @ j) acc'))" ..
  have a: "combineLoop env ''statistics'' b q acc' cats = Ok d"
    using all by simp
  have here: "fetchJSONData env (fullURL b c' q) ''statistics'' = Inr (StatsPayload p) \<Longrightarrow>
      m \<in> fst ` set (lookupCategory (c' @ ''_'' @ j) acc')"
    using all Cons.prems(4,5) by blast
  show ?case
  proof (cases "c' = c")
    case True
    then have "m \<in> fst ` set (lookupCategory (c @ ''_'' @ j) acc')"
      using here Cons.prems(3) by simp
    moreover have "fst ` set (lookupCategory (c @ ''_'' @ j) acc')
        \<subseteq> fst ` set (lookupCategory (c @ ''_'' @ j) d)"
      using combineLoop_grows [OF a] by simp
    ultimately show ?thesis by (rule subsetD [rotated])
  next
    case False
    then have "c \<in> set cats" using Cons.prems(2) by simp
    then show ?thesis using Cons.IH [OF a _ Cons.prems(3) Cons.prems(4) Cons.prems(5)] by simp
  qed
qed

lemma monitoring_key_present:
  "combineLoop env ''monitoring'' b q acc cats = Ok d \<Longrightarrow> c \<in> set cats \<Longrightarrow>
   fetched env ''monitoring'' b q c \<Longrightarrow> c \<in> set (map fst d)"
proof (induction cats arbitrary: acc)
  case Nil
  then show ?case by simp
next
  case (Cons c' cats)
  from combineLoop_step_grows [OF Cons.prems(1)]
  obtain acc' where all: "combineLoop env ''monitoring'' b q acc' cats = Ok d
     \<and> set (map fst acc) \<subseteq> set (map fst acc')
     \<and> (\<forall>k. fst ` set (lookupCategory k acc) \<subseteq> fst ` set (lookupCategory k acc'))
     \<and> (\<forall>md. fetchJSONData env (fullURL b c' q) ''monitoring'' = Inr md
            \<and> ''monitoring'' = ''monitoring'' \<longrightarrow> c' \<in> set (map fst acc'))
     \<and> (\<forall>p j ms m v. fetchJSONData env (fullURL b c' q) ''monitoring'' = Inr (StatsPayload p)
            \<and> ''monitoring'' = ''statistics'' \<and> (j, ms) \<in> set p \<and> (m, v) \<in> set ms
            \<longrightarrow> m \<in> fst ` set (lookupCategory (c' @ ''_'' @ j) acc'))" ..
  have a: "combineLoop env ''monitoring'' b q acc' cats = Ok d"
    using all by simp
  have here: "fetchJSONData env (fullURL b c' q) ''monitoring'' = Inr md \<Longrightarrow>
      c' \<in> set (map fst acc')" for md
    using all by simp
  show ?case
  proof (cases "c' = c")
    case True
    obtain md where "fetchJSONData env (fullURL b c q) ''monitoring'' = Inr md"
      using Cons.prems(3) by (cases "fetchJSONData env (fullURL b c q) ''monitoring''")
        (simp_all add: fetched_def)
    then have "c \<in> set (map fst acc')" using here [of md] True by simp
    moreover have "set (map fst acc') \<subseteq> set (map fst d)"
      using combineLoop_grows [OF a] by simp
    ultimately show ?thesis by (rule subsetD [rotated])
  next
    case False
    then have "c \<in> set cats" using Cons.prems(2) by simp
    then show ?thesis using Cons.IH [OF a _ Cons.prems(3)] by simp
  qed
qed

subsection \<open>When the scrape is answered, and how\<close>

lemma addMonitoring_None_iff: "addMonitoring oor p ms = None \<longleftrightarrow> \<not> readable p"
proof (induction p arbitrary: ms)
  case Nil
  show ?case by (simp add: readable_def)
next
  case (Cons e p)
  obtain n v where e: "e = (n, v)" by (cases e)
  have r: "readable (e # p) \<longleftrightarrow> Fields v \<noteq> [] \<and> readable p"
    by (simp add: readable_def e)
  show ?case
  proof (cases "Fields v")
    case Nil
    then show ?thesis using r by (simp add: e)
  next
    case (Cons tok toks)
    then show ?thesis using r Cons.IH by (simp add: e split: sum.splits)
  qed
qed

lemma combineLoop_monitoring_Panic_iff:
  "combineLoop env ''monitoring'' b q acc cats = Panic
   \<longleftrightarrow> \<not> list_all (readableCategory env b q) cats"
proof (induction cats arbitrary: acc)
  case Nil
  show ?case by simp
next
  case (Cons c cats)
  show ?case
  proof (cases "fetchJSONData env (fullURL b c q) ''monitoring''")
    case (Inl e)
    then show ?thesis using Cons.IH by (simp add: readableCategory_def)
  next
    case (Inr pl)
    then obtain md where pl: "pl = MonitorPayload md"
      using fetchJSONData_monitoring by blast
    show ?thesis
    proof (cases "addMonitoring (outOfRange env) md (lookupCategory c (ensureCategory c acc))")
      case None
      then have "\<not> readable md" by (simp add: addMonitoring_None_iff)
      then show ?thesis using None Inr pl by (simp add: readableCategory_def Let_def)
    next
      case (Some ms)
      then have "readable md"
        using addMonitoring_None_iff
          [of "outOfRange env" md "lookupCategory c (ensureCategory c acc)"] by simp
      then show ?thesis using Some Inr pl Cons.IH by (simp add: readableCategory_def Let_def)
    qed
  qed
qed

lemma statisticsResult_Ok: "\<exists>sd. statisticsResult env cfg = Ok sd"
  using combineLoop_statistics_Ok by (simp add: statisticsResult_def fetchAndCombineJSONData_def)

lemma monitoringResult_cases:
  "(monitoringResult env cfg = Panic
      \<and> \<not> list_all (readableCategory env
              (monitoringBaseURL (MonitoringServerAddr cfg) (MonitoringServerPort cfg))
              (queryParams cfg)) (MetricsMonitoringCategories cfg))
   \<or> (\<exists>md. monitoringResult env cfg = Ok md
      \<and> list_all (readableCategory env
              (monitoringBaseURL (MonitoringServerAddr cfg) (MonitoringServerPort cfg))
              (queryParams cfg)) (MetricsMonitoringCategories cfg))"
proof (cases "monitoringResult env cfg")
  case (Ok md)
  then have "combineLoop env ''monitoring''
      (monitoringBaseURL (MonitoringServerAddr cfg) (MonitoringServerPort cfg))
      (queryParams cfg) [] (MetricsMonitoringCategories cfg) \<noteq> Panic"
    by (simp add: monitoringResult_def fetchAndCombineJSONData_def)
  then show ?thesis using Ok by (simp add: combineLoop_monitoring_Panic_iff)
next
  case (Err e)
  then show ?thesis using monitoring_never_Err by (simp add: monitoringResult_def)
next
  case Panic
  then have "combineLoop env ''monitoring''
      (monitoringBaseURL (MonitoringServerAddr cfg) (MonitoringServerPort cfg))
      (queryParams cfg) [] (MetricsMonitoringCategories cfg) = Panic"
    by (simp add: monitoringResult_def fetchAndCombineJSONData_def)
  then show ?thesis using Panic by (simp add: combineLoop_monitoring_Panic_iff)
qed

lemma handler_answers:
  "monitoringReadable env cfg \<Longrightarrow>
   MetricsHandler env cfg reg
   = respond env (scrapeDataset cfg (statisticsResult env cfg) (monitoringResult env cfg)) reg"
proof -
  assume r: "monitoringReadable env cfg"
  obtain sd where sd: "statisticsResult env cfg = Ok sd"
    using statisticsResult_Ok by blast
  show ?thesis
  proof (cases "monitoringConfigured cfg")
    case False
    then show ?thesis
      using sd by (simp add: MetricsHandler_def statisticsStage_def onStatistics_def
          monitoringStage_def scrapeDataset_def)
  next
    case True
    then obtain md where "monitoringResult env cfg = Ok md"
      using r monitoringResult_cases [of env cfg] by (auto simp: monitoringReadable_def)
    then show ?thesis
      using sd True by (simp add: MetricsHandler_def statisticsStage_def onStatistics_def
          monitoringStage_def onMonitoring_def scrapeDataset_def)
  qed
qed

lemma handler_crashes:
  "\<not> monitoringReadable env cfg \<Longrightarrow> MetricsHandler env cfg reg = Crashed"
proof -
  assume r: "\<not> monitoringReadable env cfg"
  obtain sd where sd: "statisticsResult env cfg = Ok sd"
    using statisticsResult_Ok by blast
  have c: "monitoringConfigured cfg" using r by (simp add: monitoringReadable_def)
  have "monitoringResult env cfg = Panic"
    using r monitoringResult_cases [of env cfg] by (auto simp: monitoringReadable_def)
  then show ?thesis
    using sd c by (simp add: MetricsHandler_def statisticsStage_def onStatistics_def
        monitoringStage_def onMonitoring_def)
qed

lemma respond_not_Crashed: "respond env d reg \<noteq> Crashed"
  by (simp add: respond_def httpError_def Let_def)

lemma respond_nonempty:
  "d \<noteq> [] \<Longrightarrow> \<exists>b reg'. respond env d reg = Responded 200 b reg'"
  by (simp add: respond_def Let_def)

lemma combineLoop_statistics_empty:
  "\<forall>c \<in> set cats. \<forall>p. fetchJSONData env (fullURL b c q) ''statistics'' = Inr (StatsPayload p)
      \<longrightarrow> p = [] \<Longrightarrow>
   combineLoop env ''statistics'' b q acc cats = Ok acc"
proof (induction cats)
  case Nil
  show ?case by simp
next
  case (Cons c cats)
  have ih: "combineLoop env ''statistics'' b q acc cats = Ok acc"
    using Cons.prems by (intro Cons.IH) simp
  show ?case
  proof (cases "fetchJSONData env (fullURL b c q) ''statistics''")
    case (Inl e)
    then show ?thesis using ih by simp
  next
    case (Inr pl)
    then obtain p where pl: "pl = StatsPayload p"
      using fetchJSONData_statistics by blast
    then have "p = []" using Cons.prems Inr by simp
    then show ?thesis using Inr pl ih by simp
  qed
qed

lemma combineLoop_monitoring_unfetched:
  "\<forall>c \<in> set cats. \<not> fetched env ''monitoring'' b q c \<Longrightarrow>
   combineLoop env ''monitoring'' b q acc cats = Ok acc"
proof (induction cats)
  case Nil
  show ?case by simp
next
  case (Cons c cats)
  have ih: "combineLoop env ''monitoring'' b q acc cats = Ok acc"
    using Cons.prems by (intro Cons.IH) simp
  have "\<not> fetched env ''monitoring'' b q c" using Cons.prems by simp
  then obtain e where "fetchJSONData env (fullURL b c q) ''monitoring'' = Inl e"
    by (cases "fetchJSONData env (fullURL b c q) ''monitoring''") (simp_all add: fetched_def)
  then show ?case using ih by simp
qed

lemma dataset_nonempty_of_statistics:
  assumes "statisticsConfigured cfg"
    and "A \<in> set (MetricsStatisticsCategories cfg)"
    and "fetchJSONData env
           (fullURL (statisticsBaseURL (StatisticServerAddr cfg) (StatisticServerPort cfg)) A
              (queryParams cfg)) ''statistics'' = Inr (StatsPayload p)"
    and "p \<noteq> []"
  shows "scrapeDataset cfg (statisticsResult env cfg) (monitoringResult env cfg) \<noteq> []"
proof -
  obtain sd where sd: "combineLoop env ''statistics''
      (statisticsBaseURL (StatisticServerAddr cfg) (StatisticServerPort cfg)) (queryParams cfg) []
      (MetricsStatisticsCategories cfg) = Ok sd"
    using combineLoop_statistics_Ok by blast
  have "sd \<noteq> []"
    using combineLoop_statistics_nonempty [OF sd assms(2) assms(3) assms(4)] .
  then have ne: "mergeInto [] sd \<noteq> []" by (rule mergeInto_nonempty)
  have res: "statisticsResult env cfg = Ok sd"
    using sd by (simp add: statisticsResult_def fetchAndCombineJSONData_def)
  show ?thesis
    using assms(1) res mergeInto_keeps_nonempty [OF ne] by (simp add: scrapeDataset_def)
qed

lemma dataset_nonempty_of_monitoring:
  assumes "monitoringConfigured cfg"
    and "A \<in> set (MetricsMonitoringCategories cfg)"
    and "fetched env ''monitoring''
           (monitoringBaseURL (MonitoringServerAddr cfg) (MonitoringServerPort cfg))
           (queryParams cfg) A"
    and "monitoringReadable env cfg"
  shows "scrapeDataset cfg (statisticsResult env cfg) (monitoringResult env cfg) \<noteq> []"
proof -
  obtain md where md: "monitoringResult env cfg = Ok md"
    using assms(1) assms(4) monitoringResult_cases [of env cfg]
    by (auto simp: monitoringReadable_def)
  then have "combineLoop env ''monitoring''
      (monitoringBaseURL (MonitoringServerAddr cfg) (MonitoringServerPort cfg)) (queryParams cfg) []
      (MetricsMonitoringCategories cfg) = Ok md"
    by (simp add: monitoringResult_def fetchAndCombineJSONData_def)
  then have "md \<noteq> []"
    using assms(2) assms(3) by (rule combineLoop_monitoring_nonempty)
  then show ?thesis
    using assms(1) md mergeInto_nonempty by (simp add: scrapeDataset_def)
qed

lemma dataset_empty:
  assumes "statisticsConfigured cfg \<longrightarrow>
      (\<forall>c \<in> set (MetricsStatisticsCategories cfg). \<forall>p.
          fetchJSONData env
            (fullURL (statisticsBaseURL (StatisticServerAddr cfg) (StatisticServerPort cfg)) c
               (queryParams cfg)) ''statistics'' = Inr (StatsPayload p) \<longrightarrow> p = [])"
    and "monitoringConfigured cfg \<longrightarrow>
      (\<forall>c \<in> set (MetricsMonitoringCategories cfg).
          \<not> fetched env ''monitoring''
             (monitoringBaseURL (MonitoringServerAddr cfg) (MonitoringServerPort cfg))
             (queryParams cfg) c)"
  shows "scrapeDataset cfg (statisticsResult env cfg) (monitoringResult env cfg) = []"
proof -
  have s: "statisticsConfigured cfg \<Longrightarrow> statisticsResult env cfg = Ok []"
    using assms(1) combineLoop_statistics_empty
    by (simp add: statisticsResult_def fetchAndCombineJSONData_def)
  have m: "monitoringConfigured cfg \<Longrightarrow> monitoringResult env cfg = Ok []"
    using assms(2) combineLoop_monitoring_unfetched
    by (simp add: monitoringResult_def fetchAndCombineJSONData_def)
  show ?thesis
    using s m by (simp add: scrapeDataset_def)
qed

text \<open>
  C5, as stated, at a concrete input. The statistics categories are \<open>A\<close> and \<open>B\<close>. The
  fetch of \<open>A\<close> succeeds with the body \<open>{}\<close>, an object without nested categories; the
  fetch of \<open>B\<close> fails. The combined dataset is empty and the scrape is answered with
  400, not 200.
\<close>

theorem success_without_categories_gives_400:
  "fetchJSONData (exampleEnv [(statsPage ''A'', ''{}'')] [(''{}'', [])] []) (statsPage ''A'')
     ''statistics'' = Inr (StatsPayload [])
   \<and> fetchJSONData (exampleEnv [(statsPage ''A'', ''{}'')] [(''{}'', [])] []) (statsPage ''B'')
     ''statistics'' = Inl ''failed to fetch JSON data: connection refused''
   \<and> MetricsHandler (exampleEnv [(statsPage ''A'', ''{}'')] [(''{}'', [])] [])
       (statsOnly [''A'', ''B'']) []
     = Responded 400
         (Text (''No valid configuration provided for statistics or monitoring'' @ [CHR 0x0A])) []"
  by (simp add: example_defs handler_defs aggregate_defs)

text \<open>
  C5, amended. A category whose fetch fails contributes nothing, and a category whose
  fetch succeeds contributes everything it holds.

  \<^item> The statistics aggregation always returns a fragment. It is the fragment of the
    list without the failing categories; the value under every key and metric is the sum
    of what the categories fetched contribute, so nothing comes from \<open>B\<close>; and every
    metric of every nested category \<open>j\<close> of a fetched category \<open>A\<close> is present under the
    key \<open>A_j\<close>.
  \<^item> The monitoring aggregation, when it returns, returns the fragment of the list
    without the failing categories, with the same sums, and holds a key for every
    category fetched.
  \<^item> The process ends without a response exactly when monitoring is configured and a
    monitoring category fetched holds a reading without a field. In every other scrape
    the answer is 400 with the text \<open>No valid configuration provided for statistics or
    monitoring\<close> when the combined dataset is empty, and 200 when it is not.
  \<^item> The combined dataset is not empty when a configured statistics category is fetched
    with at least one nested category, or when a configured monitoring category is
    fetched and every reading has a field. It is empty when every statistics payload
    fetched is without nested categories and no monitoring category is fetched.
\<close>

theorem failed_category_is_left_out:
  "(\<exists>d. fetchAndCombineJSONData env cats qp addr port ''statistics'' = Ok d
       \<and> fetchAndCombineJSONData env
           (filter (fetched env ''statistics'' (statisticsBaseURL addr port) qp) cats)
           qp addr port ''statistics'' = Ok d
       \<and> (\<forall>k m. metricValue d k m
             = sum_list (statisticsContributions env (statisticsBaseURL addr port) qp
                 (filter (fetched env ''statistics'' (statisticsBaseURL addr port) qp) cats) k m))
       \<and> (\<forall>c p j ms m v. c \<in> set cats
             \<and> fetchJSONData env (fullURL (statisticsBaseURL addr port) c qp) ''statistics''
                 = Inr (StatsPayload p)
             \<and> (j, ms) \<in> set p \<and> (m, v) \<in> set ms
             \<longrightarrow> m \<in> fst ` set (lookupCategory (c @ ''_'' @ j) d)))
   \<and> (\<forall>d. fetchAndCombineJSONData env mcats qp maddr mport ''monitoring'' = Ok d \<longrightarrow>
         fetchAndCombineJSONData env
           (filter (fetched env ''monitoring'' (monitoringBaseURL maddr mport) qp) mcats)
           qp maddr mport ''monitoring'' = Ok d
         \<and> (\<forall>k m. metricValue d k m
               = sum_list (monitoringContributions env (monitoringBaseURL maddr mport) qp
                   (filter (fetched env ''monitoring'' (monitoringBaseURL maddr mport) qp) mcats)
                   k m))
         \<and> (\<forall>c. c \<in> set mcats
               \<and> fetched env ''monitoring'' (monitoringBaseURL maddr mport) qp c
               \<longrightarrow> c \<in> fst ` set d))
   \<and> (MetricsHandler env cfg reg = Crashed \<longleftrightarrow> \<not> monitoringReadable env cfg)
   \<and> (monitoringReadable env cfg
        \<and> scrapeDataset cfg (statisticsResult env cfg) (monitoringResult env cfg) = []
        \<longrightarrow> MetricsHandler env cfg reg
            = Responded 400
                (Text (''No valid configuration provided for statistics or monitoring''
                       @ [CHR 0x0A])) reg)
   \<and> (monitoringReadable env cfg
        \<and> scrapeDataset cfg (statisticsResult env cfg) (monitoringResult env cfg) \<noteq> []
        \<longrightarrow> (\<exists>b reg'. MetricsHandler env cfg reg = Responded 200 b reg'))
   \<and> (statisticsConfigured cfg \<and> A \<in> set (MetricsStatisticsCategories cfg)
        \<and> fetchJSONData env
             (fullURL (statisticsBaseURL (StatisticServerAddr cfg) (StatisticServerPort cfg)) A
                (queryParams cfg)) ''statistics'' = Inr (StatsPayload p)
        \<and> p \<noteq> []
        \<longrightarrow> scrapeDataset cfg (statisticsResult env cfg) (monitoringResult env cfg) \<noteq> [])
   \<and> (monitoringConfigured cfg \<and> A \<in> set (MetricsMonitoringCategories cfg)
        \<and> fetched env ''monitoring''
             (monitoringBaseURL (MonitoringServerAddr cfg) (MonitoringServerPort cfg))
             (queryParams cfg) A
        \<and> monitoringReadable env cfg
        \<longrightarrow> scrapeDataset cfg (statisticsResult env cfg) (monitoringResult env cfg) \<noteq> [])
   \<and> ((statisticsConfigured cfg \<longrightarrow>
          (\<forall>c \<in> set (MetricsStatisticsCategories cfg). \<forall>p.
             fetchJSONData env
               (fullURL (statisticsBaseURL (StatisticServerAddr cfg) (StatisticServerPort cfg)) c
                  (queryParams cfg)) ''statistics'' = Inr (StatsPayload p) \<longrightarrow> p = []))
        \<and> (monitoringConfigured cfg \<longrightarrow>
          (\<forall>c \<in> set (MetricsMonitoringCategories cfg).
             \<not> fetched env ''monitoring''
                (monitoringBaseURL (MonitoringServerAddr cfg) (MonitoringServerPort cfg))
                (queryParams cfg) c))
        \<longrightarrow> scrapeDataset cfg (statisticsResult env cfg) (monitoringResult env cfg) = [])"
proof -
  let ?sb = "statisticsBaseURL addr port"
  let ?mb = "monitoringBaseURL maddr mport"
  let ?ds = "scrapeDataset cfg (statisticsResult env cfg) (monitoringResult env cfg)"
  obtain d where d: "combineLoop env ''statistics'' ?sb qp [] cats = Ok d"
    using combineLoop_statistics_Ok by blast
  have dq: "combineLoop env ''statistics'' ?sb qp []
              (filter (fetched env ''statistics'' ?sb qp) cats) = Ok d"
    using combineLoop_skips_failed [of env "''statistics''" ?sb qp "[]" cats] d by simp
  have dv: "metricValue d k m
      = sum_list (statisticsContributions env ?sb qp
          (filter (fetched env ''statistics'' ?sb qp) cats) k m)" for k m
    using combineLoop_statistics_value [OF dq, of k m] by (simp add: metricValue_empty)
  have dp: "m \<in> fst ` set (lookupCategory (c @ ''_'' @ j) d)"
    if "c \<in> set cats"
      and "fetchJSONData env (fullURL ?sb c qp) ''statistics'' = Inr (StatsPayload p)"
      and "(j, ms) \<in> set p" and "(m, v) \<in> set ms" for c p j ms m v
    using statistics_metric_present [OF d that] .
  have c1: "\<exists>d. fetchAndCombineJSONData env cats qp addr port ''statistics'' = Ok d
       \<and> fetchAndCombineJSONData env
           (filter (fetched env ''statistics'' ?sb qp) cats) qp addr port ''statistics'' = Ok d
       \<and> (\<forall>k m. metricValue d k m
             = sum_list (statisticsContributions env ?sb qp
                 (filter (fetched env ''statistics'' ?sb qp) cats) k m))
       \<and> (\<forall>c p j ms m v. c \<in> set cats
             \<and> fetchJSONData env (fullURL ?sb c qp) ''statistics'' = Inr (StatsPayload p)
             \<and> (j, ms) \<in> set p \<and> (m, v) \<in> set ms
             \<longrightarrow> m \<in> fst ` set (lookupCategory (c @ ''_'' @ j) d))"
  proof (intro exI [of _ d] conjI allI impI)
    show "fetchAndCombineJSONData env cats qp addr port ''statistics'' = Ok d"
      using d by (simp add: fetchAndCombineJSONData_def)
    show "fetchAndCombineJSONData env
           (filter (fetched env ''statistics'' ?sb qp) cats) qp addr port ''statistics'' = Ok d"
      using dq by (simp add: fetchAndCombineJSONData_def)
    show "metricValue d k m
             = sum_list (statisticsContributions env ?sb qp
                 (filter (fetched env ''statistics'' ?sb qp) cats) k m)" for k m
      by (rule dv)
    show "m \<in> fst ` set (lookupCategory (c @ ''_'' @ j) d)"
      if "c \<in> set cats
             \<and> fetchJSONData env (fullURL ?sb c qp) ''statistics'' = Inr (StatsPayload p)
             \<and> (j, ms) \<in> set p \<and> (m, v) \<in> set ms" for c p j ms m v
      using that dp by blast
  qed
  have c2: "\<forall>d. fetchAndCombineJSONData env mcats qp maddr mport ''monitoring'' = Ok d \<longrightarrow>
         fetchAndCombineJSONData env
           (filter (fetched env ''monitoring'' ?mb qp) mcats) qp maddr mport ''monitoring'' = Ok d
         \<and> (\<forall>k m. metricValue d k m
               = sum_list (monitoringContributions env ?mb qp
                   (filter (fetched env ''monitoring'' ?mb qp) mcats) k m))
         \<and> (\<forall>c. c \<in> set mcats \<and> fetched env ''monitoring'' ?mb qp c \<longrightarrow> c \<in> fst ` set d)"
  proof (intro allI impI)
    fix md
    assume "fetchAndCombineJSONData env mcats qp maddr mport ''monitoring'' = Ok md"
    then have md: "combineLoop env ''monitoring'' ?mb qp [] mcats = Ok md"
      by (simp add: fetchAndCombineJSONData_def)
    have mq: "combineLoop env ''monitoring'' ?mb qp []
                (filter (fetched env ''monitoring'' ?mb qp) mcats) = Ok md"
      using combineLoop_skips_failed [of env "''monitoring''" ?mb qp "[]" mcats] md by simp
    have mv: "metricValue md k m
        = sum_list (monitoringContributions env ?mb qp
            (filter (fetched env ''monitoring'' ?mb qp) mcats) k m)" for k m
      using combineLoop_monitoring_value [OF mq, of k m] by (simp add: metricValue_empty)
    have mp: "c \<in> fst ` set md"
      if "c \<in> set mcats \<and> fetched env ''monitoring'' ?mb qp c" for c
      using monitoring_key_present [OF md] that by simp
    show "fetchAndCombineJSONData env
           (filter (fetched env ''monitoring'' ?mb qp) mcats) qp maddr mport ''monitoring'' = Ok md
         \<and> (\<forall>k m. metricValue md k m
               = sum_list (monitoringContributions env ?mb qp
                   (filter (fetched env ''monitoring'' ?mb qp) mcats) k m))
         \<and> (\<forall>c. c \<in> set mcats \<and> fetched env ''monitoring'' ?mb qp c \<longrightarrow> c \<in> fst ` set md)"
      using mq mv mp by (simp add: fetchAndCombineJSONData_def)
  qed
  have c3: "MetricsHandler env cfg reg = Crashed \<longleftrightarrow> \<not> monitoringReadable env cfg"
    using handler_crashes [of env cfg reg] handler_answers [of env cfg reg]
      respond_not_Crashed [of env ?ds reg]
    by auto
  have c4: "monitoringReadable env cfg \<and> ?ds = []
        \<longrightarrow> MetricsHandler env cfg reg
            = Responded 400
                (Text (''No valid configuration provided for statistics or monitoring''
                       @ [CHR 0x0A])) reg"
    using handler_answers [of env cfg reg] respond_empty [of env reg] by auto
  have c5: "monitoringReadable env cfg \<and> ?ds \<noteq> []
        \<longrightarrow> (\<exists>b reg'. MetricsHandler env cfg reg = Responded 200 b reg')"
    using handler_answers [of env cfg reg] respond_nonempty [of ?ds env reg] by auto
  have c6: "statisticsConfigured cfg \<and> A \<in> set (MetricsStatisticsCategories cfg)
        \<and> fetchJSONData env
             (fullURL (statisticsBaseURL (StatisticServerAddr cfg) (StatisticServerPort cfg)) A
                (queryParams cfg)) ''statistics'' = Inr (StatsPayload p)
        \<and> p \<noteq> [] \<longrightarrow> ?ds \<noteq> []"
    using dataset_nonempty_of_statistics [of cfg A env p] by blast
  have c7: "monitoringConfigured cfg \<and> A \<in> set (MetricsMonitoringCategories cfg)
        \<and> fetched env ''monitoring''
             (monitoringBaseURL (MonitoringServerAddr cfg) (MonitoringServerPort cfg))
             (queryParams cfg) A
        \<and> monitoringReadable env cfg \<longrightarrow> ?ds \<noteq> []"
    using dataset_nonempty_of_monitoring [of cfg A env] by blast
  have c8: "(statisticsConfigured cfg \<longrightarrow>
          (\<forall>c \<in> set (MetricsStatisticsCategories cfg). \<forall>p.
             fetchJSONData env
               (fullURL (statisticsBaseURL (StatisticServerAddr cfg) (StatisticServerPort cfg)) c
                  (queryParams cfg)) ''statistics'' = Inr (StatsPayload p) \<longrightarrow> p = []))
        \<and> (monitoringConfigured cfg \<longrightarrow>
          (\<forall>c \<in> set (MetricsMonitoringCategories cfg).
             \<not> fetched env ''monitoring''
                (monitoringBaseURL (MonitoringServerAddr cfg) (MonitoringServerPort cfg))
                (queryParams cfg) c))
        \<longrightarrow> ?ds = []"
    using dataset_empty [of cfg env] by blast
  from c1 c2 c3 c4 c5 c6 c7 c8 show ?thesis by (intro conjI)
qed

theorem failed_category_is_left_out_witness:
  "fetchAndCombineJSONData
     (exampleEnv [(statsPage ''A'', statsBody ''up'' ''x'' ''3'')]
        [(statsBody ''up'' ''x'' ''3'', [(''up'', [(''x'', 3)])])] [])
     [''A'', ''B''] ''op'' ''stats'' 8080 ''statistics''
   = Ok [(''A_up'', [(''x'', 3)])]
   \<and> filter (fetched
        (exampleEnv [(statsPage ''A'', statsBody ''up'' ''x'' ''3'')]
           [(statsBody ''up'' ''x'' ''3'', [(''up'', [(''x'', 3)])])] [])
        ''statistics'' (statisticsBaseURL ''stats'' 8080) ''op'') [''A'', ''B''] = [''A'']
   \<and> MetricsHandler
     (exampleEnv [(statsPage ''A'', statsBody ''up'' ''x'' ''3'')]
        [(statsBody ''up'' ''x'' ''3'', [(''up'', [(''x'', 3)])])] [])
     (statsOnly [''A'', ''B'']) []
   = Responded 200
       (Exposition [\<lparr>gaugeName = ''A_up_x'', gaugeHelp = ''Metric x from category A_up'', gaugeValue = 3\<rparr>])
       [\<lparr>gaugeName = ''A_up_x'', gaugeHelp = ''Metric x from category A_up'', gaugeValue = 3\<rparr>]
   \<and> MetricsHandler (exampleEnv [(statsPage ''A'', ''{}'')] [(''{}'', [])] [])
       (statsOnly [''A'', ''B'']) []
     = Responded 400
         (Text (''No valid configuration provided for statistics or monitoring'' @ [CHR 0x0A])) []
   \<and> fetchAndCombineJSONData
     (exampleEnv [(monitorPage ''A'', monitorBody1 ''x'' ''5 bps'')] []
        [(monitorBody1 ''x'' ''5 bps'', [(''x'', ''5 bps'')])])
     [''A'', ''B''] ''op'' ''mon'' 9090 ''monitoring''
   = Ok [(''A'', [(''x'', 5)])]
   \<and> MetricsHandler
     (exampleEnv [(monitorPage ''A'', monitorBody1 ''x'' ''5 bps'')] []
        [(monitorBody1 ''x'' ''5 bps'', [(''x'', ''5 bps'')])])
     (monitoringOnly [''A'', ''B'']) []
   = Responded 200
       (Exposition [\<lparr>gaugeName = ''A_x'', gaugeHelp = ''Metric x from category A'', gaugeValue = 5\<rparr>])
       [\<lparr>gaugeName = ''A_x'', gaugeHelp = ''Metric x from category A'', gaugeValue = 5\<rparr>]
   \<and> MetricsHandler
     (exampleEnv [(monitorPage ''A'', monitorBody1 ''x'' '''')] []
        [(monitorBody1 ''x'' '''', [(''x'', '''')])])
     (monitoringOnly [''A'', ''B'']) []
   = Crashed"
proof -
  let ?E = "exampleEnv [(statsPage ''A'', statsBody ''up'' ''x'' ''3'')]
        [(statsBody ''up'' ''x'' ''3'', [(''up'', [(''x'', 3)])])] []"
  let ?Z = "exampleEnv [(statsPage ''A'', ''{}'')] [(''{}'', [])] []"
  let ?M = "exampleEnv [(monitorPage ''A'', monitorBody1 ''x'' ''5 bps'')] []
        [(monitorBody1 ''x'' ''5 bps'', [(''x'', ''5 bps'')])]"
  let ?K = "exampleEnv [(monitorPage ''A'', monitorBody1 ''x'' '''')] []
        [(monitorBody1 ''x'' '''', [(''x'', '''')])]"
  let ?cs = "statsOnly [''A'', ''B'']"
  let ?cm = "monitoringOnly [''A'', ''B'']"
  note stat = failed_category_is_left_out
    [where env = "?E" and cats = "[''A'', ''B'']" and qp = "''op''" and addr = "''stats''"
       and port = 8080 and mcats = "[]" and maddr = "''mon''" and mport = 9090 and cfg = "?cs"
       and reg = "[]" and A = "''A''" and p = "[(''up'', [(''x'', 3)])]"]
  note none = failed_category_is_left_out
    [where env = "?Z" and cats = "[''A'', ''B'']" and qp = "''op''" and addr = "''stats''"
       and port = 8080 and mcats = "[]" and maddr = "''mon''" and mport = 9090 and cfg = "?cs"
       and reg = "[]" and A = "''A''" and p = "[]"]
  note mon = failed_category_is_left_out
    [where env = "?M" and cats = "[]" and qp = "''op''" and addr = "''stats''"
       and port = 8080 and mcats = "[''A'', ''B'']" and maddr = "''mon''" and mport = 9090
       and cfg = "?cm" and reg = "[]" and A = "''A''" and p = "[]"]
  note blank = failed_category_is_left_out
    [where env = "?K" and cats = "[]" and qp = "''op''" and addr = "''stats''"
       and port = 8080 and mcats = "[''A'', ''B'']" and maddr = "''mon''" and mport = 9090
       and cfg = "?cm" and reg = "[]" and A = "''A''" and p = "[]"]

  have f: "filter (fetched ?E ''statistics'' (statisticsBaseURL ''stats'' 8080) ''op'') [''A'', ''B'']
             = [''A'']"
    by (simp add: fetched_def example_defs aggregate_defs)
  have one: "fetchAndCombineJSONData ?E [''A''] ''op'' ''stats'' 8080 ''statistics''
               = Ok [(''A_up'', [(''x'', 3)])]"
    by (simp add: example_defs aggregate_defs)
  obtain d where "fetchAndCombineJSONData ?E [''A'', ''B''] ''op'' ''stats'' 8080 ''statistics'' = Ok d"
    and "fetchAndCombineJSONData ?E
           (filter (fetched ?E ''statistics'' (statisticsBaseURL ''stats'' 8080) ''op'') [''A'', ''B''])
           ''op'' ''stats'' 8080 ''statistics'' = Ok d"
    using stat [THEN conjunct1] by blast
  then have both: "fetchAndCombineJSONData ?E [''A'', ''B''] ''op'' ''stats'' 8080 ''statistics''
               = Ok [(''A_up'', [(''x'', 3)])]"
    using f one by simp

  have rs: "monitoringReadable ?E ?cs" "monitoringReadable ?Z ?cs"
    by (simp_all add: monitoringReadable_def monitoringConfigured_def statsOnly_def)
  have "statisticsConfigured ?cs \<and> ''A'' \<in> set (MetricsStatisticsCategories ?cs)
        \<and> fetchJSONData ?E
             (fullURL (statisticsBaseURL (StatisticServerAddr ?cs) (StatisticServerPort ?cs)) ''A''
                (queryParams ?cs)) ''statistics'' = Inr (StatsPayload [(''up'', [(''x'', 3)])])
        \<and> [(''up'', [(''x'', 3::int64)])] \<noteq> []"
    by (simp add: statisticsConfigured_def example_defs aggregate_defs)
  then have "scrapeDataset ?cs (statisticsResult ?E ?cs) (monitoringResult ?E ?cs) \<noteq> []"
    using stat [THEN conjunct2, THEN conjunct2, THEN conjunct2, THEN conjunct2, THEN conjunct2,
        THEN conjunct1] by blast
  then have "\<exists>b reg'. MetricsHandler ?E ?cs [] = Responded 200 b reg'"
    using rs(1) stat [THEN conjunct2, THEN conjunct2, THEN conjunct2, THEN conjunct2,
        THEN conjunct1] by blast
  have h: "MetricsHandler ?E ?cs []
   = Responded 200
       (Exposition [\<lparr>gaugeName = ''A_up_x'', gaugeHelp = ''Metric x from category A_up'', gaugeValue = 3\<rparr>])
       [\<lparr>gaugeName = ''A_up_x'', gaugeHelp = ''Metric x from category A_up'', gaugeValue = 3\<rparr>]"
    by (simp add: example_defs handler_defs aggregate_defs register_defs Let_def)

  have "(statisticsConfigured ?cs \<longrightarrow>
          (\<forall>c \<in> set (MetricsStatisticsCategories ?cs). \<forall>p.
             fetchJSONData ?Z
               (fullURL (statisticsBaseURL (StatisticServerAddr ?cs) (StatisticServerPort ?cs)) c
                  (queryParams ?cs)) ''statistics'' = Inr (StatsPayload p) \<longrightarrow> p = []))
        \<and> (monitoringConfigured ?cs \<longrightarrow>
          (\<forall>c \<in> set (MetricsMonitoringCategories ?cs).
             \<not> fetched ?Z ''monitoring''
                (monitoringBaseURL (MonitoringServerAddr ?cs) (MonitoringServerPort ?cs))
                (queryParams ?cs) c))"
    by (simp add: monitoringConfigured_def example_defs aggregate_defs)
  then have "scrapeDataset ?cs (statisticsResult ?Z ?cs) (monitoringResult ?Z ?cs) = []"
    using none [THEN conjunct2, THEN conjunct2, THEN conjunct2, THEN conjunct2, THEN conjunct2,
        THEN conjunct2, THEN conjunct2] by blast
  then have e: "MetricsHandler ?Z ?cs []
     = Responded 400
         (Text (''No valid configuration provided for statistics or monitoring'' @ [CHR 0x0A])) []"
    using rs(2) none [THEN conjunct2, THEN conjunct2, THEN conjunct2, THEN conjunct1] by blast

  have m: "fetchAndCombineJSONData ?M [''A'', ''B''] ''op'' ''mon'' 9090 ''monitoring''
             = Ok [(''A'', [(''x'', 5)])]"
    by (simp add: example_defs aggregate_defs Fields_5 ParseFloat_5 intOfFloat_5)
  then have "''A'' \<in> fst ` set [(''A'', [(''x'', 5::int64)])]"
    using mon [THEN conjunct2, THEN conjunct1]
    by simp
  have rm: "monitoringReadable ?M ?cm"
    by (simp add: monitoringReadable_def readableCategory_def readable_def example_defs
        aggregate_defs Fields_5)
  have "monitoringConfigured ?cm \<and> ''A'' \<in> set (MetricsMonitoringCategories ?cm)
        \<and> fetched ?M ''monitoring''
             (monitoringBaseURL (MonitoringServerAddr ?cm) (MonitoringServerPort ?cm))
             (queryParams ?cm) ''A''
        \<and> monitoringReadable ?M ?cm"
    using rm by (simp add: monitoringConfigured_def fetched_def example_defs aggregate_defs)
  then have "scrapeDataset ?cm (statisticsResult ?M ?cm) (monitoringResult ?M ?cm) \<noteq> []"
    using mon [THEN conjunct2, THEN conjunct2, THEN conjunct2, THEN conjunct2, THEN conjunct2,
        THEN conjunct2, THEN conjunct1] by blast
  then have "\<exists>b reg'. MetricsHandler ?M ?cm [] = Responded 200 b reg'"
    using rm mon [THEN conjunct2, THEN conjunct2, THEN conjunct2, THEN conjunct2,
        THEN conjunct1] by blast
  have hm: "MetricsHandler ?M ?cm []
   = Responded 200
       (Exposition [\<lparr>gaugeName = ''A_x'', gaugeHelp = ''Metric x from category A'', gaugeValue = 5\<rparr>])
       [\<lparr>gaugeName = ''A_x'', gaugeHelp = ''Metric x from category A'', gaugeValue = 5\<rparr>]"
    by (simp add: example_defs handler_defs aggregate_defs register_defs Let_def
        Fields_5 ParseFloat_5 intOfFloat_5)

  have "\<not> monitoringReadable ?K ?cm"
    by (simp add: monitoringReadable_def readableCategory_def readable_def monitoringConfigured_def
        example_defs aggregate_defs Fields_empty)
  then have k: "MetricsHandler ?K ?cm [] = Crashed"
    using blank [THEN conjunct2, THEN conjunct2, THEN conjunct1] by blast

  from both f h e m hm k show ?thesis by (intro conjI)
qed

section \<open>The order of the goroutines\<close>

lemmas step_defs =
  requestSteps_def handlerSteps_def workerSteps_def receiveError_def

lemma checkStates_closed:
  "st \<in> set (checkStates env reg sw mw cd) \<Longrightarrow> sw \<noteq> Running \<Longrightarrow> mw \<noteq> Running \<Longrightarrow>
   st' \<in> set (requestSteps env cfg reg sres mres st) \<Longrightarrow>
   st' \<in> set (checkStates env reg sw mw cd)"
  by (auto simp: checkStates_def step_defs split: worker.splits)

lemma monitoringStates_closed:
  "st \<in> set (monitoringStates env cfg reg mres sw cd) \<Longrightarrow> sw \<noteq> Running \<Longrightarrow>
   st' \<in> set (requestSteps env cfg reg sres mres st) \<Longrightarrow>
   st' \<in> set (monitoringStates env cfg reg mres sw cd)"
  apply (cases mres; cases "monitoringConfigured cfg")
  apply (auto simp: monitoringStates_def checkStates_def step_defs split: worker.splits)
  done

lemma monitoringStates_first:
  "\<lparr>handlerAt = AtMonitoring, statsWorker = sw, monitorWorker = Unstarted, errorChan = [],
    combined = cd, crashed = False\<rparr> \<in> set (monitoringStates env cfg reg mres sw cd)"
  by (simp add: monitoringStates_def)

lemma schedule_closed:
  assumes "st \<in> set (schedule env cfg reg sres mres)"
    and "st' \<in> set (requestSteps env cfg reg sres mres st)"
  shows "st' \<in> set (schedule env cfg reg sres mres)"
proof (cases "statisticsConfigured cfg")
  case False
  then have sch: "schedule env cfg reg sres mres
      = request0 # monitoringStates env cfg reg mres Unstarted []"
    by (simp add: schedule_def)
  show ?thesis
  proof (cases "st = request0")
    case True
    then have "st' = \<lparr>handlerAt = AtMonitoring, statsWorker = Unstarted, monitorWorker = Unstarted,
        errorChan = [], combined = [], crashed = False\<rparr>"
      using assms(2) False by (auto simp: step_defs request0_def)
    then show ?thesis unfolding sch using monitoringStates_first by simp
  next
    case False
    then have "st \<in> set (monitoringStates env cfg reg mres Unstarted [])"
      using assms(1) unfolding sch by simp
    then have "st' \<in> set (monitoringStates env cfg reg mres Unstarted [])"
      using monitoringStates_closed [of st env cfg reg mres Unstarted "[]" st' sres] assms(2)
      by simp
    then show ?thesis unfolding sch by simp
  qed
next
  case True
  note sc = this
  show ?thesis
  proof (cases sres)
    case (Ok sd)
    let ?S1 = "\<lparr>handlerAt = SelectStatistics, statsWorker = Running, monitorWorker = Unstarted,
           errorChan = [], combined = [], crashed = False\<rparr>"
    let ?S2 = "\<lparr>handlerAt = SelectStatistics, statsWorker = Sending sd,
                  monitorWorker = Unstarted, errorChan = [], combined = [], crashed = False\<rparr>"
    have sch: "schedule env cfg reg sres mres
        = request0 # ?S1 # ?S2 # monitoringStates env cfg reg mres Exited (mergeInto [] sd)"
      using sc Ok by (simp add: schedule_def)
    consider "st = request0" | "st = ?S1" | "st = ?S2"
      | "st \<in> set (monitoringStates env cfg reg mres Exited (mergeInto [] sd))"
      using assms(1) unfolding sch by auto
    then show ?thesis
    proof cases
      case 1
      then have "st' = ?S1" using assms(2) sc by (auto simp: step_defs request0_def)
      then show ?thesis unfolding sch by simp
    next
      case 2
      then have "st' = ?S2" using assms(2) Ok by (auto simp: step_defs)
      then show ?thesis unfolding sch by simp
    next
      case 3
      then have "st' = \<lparr>handlerAt = AtMonitoring, statsWorker = Exited, monitorWorker = Unstarted,
          errorChan = [], combined = mergeInto [] sd, crashed = False\<rparr>"
        using assms(2) by (auto simp: step_defs)
      then show ?thesis unfolding sch using monitoringStates_first by simp
    next
      case 4
      then have "st' \<in> set (monitoringStates env cfg reg mres Exited (mergeInto [] sd))"
        using monitoringStates_closed [of st env cfg reg mres Exited "mergeInto [] sd" st' sres]
          assms(2)
        by simp
      then show ?thesis unfolding sch by simp
    qed
  next
    case (Err e)
    then show ?thesis
      using assms sc by (auto simp: schedule_def step_defs request0_def split: worker.splits)
  next
    case Panic
    then show ?thesis
      using assms sc by (auto simp: schedule_def step_defs request0_def split: worker.splits)
  qed
qed

lemma reachable_in_schedule:
  "reachable env cfg reg sres mres st \<Longrightarrow> st \<in> set (schedule env cfg reg sres mres)"
proof (induction rule: reachable.induct)
  case start
  show ?case by (simp add: schedule_def)
next
  case (step st st')
  show ?case using step.IH step.hyps(2) by (rule schedule_closed)
qed

lemma follows_reachable:
  "follows (requestSteps env cfg reg sres mres) (x # xs) \<Longrightarrow>
   reachable env cfg reg sres mres x \<Longrightarrow> y \<in> set (x # xs) \<Longrightarrow>
   reachable env cfg reg sres mres y"
proof (induction xs arbitrary: x)
  case Nil
  then show ?case by simp
next
  case (Cons z zs)
  have z: "reachable env cfg reg sres mres z"
    using Cons.prems(1) Cons.prems(2) by (auto intro: reachable.step)
  show ?case
  proof (cases "y = x")
    case True
    then show ?thesis using Cons.prems(2) by simp
  next
    case False
    then have "y \<in> set (z # zs)" using Cons.prems(3) by simp
    moreover have "follows (requestSteps env cfg reg sres mres) (z # zs)"
      using Cons.prems(1) by simp
    ultimately show ?thesis using Cons.IH z by blast
  qed
qed

lemma schedule_follows:
  "follows (requestSteps env cfg reg sres mres) (schedule env cfg reg sres mres)"
  apply (cases sres; cases mres; cases "statisticsConfigured cfg"; cases "monitoringConfigured cfg")
  apply (simp_all add: schedule_def monitoringStates_def checkStates_def step_defs request0_def)
  done

lemma schedule_reachable:
  "st \<in> set (schedule env cfg reg sres mres) \<Longrightarrow> reachable env cfg reg sres mres st"
proof -
  assume m: "st \<in> set (schedule env cfg reg sres mres)"
  obtain xs where xs: "schedule env cfg reg sres mres = request0 # xs"
    by (simp add: schedule_def)
  show ?thesis
    using follows_reachable [of env cfg reg sres mres request0 xs st]
      schedule_follows [of env cfg reg sres mres] m reachable.start
    unfolding xs by blast
qed

lemma schedule_order:
  "st \<in> set (schedule env cfg reg sres mres) \<Longrightarrow> monitorWorker st \<noteq> Unstarted \<Longrightarrow>
   statsWorker st = Exited \<or> statsWorker st = Unstarted"
  by (auto simp: schedule_def monitoringStates_def checkStates_def request0_def
      split: if_splits outcome.splits)

lemma schedule_statistics_error:
  "st \<in> set (schedule env cfg reg (Err e) mres) \<Longrightarrow> statisticsConfigured cfg \<Longrightarrow>
   monitorWorker st = Unstarted
   \<and> (\<forall>h. handlerAt st = Finished h \<longrightarrow>
          h = httpError (''failed to fetch statistics data: '' @ e) 500 reg)"
  by (auto simp: schedule_def request0_def)

lemma schedule_finished:
  "st \<in> set (schedule env cfg reg sres mres) \<Longrightarrow> handlerAt st = Finished h \<Longrightarrow>
   h = statisticsStage env cfg reg sres mres"
  by (auto simp: schedule_def monitoringStates_def checkStates_def request0_def
      statisticsStage_def onStatistics_def monitoringStage_def onMonitoring_def
      split: if_splits outcome.splits)

text \<open>
  C3, as stated, at a concrete input. Both sources are configured: statistics with the
  category \<open>Q\<close>, monitoring with the category \<open>link\<close>. No state that the goroutines of a
  request can reach has both aggregations running. And were the statistics aggregation
  to report an error, no state that can be reached has the monitoring worker started:
  its work is not run at all.
\<close>

theorem aggregations_never_overlap:
  "\<not> (\<exists>st. reachable
          (exampleEnv [(statsPage ''Q'', statsBody ''A'' ''x'' ''2''),
                       (monitorPage ''link'', monitorBody1 ''rate'' ''5 bps'')]
             [(statsBody ''A'' ''x'' ''2'', [(''A'', [(''x'', 2)])])]
             [(monitorBody1 ''rate'' ''5 bps'', [(''rate'', ''5 bps'')])])
          (bothSources [''Q''] [''link'']) []
          (statisticsResult
             (exampleEnv [(statsPage ''Q'', statsBody ''A'' ''x'' ''2''),
                          (monitorPage ''link'', monitorBody1 ''rate'' ''5 bps'')]
                [(statsBody ''A'' ''x'' ''2'', [(''A'', [(''x'', 2)])])]
                [(monitorBody1 ''rate'' ''5 bps'', [(''rate'', ''5 bps'')])])
             (bothSources [''Q''] [''link'']))
          (monitoringResult
             (exampleEnv [(statsPage ''Q'', statsBody ''A'' ''x'' ''2''),
                          (monitorPage ''link'', monitorBody1 ''rate'' ''5 bps'')]
                [(statsBody ''A'' ''x'' ''2'', [(''A'', [(''x'', 2)])])]
                [(monitorBody1 ''rate'' ''5 bps'', [(''rate'', ''5 bps'')])])
             (bothSources [''Q''] [''link''])) st
        \<and> statsWorker st = Running \<and> monitorWorker st = Running)
   \<and> \<not> (\<exists>st. reachable
          (exampleEnv [(statsPage ''Q'', statsBody ''A'' ''x'' ''2''),
                       (monitorPage ''link'', monitorBody1 ''rate'' ''5 bps'')]
             [(statsBody ''A'' ''x'' ''2'', [(''A'', [(''x'', 2)])])]
             [(monitorBody1 ''rate'' ''5 bps'', [(''rate'', ''5 bps'')])])
          (bothSources [''Q''] [''link'']) []
          (Err ''invalid data type: metrics'')
          (monitoringResult
             (exampleEnv [(statsPage ''Q'', statsBody ''A'' ''x'' ''2''),
                          (monitorPage ''link'', monitorBody1 ''rate'' ''5 bps'')]
                [(statsBody ''A'' ''x'' ''2'', [(''A'', [(''x'', 2)])])]
                [(monitorBody1 ''rate'' ''5 bps'', [(''rate'', ''5 bps'')])])
             (bothSources [''Q''] [''link''])) st
        \<and> monitorWorker st \<noteq> Unstarted)"
proof (intro conjI notI)
  let ?env = "exampleEnv [(statsPage ''Q'', statsBody ''A'' ''x'' ''2''),
                       (monitorPage ''link'', monitorBody1 ''rate'' ''5 bps'')]
             [(statsBody ''A'' ''x'' ''2'', [(''A'', [(''x'', 2)])])]
             [(monitorBody1 ''rate'' ''5 bps'', [(''rate'', ''5 bps'')])]"
  let ?cfg = "bothSources [''Q''] [''link'']"
  {
    assume "\<exists>st. reachable ?env ?cfg [] (statisticsResult ?env ?cfg) (monitoringResult ?env ?cfg) st
        \<and> statsWorker st = Running \<and> monitorWorker st = Running"
    then obtain st where
      r: "reachable ?env ?cfg [] (statisticsResult ?env ?cfg) (monitoringResult ?env ?cfg) st"
      and w: "statsWorker st = Running" "monitorWorker st = Running"
      by blast
    have "statsWorker st = Exited \<or> statsWorker st = Unstarted"
      using schedule_order [OF reachable_in_schedule [OF r]] w(2) by simp
    then show False using w(1) by simp
  }
  {
    assume "\<exists>st. reachable ?env ?cfg [] (Err ''invalid data type: metrics'')
          (monitoringResult ?env ?cfg) st \<and> monitorWorker st \<noteq> Unstarted"
    then obtain st where
      r: "reachable ?env ?cfg [] (Err ''invalid data type: metrics'') (monitoringResult ?env ?cfg) st"
      and w: "monitorWorker st \<noteq> Unstarted"
      by blast
    have "statisticsConfigured ?cfg"
      by (simp add: statisticsConfigured_def bothSources_def)
    then have "monitorWorker st = Unstarted"
      using schedule_statistics_error [OF reachable_in_schedule [OF r]] by simp
    then show False using w by simp
  }
qed

subsection \<open>The one run of a request\<close>

lemma schedule_exact:
  "exactly (requestSteps env cfg reg sres mres) (schedule env cfg reg sres mres)"
  apply (cases sres; cases mres; cases "statisticsConfigured cfg"; cases "monitoringConfigured cfg")
  apply (simp_all add: schedule_def monitoringStates_def checkStates_def step_defs request0_def)
  done

lemma schedule_starts: "\<exists>xs. schedule env cfg reg sres mres = request0 # xs"
  by (simp add: schedule_def)

lemma schedule_length: "length (schedule env cfg reg sres mres) \<le> 8"
  by (simp add: schedule_def monitoringStates_def checkStates_def split: outcome.splits)

lemma exactly_prefix:
  "exactly f (x # ys) \<Longrightarrow> follows f (x # xs) \<Longrightarrow> \<exists>zs. ys = xs @ zs"
proof (induction xs arbitrary: x ys)
  case Nil
  show ?case by simp
next
  case (Cons z zs)
  have z: "z \<in> set (f x)" and fz: "follows f (z # zs)"
    using Cons.prems(2) by simp_all
  show ?case
  proof (cases ys)
    case Nil
    then have "f x = []" using Cons.prems(1) by simp
    then show ?thesis using z by simp
  next
    case (Cons y ys')
    then have fx: "f x = [y]" and ex: "exactly f (y # ys')"
      using Cons.prems(1) by simp_all
    have zy: "z = y" using z fx by simp
    obtain zs' where "ys' = zs @ zs'"
      using Cons.IH [of y ys'] ex fz zy by blast
    then show ?thesis using Cons zy by simp
  qed
qed

lemma exactly_stuck_last:
  "exactly f xs \<Longrightarrow> x \<in> set xs \<Longrightarrow> f x = [] \<Longrightarrow> x = last xs"
proof (induction f xs rule: exactly.induct)
  case (1 f)
  then show ?case by simp
next
  case (2 f y)
  then show ?case by simp
next
  case (3 f y z zs)
  have "x \<noteq> y" using "3.prems" by auto
  then have "x \<in> set (z # zs)" using "3.prems"(2) by simp
  then have "x = last (z # zs)"
    using "3.IH" "3.prems"(1) "3.prems"(3) by simp
  then show ?case by simp
qed

lemma exactly_last: "exactly f xs \<Longrightarrow> xs \<noteq> [] \<Longrightarrow> f (last xs) = []"
  by (induction f xs rule: exactly.induct) simp_all

lemma schedule_last:
  "(statisticsStage env cfg reg sres mres \<noteq> Crashed \<longrightarrow>
      handlerAt (last (schedule env cfg reg sres mres))
        = Finished (statisticsStage env cfg reg sres mres)
      \<and> \<not> crashed (last (schedule env cfg reg sres mres)))
   \<and> (statisticsStage env cfg reg sres mres = Crashed \<longrightarrow>
      crashed (last (schedule env cfg reg sres mres)))"
  apply (cases sres; cases mres; cases "statisticsConfigured cfg"; cases "monitoringConfigured cfg")
  apply (simp_all add: schedule_def monitoringStates_def checkStates_def request0_def
      statisticsStage_def onStatistics_def monitoringStage_def onMonitoring_def
      respond_not_Crashed httpError_def)
  done

lemma schedule_crashed:
  "st \<in> set (schedule env cfg reg sres mres) \<Longrightarrow> crashed st \<Longrightarrow>
   statisticsStage env cfg reg sres mres = Crashed"
  by (auto simp: schedule_def monitoringStates_def checkStates_def request0_def
      statisticsStage_def onStatistics_def monitoringStage_def onMonitoring_def
      split: if_splits outcome.splits)

lemma schedule_stuck:
  assumes "st \<in> set (schedule env cfg reg sres mres)"
  shows "requestSteps env cfg reg sres mres st = []
         \<longleftrightarrow> crashed st \<or> (\<exists>h. handlerAt st = Finished h)"
proof
  assume "requestSteps env cfg reg sres mres st = []"
  then have l: "st = last (schedule env cfg reg sres mres)"
    using exactly_stuck_last [OF schedule_exact assms] by simp
  show "crashed st \<or> (\<exists>h. handlerAt st = Finished h)"
    using schedule_last [of env cfg reg sres mres] unfolding l by blast
next
  assume "crashed st \<or> (\<exists>h. handlerAt st = Finished h)"
  then show "requestSteps env cfg reg sres mres st = []"
    using assms
    by (auto simp: schedule_def monitoringStates_def checkStates_def request0_def step_defs
        split: if_splits outcome.splits)
qed

lemma run_in_schedule:
  assumes "follows (requestSteps env cfg reg sres mres) (request0 # xs)"
  shows "length xs \<le> 7 \<and> (\<exists>zs. schedule env cfg reg sres mres = request0 # xs @ zs)"
proof -
  obtain ys where ys: "schedule env cfg reg sres mres = request0 # ys"
    using schedule_starts by blast
  have "exactly (requestSteps env cfg reg sres mres) (request0 # ys)"
    using schedule_exact [of env cfg reg sres mres] unfolding ys .
  then obtain zs where zs: "ys = xs @ zs"
    using exactly_prefix assms by blast
  have "length (request0 # ys) \<le> 8"
    using schedule_length [of env cfg reg sres mres] unfolding ys .
  then have "length xs \<le> 7" using zs by simp
  then show ?thesis using ys zs by simp
qed

text \<open>
  C3, amended. Each configured aggregation runs in a goroutine of its own, but the
  handler waits for the outcome of the statistics branch before it starts the monitoring
  branch, so the two aggregations do not overlap and a request has one run only.

  \<^item> In every state a request can reach: when the monitoring worker has been started, the
    statistics worker has ended or was never started; a finished handler has given the
    response of the two branches taken one after the other; the process has ended
    only where the two branches taken one after the other give no response (a worker
    has panicked); and no step is left exactly when the handler has finished or the
    process has ended, so the request is never blocked before that.
  \<^item> Every sequence of steps from the initial state has at most seven steps and is an
    initial part of the schedule. In the schedule each state has the next one as its
    only step and the last state has none; all its states can be reached; its last state
    has the handler finished with the response, or the process ended.
  \<^item> When the statistics branch reports an error, the run has three steps: the worker
    is started, it puts the wrapped error into \<open>errorChan\<close>, and the handler takes it and
    answers 500 with the text \<open>failed to fetch statistics data: \<close> and the error. The
    monitoring worker is never started.
  \<^item> When statistics delivers a fragment and the monitoring branch reports an error,
    the run ends with the answer 500 and the text \<open>failed to fetch monitoring data: \<close>
    and the error; the statistics worker has ended before, and its fragment, merged
    before, is not served.
\<close>

theorem handler_waits_for_each_branch:
  "(\<forall>st. reachable env cfg reg statsResult monitorResult st \<longrightarrow>
       (monitorWorker st \<noteq> Unstarted \<longrightarrow> statsWorker st = Exited \<or> statsWorker st = Unstarted)
       \<and> (\<forall>h. handlerAt st = Finished h \<longrightarrow>
              h = statisticsStage env cfg reg statsResult monitorResult)
       \<and> (crashed st \<longrightarrow> statisticsStage env cfg reg statsResult monitorResult = Crashed)
       \<and> (requestSteps env cfg reg statsResult monitorResult st = []
            \<longleftrightarrow> crashed st \<or> (\<exists>h. handlerAt st = Finished h)))
   \<and> (\<forall>xs. follows (requestSteps env cfg reg statsResult monitorResult) (request0 # xs) \<longrightarrow>
         length xs \<le> 7
         \<and> (\<exists>zs. schedule env cfg reg statsResult monitorResult = request0 # xs @ zs))
   \<and> exactly (requestSteps env cfg reg statsResult monitorResult)
        (schedule env cfg reg statsResult monitorResult)
   \<and> (\<forall>st. st \<in> set (schedule env cfg reg statsResult monitorResult) \<longrightarrow>
         reachable env cfg reg statsResult monitorResult st)
   \<and> (statisticsStage env cfg reg statsResult monitorResult \<noteq> Crashed \<longrightarrow>
         handlerAt (last (schedule env cfg reg statsResult monitorResult))
           = Finished (statisticsStage env cfg reg statsResult monitorResult)
         \<and> \<not> crashed (last (schedule env cfg reg statsResult monitorResult)))
   \<and> (statisticsStage env cfg reg statsResult monitorResult = Crashed \<longrightarrow>
         crashed (last (schedule env cfg reg statsResult monitorResult)))
   \<and> (\<forall>e. statisticsConfigured cfg \<and> statsResult = Err e \<longrightarrow>
         schedule env cfg reg statsResult monitorResult
           = [request0,
              \<lparr>handlerAt = SelectStatistics, statsWorker = Running, monitorWorker = Unstarted,
               errorChan = [], combined = [], crashed = False\<rparr>,
              \<lparr>handlerAt = SelectStatistics, statsWorker = Exited, monitorWorker = Unstarted,
               errorChan = [''failed to fetch statistics data: '' @ e], combined = [],
               crashed = False\<rparr>,
              \<lparr>handlerAt = Finished
                 (Responded 500 (Text (''failed to fetch statistics data: '' @ e @ [CHR 0x0A])) reg),
               statsWorker = Exited, monitorWorker = Unstarted, errorChan = [], combined = [],
               crashed = False\<rparr>]
         \<and> statisticsStage env cfg reg statsResult monitorResult
           = Responded 500 (Text (''failed to fetch statistics data: '' @ e @ [CHR 0x0A])) reg)
   \<and> (\<forall>sd e. statisticsConfigured cfg \<and> monitoringConfigured cfg
          \<and> statsResult = Ok sd \<and> monitorResult = Err e \<longrightarrow>
         last (schedule env cfg reg statsResult monitorResult)
           = \<lparr>handlerAt = Finished
                (Responded 500 (Text (''failed to fetch monitoring data: '' @ e @ [CHR 0x0A])) reg),
              statsWorker = Exited, monitorWorker = Exited, errorChan = [],
              combined = mergeInto [] sd, crashed = False\<rparr>
         \<and> statisticsStage env cfg reg statsResult monitorResult
           = Responded 500 (Text (''failed to fetch monitoring data: '' @ e @ [CHR 0x0A])) reg)"
proof -
  let ?steps = "requestSteps env cfg reg statsResult monitorResult"
  let ?sched = "schedule env cfg reg statsResult monitorResult"
  let ?resp = "statisticsStage env cfg reg statsResult monitorResult"
  have c1: "\<forall>st. reachable env cfg reg statsResult monitorResult st \<longrightarrow>
       (monitorWorker st \<noteq> Unstarted \<longrightarrow> statsWorker st = Exited \<or> statsWorker st = Unstarted)
       \<and> (\<forall>h. handlerAt st = Finished h \<longrightarrow> h = ?resp)
       \<and> (crashed st \<longrightarrow> ?resp = Crashed)
       \<and> (?steps st = [] \<longleftrightarrow> crashed st \<or> (\<exists>h. handlerAt st = Finished h))"
  proof (intro allI impI)
    fix st
    assume "reachable env cfg reg statsResult monitorResult st"
    then have m: "st \<in> set ?sched" by (rule reachable_in_schedule)
    show "(monitorWorker st \<noteq> Unstarted \<longrightarrow> statsWorker st = Exited \<or> statsWorker st = Unstarted)
       \<and> (\<forall>h. handlerAt st = Finished h \<longrightarrow> h = ?resp)
       \<and> (crashed st \<longrightarrow> ?resp = Crashed)
       \<and> (?steps st = [] \<longleftrightarrow> crashed st \<or> (\<exists>h. handlerAt st = Finished h))"
      using schedule_order [OF m] schedule_finished [OF m] schedule_crashed [OF m]
        schedule_stuck [OF m]
      by blast
  qed
  have c2: "\<forall>xs. follows ?steps (request0 # xs) \<longrightarrow>
         length xs \<le> 7 \<and> (\<exists>zs. ?sched = request0 # xs @ zs)"
    using run_in_schedule by blast
  have c3: "exactly ?steps ?sched" by (rule schedule_exact)
  have c4: "\<forall>st. st \<in> set ?sched \<longrightarrow> reachable env cfg reg statsResult monitorResult st"
    using schedule_reachable by blast
  have c5: "?resp \<noteq> Crashed \<longrightarrow>
         handlerAt (last ?sched) = Finished ?resp \<and> \<not> crashed (last ?sched)"
    using schedule_last [of env cfg reg statsResult monitorResult] by blast
  have c6: "?resp = Crashed \<longrightarrow> crashed (last ?sched)"
    using schedule_last [of env cfg reg statsResult monitorResult] by blast
  have c7: "\<forall>e. statisticsConfigured cfg \<and> statsResult = Err e \<longrightarrow>
         ?sched
           = [request0,
              \<lparr>handlerAt = SelectStatistics, statsWorker = Running, monitorWorker = Unstarted,
               errorChan = [], combined = [], crashed = False\<rparr>,
              \<lparr>handlerAt = SelectStatistics, statsWorker = Exited, monitorWorker = Unstarted,
               errorChan = [''failed to fetch statistics data: '' @ e], combined = [],
               crashed = False\<rparr>,
              \<lparr>handlerAt = Finished
                 (Responded 500 (Text (''failed to fetch statistics data: '' @ e @ [CHR 0x0A])) reg),
               statsWorker = Exited, monitorWorker = Unstarted, errorChan = [], combined = [],
               crashed = False\<rparr>]
         \<and> ?resp = Responded 500 (Text (''failed to fetch statistics data: '' @ e @ [CHR 0x0A])) reg"
    by (simp add: schedule_def statisticsStage_def onStatistics_def httpError_def)
  have c8: "\<forall>sd e. statisticsConfigured cfg \<and> monitoringConfigured cfg
          \<and> statsResult = Ok sd \<and> monitorResult = Err e \<longrightarrow>
         last ?sched
           = \<lparr>handlerAt = Finished
                (Responded 500 (Text (''failed to fetch monitoring data: '' @ e @ [CHR 0x0A])) reg),
              statsWorker = Exited, monitorWorker = Exited, errorChan = [],
              combined = mergeInto [] sd, crashed = False\<rparr>
         \<and> ?resp = Responded 500 (Text (''failed to fetch monitoring data: '' @ e @ [CHR 0x0A])) reg"
    by (simp add: schedule_def monitoringStates_def statisticsStage_def onStatistics_def
        monitoringStage_def onMonitoring_def httpError_def)
  from c1 c2 c3 c4 c5 c6 c7 c8 show ?thesis by (intro conjI)
qed

theorem handler_waits_for_each_branch_witness:
  "schedule (exampleEnv [] [] []) (bothSources [''Q''] [''link'']) []
     (Err ''invalid data type: metrics'') (Ok [(''link'', [(''rate'', 5)])])
   = [request0,
      \<lparr>handlerAt = SelectStatistics, statsWorker = Running, monitorWorker = Unstarted,
       errorChan = [], combined = [], crashed = False\<rparr>,
      \<lparr>handlerAt = SelectStatistics, statsWorker = Exited, monitorWorker = Unstarted,
       errorChan = [''failed to fetch statistics data: invalid data type: metrics''],
       combined = [], crashed = False\<rparr>,
      \<lparr>handlerAt = Finished
         (Responded 500
            (Text (''failed to fetch statistics data: invalid data type: metrics'' @ [CHR 0x0A])) []),
       statsWorker = Exited, monitorWorker = Unstarted, errorChan = [], combined = [],
       crashed = False\<rparr>]
   \<and> reachable (exampleEnv [] [] []) (bothSources [''Q''] [''link'']) []
       (Err ''invalid data type: metrics'') (Ok [(''link'', [(''rate'', 5)])])
       \<lparr>handlerAt = Finished
          (Responded 500
             (Text (''failed to fetch statistics data: invalid data type: metrics'' @ [CHR 0x0A])) []),
        statsWorker = Exited, monitorWorker = Unstarted, errorChan = [], combined = [],
        crashed = False\<rparr>
   \<and> requestSteps (exampleEnv [] [] []) (bothSources [''Q''] [''link'']) []
       (Err ''invalid data type: metrics'') (Ok [(''link'', [(''rate'', 5)])])
       \<lparr>handlerAt = SelectStatistics, statsWorker = Exited, monitorWorker = Unstarted,
        errorChan = [''failed to fetch statistics data: invalid data type: metrics''],
        combined = [], crashed = False\<rparr>
     = [\<lparr>handlerAt = Finished
          (Responded 500
             (Text (''failed to fetch statistics data: invalid data type: metrics'' @ [CHR 0x0A])) []),
        statsWorker = Exited, monitorWorker = Unstarted, errorChan = [], combined = [],
        crashed = False\<rparr>]
   \<and> statisticsStage (exampleEnv [] [] []) (bothSources [''Q''] [''link'']) []
       (Err ''invalid data type: metrics'') (Ok [(''link'', [(''rate'', 5)])])
     = Responded 500
         (Text (''failed to fetch statistics data: invalid data type: metrics'' @ [CHR 0x0A])) []
   \<and> reachable (exampleEnv [] [] []) (bothSources [''Q''] [''link'']) []
       (Ok [(''Q_A'', [(''x'', 2)])]) (Err ''invalid data type: metrics'')
       \<lparr>handlerAt = Finished
          (Responded 500
             (Text (''failed to fetch monitoring data: invalid data type: metrics'' @ [CHR 0x0A])) []),
        statsWorker = Exited, monitorWorker = Exited,
        errorChan = [], combined = [(''Q_A'', [(''x'', 2)])], crashed = False\<rparr>
   \<and> statisticsStage (exampleEnv [] [] []) (bothSources [''Q''] [''link'']) []
       (Ok [(''Q_A'', [(''x'', 2)])]) (Err ''invalid data type: metrics'')
     = Responded 500
         (Text (''failed to fetch monitoring data: invalid data type: metrics'' @ [CHR 0x0A])) []
   \<and> length (schedule (exampleEnv [] [] []) (bothSources [''Q''] [''link'']) []
       (Ok [(''Q_A'', [(''x'', 2)])]) (Ok [(''link'', [(''rate'', 5)])])) = 8
   \<and> crashed (last (schedule (exampleEnv [] [] []) (bothSources [''Q''] [''link'']) []
       (Ok [(''Q_A'', [(''x'', 2)])]) Panic))"
proof -
  let ?env = "exampleEnv [] [] []"
  let ?cfg = "bothSources [''Q''] [''link'']"
  let ?err = "Err ''invalid data type: metrics'' :: dataset outcome"
  let ?sd = "Ok [(''Q_A'', [(''x'', 2)])] :: dataset outcome"
  let ?md = "Ok [(''link'', [(''rate'', 5)])] :: dataset outcome"
  let ?S3 = "\<lparr>handlerAt = SelectStatistics, statsWorker = Exited, monitorWorker = Unstarted,
        errorChan = [''failed to fetch statistics data: invalid data type: metrics''],
        combined = [], crashed = False\<rparr>"
  let ?S4 = "\<lparr>handlerAt = Finished
          (Responded 500
             (Text (''failed to fetch statistics data: invalid data type: metrics'' @ [CHR 0x0A])) []),
        statsWorker = Exited, monitorWorker = Unstarted, errorChan = [], combined = [],
        crashed = False\<rparr>"
  let ?M4 = "\<lparr>handlerAt = Finished
          (Responded 500
             (Text (''failed to fetch monitoring data: invalid data type: metrics'' @ [CHR 0x0A])) []),
        statsWorker = Exited, monitorWorker = Exited,
        errorChan = [], combined = [(''Q_A'', [(''x'', 2)])], crashed = False\<rparr>"
  note serr = handler_waits_for_each_branch [of "?env" "?cfg" "[]" "?err" "?md"]
  note merr = handler_waits_for_each_branch [of "?env" "?cfg" "[]" "?sd" "?err"]
  note both = handler_waits_for_each_branch [of "?env" "?cfg" "[]" "?sd" "?md"]
  note pnc = handler_waits_for_each_branch [of "?env" "?cfg" "[]" "?sd" Panic]
  have c: "statisticsConfigured ?cfg" "monitoringConfigured ?cfg"
    by (simp_all add: statisticsConfigured_def monitoringConfigured_def bothSources_def)

  have s7: "schedule ?env ?cfg [] ?err ?md
      = [request0,
         \<lparr>handlerAt = SelectStatistics, statsWorker = Running, monitorWorker = Unstarted,
          errorChan = [], combined = [], crashed = False\<rparr>, ?S3, ?S4]
      \<and> statisticsStage ?env ?cfg [] ?err ?md
        = Responded 500
            (Text (''failed to fetch statistics data: invalid data type: metrics'' @ [CHR 0x0A])) []"
    using serr [THEN conjunct2, THEN conjunct2, THEN conjunct2, THEN conjunct2, THEN conjunct2,
        THEN conjunct2, THEN conjunct1, rule_format, of "''invalid data type: metrics''"] c
    by simp
  then have "?S4 \<in> set (schedule ?env ?cfg [] ?err ?md)" by simp
  then have r4: "reachable ?env ?cfg [] ?err ?md ?S4"
    using serr [THEN conjunct2, THEN conjunct2, THEN conjunct2, THEN conjunct1] by blast
  have "exactly (requestSteps ?env ?cfg [] ?err ?md) (schedule ?env ?cfg [] ?err ?md)"
    using serr [THEN conjunct2, THEN conjunct2, THEN conjunct1] .
  then have st3: "requestSteps ?env ?cfg [] ?err ?md ?S3 = [?S4]"
    using s7 by simp

  have m8: "last (schedule ?env ?cfg [] ?sd ?err) = ?M4
      \<and> statisticsStage ?env ?cfg [] ?sd ?err
        = Responded 500
            (Text (''failed to fetch monitoring data: invalid data type: metrics'' @ [CHR 0x0A])) []"
    using merr [THEN conjunct2, THEN conjunct2, THEN conjunct2, THEN conjunct2, THEN conjunct2,
        THEN conjunct2, THEN conjunct2, rule_format,
        of "[(''Q_A'', [(''x'', 2)])]" "''invalid data type: metrics''"] c
    by simp
  have "schedule ?env ?cfg [] ?sd ?err \<noteq> []" by (simp add: schedule_def)
  then have "?M4 \<in> set (schedule ?env ?cfg [] ?sd ?err)"
    using m8 last_in_set by metis
  then have rm: "reachable ?env ?cfg [] ?sd ?err ?M4"
    using merr [THEN conjunct2, THEN conjunct2, THEN conjunct2, THEN conjunct1] by blast

  have l8: "length (schedule ?env ?cfg [] ?sd ?md) = 8"
    using c by (simp add: schedule_def monitoringStates_def checkStates_def)
  have "exactly (requestSteps ?env ?cfg [] ?sd ?md) (schedule ?env ?cfg [] ?sd ?md)"
    using both [THEN conjunct2, THEN conjunct2, THEN conjunct1] .

  have "statisticsStage ?env ?cfg [] ?sd Panic = Crashed"
    using c by (simp add: statisticsStage_def onStatistics_def monitoringStage_def onMonitoring_def)
  then have p: "crashed (last (schedule ?env ?cfg [] ?sd Panic))"
    using pnc [THEN conjunct2, THEN conjunct2, THEN conjunct2, THEN conjunct2, THEN conjunct2,
        THEN conjunct1] by blast

  from s7 r4 st3 m8 rm l8 p show ?thesis by (intro conjI) simp_all
qed

end
